(* ===== verification/Prelude.thy ===== *)
theory Prelude
  imports Complex_Main "HOL-Library.Word"
begin

text \<open>
  What the component theories share: the model's types for Python values (byte strings,
  strings of code points, insertion-ordered dictionaries, results of code that may raise),
  big-endian integers as \<^verbatim>\<open>struct.pack\<close> and \<^verbatim>\<open>int.to_bytes\<close> lay them out, and three
  interfaces stated as locales: a keyed store, a system of steps that keeps an invariant, and
  a self-delimiting codec read off a byte stream.
\<close>

section \<open>Types\<close>

text \<open>
  A Python \<^verbatim>\<open>bytes\<close> object is a list of 8-bit words. A Python \<^verbatim>\<open>str\<close> is a list of code
  points, so that \<^verbatim>\<open>len\<close> and slicing count what Python counts; \<open>lit\<close> turns an ASCII
  literal into one. Clock readings are rationals: the rounding of floating-point
  subtraction is not modelled.
\<close>

type_synonym byte = "8 word"
type_synonym bytes = "byte list"
type_synonym pystr = "nat list"
type_synonym time = rat
type_synonym ('k, 'v) dict = "('k \<times> 'v) list"

definition lit :: "string \<Rightarrow> pystr" where
  "lit s = map of_char s"

definition blit :: "string \<Rightarrow> bytes" where
  "blit s = map of_char s"

section \<open>Collections of facts\<close>

named_theorems byte_simps \<open>big-endian integers and byte strings\<close>
named_theorems dict_simps \<open>insertion-ordered dictionaries\<close>
named_theorems res_simps \<open>results of code that may raise\<close>

section \<open>Results of code that may raise\<close>

text \<open>\<open>Inl\<close> is a raised exception, \<open>Inr\<close> a returned value; \<open>res_bind\<close> is sequencing.\<close>

definition res_bind :: "'e + 'a \<Rightarrow> ('a \<Rightarrow> 'e + 'b) \<Rightarrow> 'e + 'b" where
  "res_bind r f = (case r of Inl e \<Rightarrow> Inl e | Inr x \<Rightarrow> f x)"

definition guard_res :: "bool \<Rightarrow> 'e \<Rightarrow> 'e + unit" where
  "guard_res ok e = (if ok then Inr () else Inl e)"

lemma res_bind_simps [simp]:
  "res_bind (Inl e) f = Inl e" "res_bind (Inr x) f = f x"
  by (simp_all add: res_bind_def)

lemma guard_res_simps [simp]:
  "guard_res True e = Inr ()" "guard_res False e = Inl e"
  by (simp_all add: guard_res_def)

lemma res_bind_Inr_iff [res_simps]:
  "res_bind r f = Inr y \<longleftrightarrow> (\<exists>x. r = Inr x \<and> f x = Inr y)"
  by (cases r) simp_all

lemma res_bind_Inl_iff [res_simps]:
  "res_bind r f = Inl e \<longleftrightarrow> r = Inl e \<or> (\<exists>x. r = Inr x \<and> f x = Inl e)"
  by (cases r) simp_all

lemma guard_res_Inr_iff [res_simps]: "guard_res ok e = Inr u \<longleftrightarrow> ok"
  by (simp add: guard_res_def)

lemma guard_res_Inl_iff [res_simps]: "guard_res ok e = Inl e' \<longleftrightarrow> \<not> ok \<and> e' = e"
  by (auto simp add: guard_res_def)

lemma Inr_Inl_cases [consumes 0, case_names Inl Inr]:
  obtains e where "r = Inl e" | x where "r = Inr x"
  by (cases r) auto

section \<open>String literals\<close>

lemma lit_inject [simp]: "lit s = lit t \<longleftrightarrow> s = t"
proof -
  have "inj (of_char :: char \<Rightarrow> nat)"
    by (rule inj_of_char)
  then show ?thesis
    by (simp add: lit_def inj_map_eq_map)
qed

lemma lit_Nil_iff [simp]: "lit s = [] \<longleftrightarrow> s = []" "[] = lit s \<longleftrightarrow> s = []"
  by (simp_all add: lit_def)

lemma length_lit [simp]: "length (lit s) = length s"
  by (simp add: lit_def)

lemma length_blit [simp]: "length (blit s) = length s"
  by (simp add: blit_def)

section \<open>Big-endian integers\<close>

text \<open>
  \<open>be_bytes n x\<close> is \<^verbatim>\<open>x.to_bytes(n, "big")\<close> for \<open>x\<close> in range (and the low \<open>n\<close> bytes of
  \<open>x\<close> otherwise; the callers check the range first, as \<^verbatim>\<open>struct.pack\<close> does), \<open>be_nat\<close> is
  \<^verbatim>\<open>int.from_bytes(bs, "big")\<close>.
\<close>

definition byte_of :: "nat \<Rightarrow> byte" where
  "byte_of n = word_of_nat n"

primrec be_bytes :: "nat \<Rightarrow> nat \<Rightarrow> bytes" where
  "be_bytes 0 x = []"
| "be_bytes (Suc n) x = be_bytes n (x div 256) @ [byte_of (x mod 256)]"

definition be_nat :: "bytes \<Rightarrow> nat" where
  "be_nat bs = foldl (\<lambda>a b. a * 256 + unat b) 0 bs"

lemma length_be_bytes [simp]: "length (be_bytes n x) = n"
  by (induction n arbitrary: x) simp_all

lemma be_nat_Nil [simp]: "be_nat [] = 0"
  by (simp add: be_nat_def)

lemma be_nat_snoc [byte_simps]: "be_nat (bs @ [b]) = be_nat bs * 256 + unat b"
  by (simp add: be_nat_def)

lemma unat_byte_less [simp]: "unat (b :: byte) < 256"
  using unsigned_less [of b] by simp

lemma unat_byte_of [simp]: "x < 256 \<Longrightarrow> unat (byte_of x) = x"
  by (simp add: byte_of_def unat_of_nat take_bit_eq_mod)

lemma byte_of_unat [simp]: "byte_of (unat b) = b"
  by (simp add: byte_of_def)

lemma byte_of_inject: "x < 256 \<Longrightarrow> y < 256 \<Longrightarrow> byte_of x = byte_of y \<longleftrightarrow> x = y"
  by (metis unat_byte_of)

lemma be_nat_be_bytes_mod [byte_simps]: "be_nat (be_bytes n x) = x mod 256 ^ n"
proof (induction n arbitrary: x)
  case 0
  then show ?case by simp
next
  case (Suc n)
  have "be_nat (be_bytes (Suc n) x) = (x div 256 mod 256 ^ n) * 256 + x mod 256"
    by (simp add: be_nat_snoc Suc.IH)
  also have "\<dots> = x mod (256 * 256 ^ n)"
    by (simp add: mod_mult2_eq)
  finally show ?case by simp
qed

lemma be_nat_be_bytes [simp]: "x < 256 ^ n \<Longrightarrow> be_nat (be_bytes n x) = x"
  by (simp add: be_nat_be_bytes_mod)

lemma be_nat_less: "be_nat bs < 256 ^ length bs"
proof (induction bs rule: rev_induct)
  case Nil
  then show ?case by simp
next
  case (snoc b bs)
  have "be_nat bs * 256 + unat b < (be_nat bs + 1) * 256"
    by simp
  also have "\<dots> \<le> 256 ^ length bs * 256"
    using snoc by (intro mult_right_mono) simp_all
  finally show ?case by (simp add: be_nat_snoc)
qed

lemma be_bytes_be_nat [simp]: "length bs = n \<Longrightarrow> be_bytes n (be_nat bs) = bs"
proof (induction bs arbitrary: n rule: rev_induct)
  case Nil
  then show ?case by simp
next
  case (snoc b bs)
  then obtain m where n: "n = Suc m" and m: "length bs = m" by auto
  have "(be_nat bs * 256 + unat b) div 256 = be_nat bs"
    and "(be_nat bs * 256 + unat b) mod 256 = unat b"
    by simp_all
  with snoc.IH [OF m] show ?case
    by (simp add: n be_nat_snoc)
qed

lemma be_bytes_inj: "x < 256 ^ n \<Longrightarrow> y < 256 ^ n \<Longrightarrow> be_bytes n x = be_bytes n y \<longleftrightarrow> x = y"
  by (metis be_nat_be_bytes)

section \<open>Insertion-ordered dictionaries\<close>

text \<open>
  A Python \<^verbatim>\<open>dict\<close> is an association list in insertion order: assignment replaces a
  present key in place and appends a new one, deletion removes it. \<open>map_of\<close> is lookup.
\<close>

fun dict_set :: "('k, 'v) dict \<Rightarrow> 'k \<Rightarrow> 'v \<Rightarrow> ('k, 'v) dict" where
  "dict_set [] k v = [(k, v)]"
| "dict_set ((k', v') # d) k v =
     (if k' = k then (k, v) # d else (k', v') # dict_set d k v)"

definition dict_pop :: "('k, 'v) dict \<Rightarrow> 'k \<Rightarrow> ('k, 'v) dict" where
  "dict_pop d k = filter (\<lambda>(k', _). k' \<noteq> k) d"

definition dict_ok :: "('k, 'v) dict \<Rightarrow> bool" where
  "dict_ok d \<longleftrightarrow> distinct (map fst d)"

lemma map_of_dict_set [simp]: "map_of (dict_set d k v) = (map_of d)(k \<mapsto> v)"
  by (induction d k v rule: dict_set.induct) (auto simp: fun_eq_iff)

lemma map_of_dict_pop [simp]: "map_of (dict_pop d k) = (map_of d)(k := None)"
  by (induction d) (auto simp: dict_pop_def fun_eq_iff)

lemma dict_set_keys [simp]: "fst ` set (dict_set d k v) = insert k (fst ` set d)"
  by (induction d k v rule: dict_set.induct) auto

lemma dict_pop_keys [simp]: "fst ` set (dict_pop d k) = fst ` set d - {k}"
  by (auto simp: dict_pop_def image_iff)

lemma dict_ok_Nil [simp]: "dict_ok []"
  by (simp add: dict_ok_def)

lemma dict_ok_Cons [simp]: "dict_ok ((k, v) # d) \<longleftrightarrow> k \<notin> fst ` set d \<and> dict_ok d"
  by (simp add: dict_ok_def)

lemma dict_ok_set [simp]: "dict_ok d \<Longrightarrow> dict_ok (dict_set d k v)"
  by (induction d k v rule: dict_set.induct) auto

lemma dict_ok_filter [simp]: "dict_ok d \<Longrightarrow> dict_ok (filter P d)"
  by (auto simp: dict_ok_def distinct_map intro: inj_on_subset)

lemma dict_ok_pop [simp]: "dict_ok d \<Longrightarrow> dict_ok (dict_pop d k)"
  by (simp add: dict_pop_def)

lemma map_of_filter_dict [dict_simps]:
  "dict_ok d \<Longrightarrow> map_of (filter P d) k =
     (case map_of d k of None \<Rightarrow> None | Some v \<Rightarrow> if P (k, v) then Some v else None)"
proof (induction d)
  case Nil
  then show ?case by simp
next
  case (Cons a d)
  obtain k' v' where a: "a = (k', v')" by fastforce
  have "map_of (filter P d) k' = None" if "k' \<notin> fst ` set d"
    using that by (auto simp: map_of_eq_None_iff)
  with Cons show ?case
    by (auto simp: a split: option.splits)
qed

lemma dict_ok_mem_iff [dict_simps]: "dict_ok d \<Longrightarrow> (k, v) \<in> set d \<longleftrightarrow> map_of d k = Some v"
  by (simp add: dict_ok_def)

lemma length_dict_set [dict_simps]:
  "length (dict_set d k v) = (if k \<in> fst ` set d then length d else Suc (length d))"
  by (induction d k v rule: dict_set.induct) auto

lemma dict_set_fresh [dict_simps]: "k \<notin> fst ` set d \<Longrightarrow> dict_set d k v = d @ [(k, v)]"
  by (induction d k v rule: dict_set.induct) auto

lemma length_dict_pop_le: "length (dict_pop d k) \<le> length d"
  by (simp add: dict_pop_def)

subsection \<open>The keyed-store interface\<close>

text \<open>
  What the components rely on when they keep their records in a dictionary or in a table
  with a primary key: a write is read back, touches no other key, and keeps the store
  well formed.
\<close>

locale keyed_store =
  fixes look :: "'m \<Rightarrow> 'k \<Rightarrow> 'v option"
    and put :: "'m \<Rightarrow> 'k \<Rightarrow> 'v \<Rightarrow> 'm"
    and del :: "'m \<Rightarrow> 'k \<Rightarrow> 'm"
    and wf_store :: "'m \<Rightarrow> bool"
  assumes look_put: "look (put m k v) = (look m)(k \<mapsto> v)"
    and look_del: "look (del m k) = (look m)(k := None)"
    and wf_put: "wf_store m \<Longrightarrow> wf_store (put m k v)"
    and wf_del: "wf_store m \<Longrightarrow> wf_store (del m k)"
begin

lemma look_put_other: "k' \<noteq> k \<Longrightarrow> look (put m k v) k' = look m k'"
  by (simp add: look_put)

lemma put_twice: "look (put (put m k v) k w) = look (put m k w)"
  by (simp add: look_put)

lemma del_put: "look m k = None \<Longrightarrow> look (del (put m k v) k) = look m"
  by (auto simp: look_put look_del fun_eq_iff)

lemma del_absent: "look m k = None \<Longrightarrow> look (del m k) = look m"
  by (auto simp: look_del fun_eq_iff)

lemma look_puts:
  "look (foldl (\<lambda>m (k, v). put m k v) m kvs) = look m ++ map_of (rev kvs)"
proof (induction kvs arbitrary: m)
  case Nil
  then show ?case by simp
next
  case (Cons kv kvs)
  then show ?case
    by (cases kv) (simp add: look_put map_add_def fun_eq_iff split: option.splits)
qed

end

interpretation pydict: keyed_store map_of dict_set dict_pop dict_ok
  by unfold_locales simp_all

section \<open>Steps that keep an invariant\<close>

text \<open>
  A component driven by a sequence of calls. \<open>stays\<close> is what every call keeps; then every
  run of calls keeps it, whatever their order.
\<close>

locale step_system =
  fixes step :: "'s \<Rightarrow> 'e \<Rightarrow> 's"
    and stays :: "'s \<Rightarrow> bool"
  assumes step_stays: "stays s \<Longrightarrow> stays (step s e)"
begin

lemma run_stays: "stays s \<Longrightarrow> stays (foldl step s es)"
  by (induction es arbitrary: s) (simp_all add: step_stays)

lemma run_prefix_stays: "stays s \<Longrightarrow> stays (foldl step s (take n es))"
  by (rule run_stays)

end

section \<open>Codecs read off a byte stream\<close>

text \<open>
  A codec whose encodings delimit themselves: decoding a stream that starts with the
  encoding of an acceptable message returns that message and the rest of the stream.
\<close>

primrec decode_many :: "('b list \<Rightarrow> 'e + 'm \<times> 'b list) \<Rightarrow> nat \<Rightarrow> 'b list \<Rightarrow> 'e + 'm list \<times> 'b list"
where
  "decode_many dec 0 bs = Inr ([], bs)"
| "decode_many dec (Suc n) bs =
     res_bind (dec bs) (\<lambda>(m, rest).
       res_bind (decode_many dec n rest) (\<lambda>(ms, rest'). Inr (m # ms, rest')))"

locale stream_codec =
  fixes enc :: "'m \<Rightarrow> 'b list"
    and dec :: "'b list \<Rightarrow> 'e + 'm \<times> 'b list"
    and good :: "'m \<Rightarrow> bool"
  assumes dec_enc: "good m \<Longrightarrow> dec (enc m @ rest) = Inr (m, rest)"
begin

lemma decode_concat:
  "\<forall>m \<in> set ms. good m \<Longrightarrow>
     decode_many dec (length ms) (concat (map enc ms) @ rest) = Inr (ms, rest)"
  by (induction ms) (simp_all add: dec_enc)

lemma enc_prefix_free:
  assumes "good m" and "good m'" and "enc m @ rest = enc m' @ rest'"
  shows "m = m' \<and> rest = rest'"
proof -
  have "(Inr (m, rest) :: 'e + 'm \<times> 'b list) = dec (enc m @ rest)"
    using assms(1) by (simp add: dec_enc)
  also have "\<dots> = dec (enc m' @ rest')"
    using assms(3) by simp
  also have "\<dots> = Inr (m', rest')"
    using assms(2) by (simp add: dec_enc)
  finally show ?thesis by simp
qed

lemma enc_inj: "good m \<Longrightarrow> good m' \<Longrightarrow> enc m = enc m' \<Longrightarrow> m = m'"
  using enc_prefix_free [of m m' "[]" "[]"] by simp

lemma concat_enc_inj:
  assumes "\<forall>m \<in> set ms. good m" and "\<forall>m \<in> set ns. good m" and "length ms = length ns"
    and "concat (map enc ms) @ r = concat (map enc ns) @ r'"
  shows "ms = ns \<and> r = r'"
proof -
  have "(Inr (ms, r) :: 'e + 'm list \<times> 'b list)
          = decode_many dec (length ns) (concat (map enc ns) @ r')"
    using decode_concat [OF assms(1), of r] assms(3,4) by simp
  also have "\<dots> = Inr (ns, r')"
    using assms(2) by (rule decode_concat)
  finally show ?thesis by simp
qed

end

end
