(* ===== verification/Utf8.thy ===== *)
theory Utf8
  imports Prelude
begin

text \<open>
  UTF-8 as Python's \<^verbatim>\<open>str.encode\<close> and \<^verbatim>\<open>bytes.decode\<close> do it: strict encoding refuses
  surrogates, \<^verbatim>\<open>errors="replace"\<close> writes a question mark for them, and decoding refuses
  overlong forms, surrogates and everything above U+10FFFF. Each character's encoding
  delimits itself, so decoding inverts encoding.
\<close>

section \<open>One character\<close>

definition is_high_surrogate :: "nat \<Rightarrow> bool" where
  "is_high_surrogate c \<longleftrightarrow> 0xD800 \<le> c \<and> c \<le> 0xDBFF"

definition is_low_surrogate :: "nat \<Rightarrow> bool" where
  "is_low_surrogate c \<longleftrightarrow> 0xDC00 \<le> c \<and> c \<le> 0xDFFF"

definition is_surrogate :: "nat \<Rightarrow> bool" where
  "is_surrogate c \<longleftrightarrow> 0xD800 \<le> c \<and> c \<le> 0xDFFF"

definition is_scalar :: "nat \<Rightarrow> bool" where
  "is_scalar c \<longleftrightarrow> c < 0x110000 \<and> \<not> is_surrogate c"

definition utf8_char :: "nat \<Rightarrow> bytes" where
  "utf8_char c =
     (if c < 0x80 then [byte_of c]
      else if c < 0x800 then [byte_of (0xC0 + c div 64), byte_of (0x80 + c mod 64)]
      else if c < 0x10000 then
        [byte_of (0xE0 + c div 4096), byte_of (0x80 + c div 64 mod 64),
         byte_of (0x80 + c mod 64)]
      else
        [byte_of (0xF0 + c div 262144), byte_of (0x80 + c div 4096 mod 64),
         byte_of (0x80 + c div 64 mod 64), byte_of (0x80 + c mod 64)])"

definition is_cont :: "byte \<Rightarrow> bool" where
  "is_cont b \<longleftrightarrow> 0x80 \<le> unat b \<and> unat b < 0xC0"

text \<open>Reads one character; the value is checked to be the shortest form and a scalar.\<close>

fun utf8_take :: "bytes \<Rightarrow> unit + nat \<times> bytes" where
  "utf8_take [] = Inl ()"
| "utf8_take (a # r) =
     (let x = unat a in
      if x < 0x80 then Inr (x, r)
      else if x < 0xC0 then Inl ()
      else if x < 0xE0 then
        (case r of b # r' \<Rightarrow>
           let c = (x - 0xC0) * 64 + (unat b - 0x80) in
           if is_cont b \<and> 0x80 \<le> c then Inr (c, r') else Inl ()
         | _ \<Rightarrow> Inl ())
      else if x < 0xF0 then
        (case r of b # b' # r' \<Rightarrow>
           let c = (x - 0xE0) * 4096 + (unat b - 0x80) * 64 + (unat b' - 0x80) in
           if is_cont b \<and> is_cont b' \<and> 0x800 \<le> c \<and> \<not> is_surrogate c
           then Inr (c, r') else Inl ()
         | _ \<Rightarrow> Inl ())
      else if x < 0xF8 then
        (case r of b # b' # b'' # r' \<Rightarrow>
           let c = (x - 0xF0) * 262144 + (unat b - 0x80) * 4096 + (unat b' - 0x80) * 64
                   + (unat b'' - 0x80) in
           if is_cont b \<and> is_cont b' \<and> is_cont b'' \<and> 0x10000 \<le> c \<and> c < 0x110000
           then Inr (c, r') else Inl ()
         | _ \<Rightarrow> Inl ())
      else Inl ())"

lemma utf8_take_char:
  assumes "is_scalar c"
  shows "utf8_take (utf8_char c @ rest) = Inr (c, rest)"
proof -
  have lt: "c < 0x110000" and ns: "\<not> is_surrogate c"
    using assms by (simp_all add: is_scalar_def)
  consider "c < 0x80" | "0x80 \<le> c" "c < 0x800" | "0x800 \<le> c" "c < 0x10000" | "0x10000 \<le> c"
    by linarith
  then show ?thesis
  proof cases
    case 1
    then show ?thesis by (simp add: utf8_char_def )
  next
    case 2
    define q m where "q = c div 64" and "m = c mod 64"
    then have enc: "utf8_char c = [byte_of (0xC0 + q), byte_of (0x80 + m)]"
      using 2 by (simp add: utf8_char_def)
    have "q < 32" "m < 64" "q * 64 + m = c"
      using 2 unfolding q_def m_def by (linarith, simp, simp)
    then show ?thesis
      using 2(1) unfolding enc by (simp add: is_cont_def Let_def)
  next
    case 3
    define d m0 m1 q where defs: "d = c div 64" "m0 = c mod 64" "m1 = d mod 64" "q = d div 64"
    have q: "c div 4096 = q"
      using div_mult2_eq [of c 64 64] by (simp add: defs)
    have enc: "utf8_char c = [byte_of (0xE0 + q), byte_of (0x80 + m1), byte_of (0x80 + m0)]"
      using 3 by (simp add: utf8_char_def q) (simp add: defs)
    have b: "m0 < 64" "m1 < 64" "q < 16"
      using 3 by (simp_all add: defs flip: q [unfolded defs])
    have "d * 64 + m0 = c" "q * 64 + m1 = d"
      by (simp_all add: defs)
    then have c: "q * 4096 + m1 * 64 + m0 = c"
      by simp
    from 3 b c ns show ?thesis
      unfolding enc by (simp add: is_cont_def Let_def)
  next
    case 4
    define d m0 m1 e m2 q where defs: "d = c div 64" "m0 = c mod 64" "m1 = d mod 64"
      "e = d div 64" "m2 = e mod 64" "q = e div 64"
    have e: "c div 4096 = e" and q: "c div 262144 = q"
      using div_mult2_eq [of c 64 64] div_mult2_eq [of c 4096 64] by (simp_all add: defs)
    have enc: "utf8_char c = [byte_of (0xF0 + q), byte_of (0x80 + m2), byte_of (0x80 + m1),
        byte_of (0x80 + m0)]"
      using 4 by (simp add: utf8_char_def q e) (simp add: defs)
    have b: "m0 < 64" "m1 < 64" "m2 < 64" "q < 8"
      using lt by (simp_all add: defs flip: q [unfolded defs])
    have "d * 64 + m0 = c" "e * 64 + m1 = d" "q * 64 + m2 = e"
      by (simp_all add: defs)
    then have c: "q * 262144 + m2 * 4096 + m1 * 64 + m0 = c"
      by simp
    from 4 lt b c show ?thesis
      unfolding enc by (simp add: is_cont_def Let_def)
  qed
qed

interpretation utf8: stream_codec utf8_char utf8_take is_scalar
  by unfold_locales (rule utf8_take_char)

lemma utf8_take_shorter: "utf8_take bs = Inr (c, r) \<Longrightarrow> length r < length bs"
  by (cases bs) (auto simp: Let_def split: if_splits list.splits)

section \<open>Strings\<close>

text \<open>Strict encoding (\<open>None\<close> is \<^verbatim>\<open>UnicodeEncodeError\<close>) and encoding with replacement.\<close>

definition utf8_encode :: "pystr \<Rightarrow> bytes option" where
  "utf8_encode s =
     (if list_all is_scalar s then Some (concat (map utf8_char s)) else None)"

definition utf8_encode_replace :: "pystr \<Rightarrow> bytes" where
  "utf8_encode_replace s =
     concat (map (\<lambda>c. if is_surrogate c then [0x3F] else utf8_char c) s)"

text \<open>Strict decoding; \<open>None\<close> is \<^verbatim>\<open>UnicodeDecodeError\<close>.\<close>

function utf8_decode :: "bytes \<Rightarrow> pystr option" where
  "utf8_decode bs =
     (if bs = [] then Some []
      else case utf8_take bs of
        Inl _ \<Rightarrow> None
      | Inr (c, r) \<Rightarrow> map_option ((#) c) (utf8_decode r))"
  by pat_completeness auto
termination
  by (relation "measure length") (auto dest: utf8_take_shorter)

declare utf8_decode.simps [simp del]

lemma utf8_decode_Nil [simp]: "utf8_decode [] = Some []"
  by (simp add: utf8_decode.simps)

lemma utf8_char_nonempty [simp]: "utf8_char c \<noteq> []"
  by (simp add: utf8_char_def)

lemma utf8_decode_chars:
  "list_all is_scalar s \<Longrightarrow> utf8_decode (concat (map utf8_char s)) = Some s"
proof (induction s)
  case Nil
  then show ?case by simp
next
  case (Cons c s)
  then show ?case
    by (subst utf8_decode.simps) (simp add: utf8.dec_enc)
qed

lemma utf8_decode_encode: "utf8_encode s = Some bs \<Longrightarrow> utf8_decode bs = Some s"
  by (auto simp: utf8_encode_def utf8_decode_chars split: if_splits)

lemma utf8_encode_inj: "utf8_encode s = Some bs \<Longrightarrow> utf8_encode t = Some bs \<Longrightarrow> s = t"
  by (metis utf8_decode_encode option.inject)

text \<open>ASCII text: one byte per character, and encoding never fails.\<close>

definition is_ascii :: "nat \<Rightarrow> bool" where
  "is_ascii c \<longleftrightarrow> c < 0x80"

definition ascii_bytes :: "pystr \<Rightarrow> bytes" where
  "ascii_bytes s = map byte_of s"

lemma is_ascii_scalar: "is_ascii c \<Longrightarrow> is_scalar c"
  by (simp add: is_ascii_def is_scalar_def is_surrogate_def)

lemma utf8_encode_ascii: "list_all is_ascii s \<Longrightarrow> utf8_encode s = Some (ascii_bytes s)"
  by (induction s)
    (auto simp: utf8_encode_def ascii_bytes_def utf8_char_def is_ascii_def is_scalar_def
      is_surrogate_def split: if_splits)

lemma length_utf8_char_le: "length (utf8_char c) \<le> 4"
  by (simp add: utf8_char_def)

lemma length_utf8_encode_replace_le: "length (utf8_encode_replace s) \<le> 4 * length s"
proof (induction s)
  case Nil
  then show ?case by (simp add: utf8_encode_replace_def)
next
  case (Cons c s)
  then show ?case
    using length_utf8_char_le [of c] by (simp add: utf8_encode_replace_def)
qed

lemma length_le_utf8_encode_replace: "length s \<le> length (utf8_encode_replace s)"
proof (induction s)
  case Nil
  then show ?case by (simp add: utf8_encode_replace_def)
next
  case (Cons c s)
  have "1 \<le> length (if is_surrogate c then [0x3F] else utf8_char c)"
    using utf8_char_nonempty [of c] by (simp add: Suc_le_eq del: utf8_char_nonempty)
  with Cons show ?case
    by (simp add: utf8_encode_replace_def)
qed

lemma utf8_encode_replace_scalar:
  "list_all is_scalar s \<Longrightarrow> utf8_encode s = Some (utf8_encode_replace s)"
proof -
  assume a: "list_all is_scalar s"
  then have eq: "map (\<lambda>c. if is_surrogate c then [0x3F] else utf8_char c) s = map utf8_char s"
    by (auto simp: list_all_iff is_scalar_def)
  from a show ?thesis
    unfolding utf8_encode_def utf8_encode_replace_def eq by simp
qed

end
