(* ===== verification/Json.thy ===== *)
theory Json
  imports Utf8
begin

text \<open>
  The part of Python's \<^verbatim>\<open>json\<close> module the program uses: \<^verbatim>\<open>json.dumps\<close> with ASCII escapes and
  given separators, and \<^verbatim>\<open>json.loads\<close> as CPython's scanner parses (strict strings, joined
  surrogate pairs, the last of duplicate keys wins, \<^verbatim>\<open>NaN\<close> and \<^verbatim>\<open>Infinity\<close> accepted). A
  floating-point number is kept as its literal: no code of the program computes with one it
  received. The recursion limit and the digit limit of the interpreter are not modelled.
\<close>

section \<open>Values\<close>

datatype json =
    JNull
  | JBool bool
  | JInt int
  | JFloat pystr
  | JStr pystr
  | JList "json list"
  | JObj "(pystr \<times> json) list"

section \<open>Writing\<close>

definition hex_digit :: "nat \<Rightarrow> nat" where
  "hex_digit d = (if d < 10 then 48 + d else 87 + d)"

definition u_escape :: "nat \<Rightarrow> pystr" where
  "u_escape c =
     [92, 117, hex_digit (c div 4096), hex_digit (c div 256 mod 16),
      hex_digit (c div 16 mod 16), hex_digit (c mod 16)]"

definition esc_char :: "nat \<Rightarrow> pystr" where
  "esc_char c =
     (if c = 34 then [92, 34]
      else if c = 92 then [92, 92]
      else if c = 10 then [92, 110]
      else if c = 13 then [92, 114]
      else if c = 9 then [92, 116]
      else if c = 8 then [92, 98]
      else if c = 12 then [92, 102]
      else if 32 \<le> c \<and> c \<le> 126 then [c]
      else if c < 0x10000 then u_escape c
      else u_escape (0xD800 + (c - 0x10000) div 1024) @ u_escape (0xDC00 + (c - 0x10000) mod 1024))"

definition dump_str :: "pystr \<Rightarrow> pystr" where
  "dump_str s = [34] @ concat (map esc_char s) @ [34]"

fun dec_nat :: "nat \<Rightarrow> pystr" where
  "dec_nat n = (if n < 10 then [48 + n] else dec_nat (n div 10) @ [48 + n mod 10])"

declare dec_nat.simps [simp del]

definition dec_int :: "int \<Rightarrow> pystr" where
  "dec_int i = (if i < 0 then [45] @ dec_nat (nat (- i)) else dec_nat (nat i))"

text \<open>
  \<open>dump sep colon\<close> is \<^verbatim>\<open>json.dumps(v, separators=(sep, colon))\<close>; the arguments of the plain
  call are a comma and a colon, each with a space.
\<close>

fun join_with :: "pystr \<Rightarrow> pystr list \<Rightarrow> pystr" where
  "join_with sep [] = []"
| "join_with sep [x] = x"
| "join_with sep (x # y # xs) = x @ sep @ join_with sep (y # xs)"

fun dump :: "pystr \<Rightarrow> pystr \<Rightarrow> json \<Rightarrow> pystr"
  and dump_elems :: "pystr \<Rightarrow> pystr \<Rightarrow> json list \<Rightarrow> pystr list"
  and dump_members :: "pystr \<Rightarrow> pystr \<Rightarrow> (pystr \<times> json) list \<Rightarrow> pystr list" where
  "dump sep col JNull = lit ''null''"
| "dump sep col (JBool b) = (if b then lit ''true'' else lit ''false'')"
| "dump sep col (JInt i) = dec_int i"
| "dump sep col (JFloat l) = l"
| "dump sep col (JStr s) = dump_str s"
| "dump sep col (JList vs) = [91] @ join_with sep (dump_elems sep col vs) @ [93]"
| "dump sep col (JObj kvs) = [123] @ join_with sep (dump_members sep col kvs) @ [125]"
| "dump_elems sep col [] = []"
| "dump_elems sep col (v # vs) = dump sep col v # dump_elems sep col vs"
| "dump_members sep col [] = []"
| "dump_members sep col ((k, v) # kvs) =
     (dump_str k @ col @ dump sep col v) # dump_members sep col kvs"

definition json_dumps :: "json \<Rightarrow> pystr" where
  "json_dumps v = dump (lit '', '') (lit '': '') v"

section \<open>Reading\<close>

definition unhex :: "nat \<Rightarrow> nat option" where
  "unhex c =
     (if 48 \<le> c \<and> c \<le> 57 then Some (c - 48)
      else if 97 \<le> c \<and> c \<le> 102 then Some (c - 87)
      else if 65 \<le> c \<and> c \<le> 70 then Some (c - 55)
      else None)"

definition unhex4 :: "nat \<Rightarrow> nat \<Rightarrow> nat \<Rightarrow> nat \<Rightarrow> nat option" where
  "unhex4 a b c d =
     (case (unhex a, unhex b, unhex c, unhex d) of
        (Some p, Some q, Some r, Some s) \<Rightarrow> Some (p * 4096 + q * 256 + r * 16 + s)
      | _ \<Rightarrow> None)"

definition simple_escape :: "nat \<Rightarrow> nat option" where
  "simple_escape e =
     (if e = 34 \<or> e = 92 \<or> e = 47 then Some e
      else if e = 98 then Some 8
      else if e = 102 then Some 12
      else if e = 110 then Some 10
      else if e = 114 then Some 13
      else if e = 116 then Some 9
      else None)"

text \<open>
  The character after \<^verbatim>\<open>\\u\<close> and its four digits: a high surrogate followed by an escaped
  low one is one character.
\<close>

fun join_pair :: "nat \<Rightarrow> pystr \<Rightarrow> nat \<times> pystr" where
  "join_pair hi (b # u # p # q # r # s # rest) =
     (if is_high_surrogate hi \<and> b = 92 \<and> u = 117 then
        (case unhex4 p q r s of
           Some lo \<Rightarrow>
             if is_low_surrogate lo
             then (0x10000 + (hi - 0xD800) * 1024 + (lo - 0xDC00), rest)
             else (hi, b # u # p # q # r # s # rest)
         | None \<Rightarrow> (hi, b # u # p # q # r # s # rest))
      else (hi, b # u # p # q # r # s # rest))"
| "join_pair hi rest = (hi, rest)"

text \<open>One character of a string literal, the closing quote excluded.\<close>

fun scan_char :: "pystr \<Rightarrow> (nat \<times> pystr) option" where
  "scan_char [] = None"
| "scan_char (c # s) =
     (if c = 34 \<or> c < 32 then None
      else if c \<noteq> 92 then Some (c, s)
      else case s of
        [] \<Rightarrow> None
      | e # s' \<Rightarrow>
          (if e = 117 then
             (case s' of
                p # q # r # t # s'' \<Rightarrow>
                  (case unhex4 p q r t of None \<Rightarrow> None | Some u \<Rightarrow> Some (join_pair u s''))
              | _ \<Rightarrow> None)
           else map_option (\<lambda>x. (x, s')) (simple_escape e)))"

lemma join_pair_shorter: "join_pair u s = (c, r) \<Longrightarrow> length r \<le> length s"
  by (induction u s rule: join_pair.induct) (auto split: option.splits if_splits)

lemma scan_char_shorter: "scan_char s = Some (c, r) \<Longrightarrow> length r < length s"
  by (cases s) (auto split: if_splits list.splits option.splits dest!: join_pair_shorter)

function scan_str :: "pystr \<Rightarrow> (pystr \<times> pystr) option" where
  "scan_str s =
     (case s of
        [] \<Rightarrow> None
      | c # s' \<Rightarrow>
          if c = 34 then Some ([], s')
          else case scan_char s of
            None \<Rightarrow> None
          | Some (x, r) \<Rightarrow> map_option (\<lambda>(xs, r'). (x # xs, r')) (scan_str r))"
  by pat_completeness auto
termination
  by (relation "measure length") (auto dest: scan_char_shorter simp del: scan_char.simps)

declare scan_str.simps [simp del]

lemma scan_str_shorter: "scan_str s = Some (x, r) \<Longrightarrow> length r < length s"
proof (induction s arbitrary: x r rule: scan_str.induct)
  case (1 s)
  show ?case
  proof (cases s)
    case Nil
    with "1.prems" show ?thesis by (simp add: scan_str.simps)
  next
    case (Cons c s')
    show ?thesis
    proof (cases "c = 34")
      case True
      with "1.prems" Cons show ?thesis by (simp add: scan_str.simps)
    next
      case False
      with "1.prems" Cons obtain y r' xs where sc: "scan_char s = Some (y, r')"
        and ss: "scan_str r' = Some (xs, r)"
        by (auto simp: scan_str.simps [of "c # s'"] split: option.splits)
      have "length r < length r'"
        by (rule "1.IH" [OF Cons False sc refl ss])
      also have "\<dots> < length s" using sc by (rule scan_char_shorter)
      finally show ?thesis .
    qed
  qed
qed

definition is_digit :: "nat \<Rightarrow> bool" where
  "is_digit c \<longleftrightarrow> 48 \<le> c \<and> c \<le> 57"

definition nat_of_digits :: "pystr \<Rightarrow> nat" where
  "nat_of_digits ds = foldl (\<lambda>a d. a * 10 + (d - 48)) 0 ds"

definition scan_int_part :: "pystr \<Rightarrow> (pystr \<times> pystr) option" where
  "scan_int_part s =
     (case s of
        [] \<Rightarrow> None
      | c # r \<Rightarrow>
          if c = 48 then Some ([48], r)
          else if is_digit c then Some (takeWhile is_digit s, dropWhile is_digit s)
          else None)"

definition scan_frac :: "pystr \<Rightarrow> pystr \<times> pystr" where
  "scan_frac s =
     (case s of
        c # r \<Rightarrow>
          if c = 46 \<and> takeWhile is_digit r \<noteq> []
          then (46 # takeWhile is_digit r, dropWhile is_digit r) else ([], s)
      | [] \<Rightarrow> ([], s))"

definition scan_sign :: "pystr \<Rightarrow> pystr \<times> pystr" where
  "scan_sign s =
     (case s of c # r \<Rightarrow> if c = 43 \<or> c = 45 then ([c], r) else ([], s) | [] \<Rightarrow> ([], s))"

definition scan_exp :: "pystr \<Rightarrow> pystr \<times> pystr" where
  "scan_exp s =
     (case s of
        c # r \<Rightarrow>
          if (c = 101 \<or> c = 69) \<and> takeWhile is_digit (snd (scan_sign r)) \<noteq> []
          then (c # fst (scan_sign r) @ takeWhile is_digit (snd (scan_sign r)),
                dropWhile is_digit (snd (scan_sign r)))
          else ([], s)
      | [] \<Rightarrow> ([], s))"

definition scan_number :: "pystr \<Rightarrow> (json \<times> pystr) option" where
  "scan_number s =
     (let neg = (case s of c # _ \<Rightarrow> c = 45 | [] \<Rightarrow> False);
          s0 = (if neg then tl s else s) in
      case scan_int_part s0 of
        None \<Rightarrow> None
      | Some (ds, s1) \<Rightarrow>
          (let (fr, s2) = scan_frac s1; (ex, s3) = scan_exp s2 in
           if fr = [] \<and> ex = [] then
             Some (JInt (if neg then - int (nat_of_digits ds) else int (nat_of_digits ds)), s3)
           else Some (JFloat ((if neg then [45] else []) @ ds @ fr @ ex), s3)))"

definition is_ws :: "nat \<Rightarrow> bool" where
  "is_ws c \<longleftrightarrow> c = 32 \<or> c = 9 \<or> c = 10 \<or> c = 13"

abbreviation skip_ws :: "pystr \<Rightarrow> pystr" where
  "skip_ws s \<equiv> dropWhile is_ws s"

text \<open>A word the scanner matches, \<^verbatim>\<open>null\<close> for one; the rest of the input after it.\<close>

definition match_word :: "pystr \<Rightarrow> pystr \<Rightarrow> pystr option" where
  "match_word w s = (if take (length w) s = w then Some (drop (length w) s) else None)"

definition scan_const :: "pystr \<Rightarrow> (json \<times> pystr) option" where
  "scan_const s =
     (case match_word (lit ''null'') s of Some r \<Rightarrow> Some (JNull, r) | None \<Rightarrow>
      (case match_word (lit ''true'') s of Some r \<Rightarrow> Some (JBool True, r) | None \<Rightarrow>
      (case match_word (lit ''false'') s of Some r \<Rightarrow> Some (JBool False, r) | None \<Rightarrow>
      (case match_word (lit ''NaN'') s of Some r \<Rightarrow> Some (JFloat (lit ''NaN''), r) | None \<Rightarrow>
      (case match_word (lit ''Infinity'') s of Some r \<Rightarrow> Some (JFloat (lit ''Infinity''), r) | None \<Rightarrow>
      (case match_word (lit ''-Infinity'') s of Some r \<Rightarrow> Some (JFloat (lit ''-Infinity''), r) | None \<Rightarrow>
       None))))))"

definition dict_of :: "('k \<times> 'v) list \<Rightarrow> ('k, 'v) dict" where
  "dict_of kvs = foldl (\<lambda>d (k, v). dict_set d k v) [] kvs"

text \<open>
  The recursive-descent scanner. The fuel bounds the depth of calls; \<open>json_loads\<close> gives
  enough of it for any input (\<open>parse_fuel_enough\<close> below).
\<close>

fun parse_value :: "nat \<Rightarrow> pystr \<Rightarrow> (json \<times> pystr) option"
  and parse_elems :: "nat \<Rightarrow> pystr \<Rightarrow> (json list \<times> pystr) option"
  and parse_members :: "nat \<Rightarrow> pystr \<Rightarrow> ((pystr \<times> json) list \<times> pystr) option" where
  "parse_value 0 s = None"
| "parse_value (Suc n) s =
     (case s of
        [] \<Rightarrow> None
      | c # r \<Rightarrow>
          if c = 34 then map_option (\<lambda>(x, r'). (JStr x, r')) (scan_str r)
          else if c = 91 then
            (let r' = skip_ws r in
             if r' \<noteq> [] \<and> hd r' = 93 then Some (JList [], tl r')
             else map_option (\<lambda>(vs, r''). (JList vs, r'')) (parse_elems n r'))
          else if c = 123 then
            (let r' = skip_ws r in
             if r' \<noteq> [] \<and> hd r' = 125 then Some (JObj [], tl r')
             else map_option (\<lambda>(kvs, r''). (JObj (dict_of kvs), r'')) (parse_members n r'))
          else case scan_const s of
            Some x \<Rightarrow> Some x
          | None \<Rightarrow> scan_number s)"
| "parse_elems 0 s = None"
| "parse_elems (Suc n) s =
     (case parse_value n s of
        None \<Rightarrow> None
      | Some (v, r) \<Rightarrow>
          (case skip_ws r of
             [] \<Rightarrow> None
           | c # r' \<Rightarrow>
               if c = 93 then Some ([v], r')
               else if c = 44 then
                 map_option (\<lambda>(vs, r''). (v # vs, r'')) (parse_elems n (skip_ws r'))
               else None))"
| "parse_members 0 s = None"
| "parse_members (Suc n) s =
     (case s of
        [] \<Rightarrow> None
      | q # s' \<Rightarrow>
          if q \<noteq> 34 then None
          else case scan_str s' of
            None \<Rightarrow> None
          | Some (k, r) \<Rightarrow>
              (case skip_ws r of
                 [] \<Rightarrow> None
               | c # r1 \<Rightarrow>
                   if c \<noteq> 58 then None
                   else case parse_value n (skip_ws r1) of
                     None \<Rightarrow> None
                   | Some (v, r2) \<Rightarrow>
                       (case skip_ws r2 of
                          [] \<Rightarrow> None
                        | d # r3 \<Rightarrow>
                            if d = 125 then Some ([(k, v)], r3)
                            else if d = 44 then
                              map_option (\<lambda>(kvs, r''). ((k, v) # kvs, r''))
                                (parse_members n (skip_ws r3))
                            else None)))"

definition json_loads :: "pystr \<Rightarrow> json option" where
  "json_loads s =
     (if s \<noteq> [] \<and> hd s = 0xFEFF then None
      else case parse_value (2 * length s + 1) (skip_ws s) of
        Some (v, r) \<Rightarrow> if skip_ws r = [] then Some v else None
      | None \<Rightarrow> None)"

section \<open>The fuel is enough\<close>

lemmas parse_unfold = parse_value.simps(2) parse_elems.simps(2) parse_members.simps(2)

declare parse_unfold [simp del]

lemma parse_Suc:
  "(\<forall>s x. parse_value n s = Some x \<longrightarrow> parse_value (Suc n) s = Some x) \<and>
   (\<forall>s x. parse_elems n s = Some x \<longrightarrow> parse_elems (Suc n) s = Some x) \<and>
   (\<forall>s x. parse_members n s = Some x \<longrightarrow> parse_members (Suc n) s = Some x)"
proof (induction n)
  case 0
  then show ?case by simp
next
  case (Suc n)
  then have V: "\<And>s x. parse_value n s = Some x \<Longrightarrow> parse_value (Suc n) s = Some x"
    and E: "\<And>s x. parse_elems n s = Some x \<Longrightarrow> parse_elems (Suc n) s = Some x"
    and M: "\<And>s x. parse_members n s = Some x \<Longrightarrow> parse_members (Suc n) s = Some x"
    by blast+
  have "parse_value (Suc (Suc n)) s = Some x" if "parse_value (Suc n) s = Some x" for s x
    using that
    by (auto simp: parse_value.simps(2) [of "Suc n" s] parse_value.simps(2) [of n s] Let_def
      simp del: dropWhile_eq_Nil_conv
      split: option.splits list.splits if_splits dest!: E M)
  moreover have "parse_elems (Suc (Suc n)) s = Some x" if "parse_elems (Suc n) s = Some x" for s x
    using that
    by (auto simp: parse_elems.simps(2) [of "Suc n" s] parse_elems.simps(2) [of n s] Let_def
      simp del: dropWhile_eq_Nil_conv
      split: option.splits list.splits if_splits dest!: V E)
  moreover have "parse_members (Suc (Suc n)) s = Some x" if "parse_members (Suc n) s = Some x" for s x
    using that
    by (auto simp: parse_members.simps(2) [of "Suc n" s] parse_members.simps(2) [of n s] Let_def
      simp del: dropWhile_eq_Nil_conv
      split: option.splits list.splits if_splits dest!: V M)
  ultimately show ?case by blast
qed

lemma parse_value_mono: "parse_value n s = Some x \<Longrightarrow> n \<le> m \<Longrightarrow> parse_value m s = Some x"
  by (induction m) (auto simp: le_Suc_eq intro: parse_Suc [THEN conjunct1, rule_format])

lemma parse_elems_mono: "parse_elems n s = Some x \<Longrightarrow> n \<le> m \<Longrightarrow> parse_elems m s = Some x"
  by (induction m)
    (auto simp: le_Suc_eq intro: parse_Suc [THEN conjunct2, THEN conjunct1, rule_format])

lemma parse_members_mono:
  "parse_members n s = Some x \<Longrightarrow> n \<le> m \<Longrightarrow> parse_members m s = Some x"
  by (induction m)
    (auto simp: le_Suc_eq intro: parse_Suc [THEN conjunct2, THEN conjunct2, rule_format])

lemma match_word_shorter: "match_word w s = Some r \<Longrightarrow> w \<noteq> [] \<Longrightarrow> length r < length s"
proof -
  assume "match_word w s = Some r" "w \<noteq> []"
  then have t: "take (length w) s = w" and r: "r = drop (length w) s"
    by (auto simp: match_word_def split: if_splits)
  have "length w \<le> length s"
    using arg_cong [OF t, of length] by simp
  moreover have "0 < length w"
    using \<open>w \<noteq> []\<close> by simp
  ultimately show ?thesis
    unfolding r length_drop by linarith
qed

lemma scan_const_shorter: "scan_const s = Some (v, r) \<Longrightarrow> length r < length s"
  by (auto simp: scan_const_def split: option.splits dest!: match_word_shorter)

lemma scan_int_part_shorter: "scan_int_part s = Some (ds, r) \<Longrightarrow> length r < length s"
  by (auto simp: scan_int_part_def le_imp_less_Suc length_dropWhile_le split: list.splits if_splits)

lemma scan_frac_shorter: "scan_frac s = (fr, r) \<Longrightarrow> length r \<le> length s"
  by (auto simp: scan_frac_def le_SucI length_dropWhile_le split: list.splits if_splits)

lemma scan_sign_shorter: "length (snd (scan_sign s)) \<le> length s"
  by (auto simp: scan_sign_def split: list.splits)

lemma scan_exp_shorter: "scan_exp s = (ex, r) \<Longrightarrow> length r \<le> length s"
proof (cases s)
  case (Cons c s')
  assume "scan_exp s = (ex, r)"
  moreover have "length (dropWhile is_digit (snd (scan_sign s'))) \<le> length s'"
    using length_dropWhile_le scan_sign_shorter by (rule order_trans)
  ultimately show ?thesis
    by (auto simp: Cons scan_exp_def split: if_splits)
qed (simp add: scan_exp_def)

lemma scan_number_shorter: "scan_number s = Some (v, r) \<Longrightarrow> length r < length s"
proof -
  assume a: "scan_number s = Some (v, r)"
  define s0 where "s0 = (if (case s of c # _ \<Rightarrow> c = 45 | [] \<Rightarrow> False) then tl s else s)"
  from a obtain ds s1 fr s2 ex where p: "scan_int_part s0 = Some (ds, s1)"
    "scan_frac s1 = (fr, s2)" "scan_exp s2 = (ex, r)"
    by (auto simp: scan_number_def Let_def s0_def [symmetric] split: option.splits prod.splits
        if_splits)
  have "length s0 \<le> length s"
    by (simp add: s0_def)
  with scan_int_part_shorter [OF p(1)] scan_frac_shorter [OF p(2)] scan_exp_shorter [OF p(3)]
  show ?thesis by linarith
qed

text \<open>
  A call that returns consumes at least one character, and twice the length of its input is
  fuel enough for it: giving the scanner more never changes what \<open>json_loads\<close> returns.
\<close>

lemma skip_ws_le: "length (skip_ws s) \<le> length s"
  by (rule length_dropWhile_le)

lemma skip_ws_Cons_shorter: "skip_ws s = c # r \<Longrightarrow> length r < length s"
  using skip_ws_le [of s] by simp

lemma parse_enough:
  "(\<forall>s v r. parse_value n s = Some (v, r) \<longrightarrow>
      length r < length s \<and> parse_value (2 * length s + 1) s = Some (v, r)) \<and>
   (\<forall>s v r. parse_elems n s = Some (v, r) \<longrightarrow>
      length r < length s \<and> parse_elems (2 * length s + 2) s = Some (v, r)) \<and>
   (\<forall>s v r. parse_members n s = Some (v, r) \<longrightarrow>
      length r < length s \<and> parse_members (2 * length s + 2) s = Some (v, r))"
proof (induction n)
  case 0
  then show ?case by simp
next
  case (Suc n)
  have V: "length r < length s \<and> parse_value (2 * length s + 1) s = Some (v, r)"
    if "parse_value n s = Some (v, r)" for s v r
    using that Suc by blast
  have E: "length r < length s \<and> parse_elems (2 * length s + 2) s = Some (v, r)"
    if "parse_elems n s = Some (v, r)" for s v r
    using that Suc by blast
  have M: "length r < length s \<and> parse_members (2 * length s + 2) s = Some (v, r)"
    if "parse_members n s = Some (v, r)" for s v r
    using that Suc by blast
  have "length r < length s \<and> parse_value (2 * length s + 1) s = Some (v, r)"
    if a: "parse_value (Suc n) s = Some (v, r)" for s v r
  proof (cases s)
    case Nil
    with a show ?thesis by (simp add: parse_unfold)
  next
    case (Cons c s')
    have le: "length (skip_ws s') \<le> length s'"
      by (rule skip_ws_le)
    have E': "length r' < length s' \<and> parse_elems (2 * length s) (skip_ws s') = Some (vs, r')"
      if "parse_elems n (skip_ws s') = Some (vs, r')" for vs r'
      using E [OF that] le by (auto simp: Cons elim!: parse_elems_mono)
    have M': "length r' < length s' \<and> parse_members (2 * length s) (skip_ws s') = Some (vs, r')"
      if "parse_members n (skip_ws s') = Some (vs, r')" for vs r'
      using M [OF that] le by (auto simp: Cons elim!: parse_members_mono)
    have tl: "length (tl (skip_ws s')) < Suc (length s')"
      using le by simp
    show ?thesis
      using a tl
      by (auto simp: Cons parse_value.simps(2) [of _ "c # s'"] Let_def
          simp del: dropWhile_eq_Nil_conv
          split: if_splits option.splits dest!: E' M' dest: scan_str_shorter
          scan_const_shorter scan_number_shorter intro: less_SucI)
  qed
  moreover have "length r < length s \<and> parse_elems (2 * length s + 2) s = Some (v, r)"
    if a: "parse_elems (Suc n) s = Some (v, r)" for s v r
  proof -
    from a obtain x r1 c r2 where p: "parse_value n s = Some (x, r1)" "skip_ws r1 = c # r2"
      by (auto simp: parse_unfold simp del: dropWhile_eq_Nil_conv split: option.splits list.splits)
    have V': "length r1 < length s" "parse_value (Suc (2 * length s)) s = Some (x, r1)"
      using V [OF p(1)] by simp_all
    have r2: "length r2 < length r1"
      using p(2) by (rule skip_ws_Cons_shorter)
    have E': "length r' < length r2 \<and> parse_elems (Suc (2 * length s)) (skip_ws r2) = Some (vs, r')"
      if "parse_elems n (skip_ws r2) = Some (vs, r')" for vs r'
      using E [OF that] V'(1) r2 skip_ws_le [of r2] by (auto elim!: parse_elems_mono)
    show ?thesis
      using a V' r2
      by (auto simp: parse_elems.simps(2) [of _ s] p dest!: E' split: if_splits)
  qed
  moreover have "length r < length s \<and> parse_members (2 * length s + 2) s = Some (v, r)"
    if a: "parse_members (Suc n) s = Some (v, r)" for s v r
  proof -
    from a obtain s' k r0 r1 x r2 d r3 where p: "s = 34 # s'" "scan_str s' = Some (k, r0)"
      "skip_ws r0 = 58 # r1" "parse_value n (skip_ws r1) = Some (x, r2)" "skip_ws r2 = d # r3"
      by (auto simp: parse_unfold simp del: dropWhile_eq_Nil_conv
          split: option.splits list.splits if_splits)
    have l: "length r0 < length s'" "length r1 < length r0" "length r3 < length r2"
      using p by (auto dest: scan_str_shorter skip_ws_Cons_shorter)
    have V': "length r2 < length r1" "parse_value (Suc (2 * length s)) (skip_ws r1) = Some (x, r2)"
      using V [OF p(4)] skip_ws_le [of r1] l p(1)
      by (auto elim!: parse_value_mono)
    have M': "length r' < length r3 \<and> parse_members (Suc (2 * length s)) (skip_ws r3) = Some (vs, r')"
      if "parse_members n (skip_ws r3) = Some (vs, r')" for vs r'
      using M [OF that] V'(1) l p(1) skip_ws_le [of r3]
      by (auto elim!: parse_members_mono)
    show ?thesis
      using a V' l
      by (auto simp: parse_members.simps(2) [of _ "34 # s'"] p(2-) p(1) dest!: M' split: if_splits)
  qed
  ultimately show ?case by blast
qed

lemma parse_fuel_enough:
  assumes "parse_value n (skip_ws s) = Some (v, r)"
  shows "parse_value (2 * length s + 1) (skip_ws s) = Some (v, r)"
proof -
  have "parse_value (2 * length (skip_ws s) + 1) (skip_ws s) = Some (v, r)"
    using parse_enough assms by blast
  then show ?thesis
    by (rule parse_value_mono) (simp add: length_dropWhile_le)
qed

end
