(* ===== verification/Json_Roundtrip.thy ===== *)
theory Json_Roundtrip
  imports Json
begin

text \<open>
  Reading back what was written. A string is well formed when it is a sequence of code
  points in which no high surrogate stands before a low one: on those the ASCII escapes of
  \<^verbatim>\<open>json.dumps\<close> delimit and determine the string, and \<^verbatim>\<open>json.loads\<close> never returns another kind.
\<close>

section \<open>Strings\<close>

fun wf_str :: "pystr \<Rightarrow> bool" where
  "wf_str [] \<longleftrightarrow> True"
| "wf_str [c] \<longleftrightarrow> c < 0x110000"
| "wf_str (c # d # s) \<longleftrightarrow>
     c < 0x110000 \<and> \<not> (is_high_surrogate c \<and> is_low_surrogate d) \<and> wf_str (d # s)"

lemma wf_str_tl: "wf_str (c # s) \<Longrightarrow> wf_str s"
  by (cases s) simp_all

lemma wf_str_hd: "wf_str (c # s) \<Longrightarrow> c < 0x110000"
  by (cases s) simp_all

lemma wf_str_ascii: "list_all is_ascii s \<Longrightarrow> wf_str s"
  by (induction s rule: wf_str.induct) (simp_all add: is_ascii_def is_high_surrogate_def)

lemma unhex_hex_digit [simp]: "d < 16 \<Longrightarrow> unhex (hex_digit d) = Some d"
  by (auto simp: unhex_def hex_digit_def)

lemma unhex4_digits:
  assumes "c < 0x10000"
  shows "unhex4 (hex_digit (c div 4096)) (hex_digit (c div 256 mod 16))
           (hex_digit (c div 16 mod 16)) (hex_digit (c mod 16)) = Some c"
proof -
  define d e where defs: "d = c div 16" "e = d div 16"
  have e: "c div 256 = e" and q: "c div 4096 = e div 16"
    using div_mult2_eq [of c 16 16] div_mult2_eq [of c 256 16] by (simp_all add: defs)
  have "e div 16 < 16"
    using assms unfolding q [symmetric] by linarith
  moreover have "d * 16 + c mod 16 = c" "e * 16 + d mod 16 = d" "e div 16 * 16 + e mod 16 = e"
    by (simp_all add: defs)
  then have "e div 16 * 4096 + e mod 16 * 256 + d mod 16 * 16 + c mod 16 = c"
    by linarith
  ultimately show ?thesis
    by (simp add: unhex4_def e q flip: defs(1))
qed

text \<open>The input starts with the escape of a low surrogate.\<close>

fun starts_low :: "pystr \<Rightarrow> bool" where
  "starts_low (b # u # p # q # r # s # rest) \<longleftrightarrow>
     b = 92 \<and> u = 117 \<and> (case unhex4 p q r s of Some lo \<Rightarrow> is_low_surrogate lo | None \<Rightarrow> False)"
| "starts_low _ \<longleftrightarrow> False"

lemma join_pair_not_low:
  "\<not> (is_high_surrogate u \<and> starts_low s) \<Longrightarrow> join_pair u s = (u, s)"
  by (induction u s rule: join_pair.induct) (auto split: option.splits)

lemma scan_char_u_escape:
  "c < 0x10000 \<Longrightarrow> scan_char (u_escape c @ rest) = Some (join_pair c rest)"
  by (simp add: u_escape_def unhex4_digits)

lemma join_pair_low:
  assumes "is_high_surrogate hi" and "is_low_surrogate lo"
  shows "join_pair hi (u_escape lo @ rest) = (0x10000 + (hi - 0xD800) * 1024 + (lo - 0xDC00), rest)"
proof -
  have "lo < 0x10000"
    using assms(2) by (simp add: is_low_surrogate_def)
  with assms show ?thesis
    by (simp add: u_escape_def unhex4_digits)
qed

lemma scan_char_esc_char:
  assumes "c < 0x110000" and "\<not> (is_high_surrogate c \<and> starts_low rest)"
  shows "scan_char (esc_char c @ rest) = Some (c, rest)"
proof (cases "c < 0x10000")
  case True
  then show ?thesis
    using assms(2)
    by (auto simp: esc_char_def simple_escape_def scan_char_u_escape join_pair_not_low
        simp del: scan_char.simps(2))
      (simp_all add: simple_escape_def)
next
  case False
  define n where "n = c - 0x10000"
  have "n < 0x100000"
    using assms(1) False by (simp add: n_def)
  then have d: "n div 1024 < 1024"
    by linarith
  have hi: "is_high_surrogate (0xD800 + n div 1024)" and lo: "is_low_surrogate (0xDC00 + n mod 1024)"
    using d by (simp_all add: is_high_surrogate_def is_low_surrogate_def)
  have "0x10000 + n div 1024 * 1024 + n mod 1024 = c"
    using False by (simp add: n_def)
  then show ?thesis
    using False d hi lo
    by (simp add: esc_char_def scan_char_u_escape join_pair_low n_def [symmetric])
qed

lemma starts_low_u_escape:
  "c < 0x10000 \<Longrightarrow> starts_low (u_escape c @ rest) \<longleftrightarrow> is_low_surrogate c"
  by (simp add: u_escape_def unhex4_digits)

lemma starts_low_prefix: "starts_low s \<Longrightarrow> \<exists>t. s = 92 # 117 # t"
  by (cases s rule: starts_low.cases) auto

lemma esc_char_starts_low:
  assumes "starts_low (esc_char c @ rest)" and "c < 0x110000"
  shows "is_low_surrogate c"
proof (cases "0x10000 \<le> c")
  case True
  then have "(c - 0x10000) div 1024 < 1024"
    using assms(2) by linarith
  with True assms(1) show ?thesis
    by (simp add: esc_char_def starts_low_u_escape is_low_surrogate_def)
next
  case False
  then have "esc_char c = u_escape c \<or> (\<forall>t. esc_char c @ rest \<noteq> 92 # 117 # t)"
    by (auto simp: esc_char_def)
  with False assms(1) starts_low_prefix [OF assms(1)] show ?thesis
    using starts_low_u_escape [of c rest] by auto
qed

lemma esc_char_hd: "\<exists>x xs. esc_char c = x # xs \<and> x \<noteq> 34"
  by (auto simp: esc_char_def u_escape_def)

lemma scan_str_esc_char:
  assumes "scan_char (esc_char c @ s) = Some (c, s)"
  shows "scan_str (esc_char c @ s) = map_option (\<lambda>(xs, r). (c # xs, r)) (scan_str s)"
proof -
  obtain x xs where "esc_char c = x # xs" "x \<noteq> 34"
    using esc_char_hd by blast
  with assms show ?thesis
    by (subst scan_str.simps) (simp del: scan_char.simps)
qed

lemma scan_str_dump:
  "wf_str s \<Longrightarrow> scan_str (concat (map esc_char s) @ 34 # rest) = Some (s, rest)"
proof (induction s)
  case Nil
  then show ?case by (simp add: scan_str.simps)
next
  case (Cons c s)
  let ?r = "concat (map esc_char s) @ 34 # rest"
  have "\<not> (is_high_surrogate c \<and> starts_low ?r)"
  proof (cases s)
    case Nil
    then show ?thesis using starts_low_prefix by fastforce
  next
    case (Cons d s')
    with \<open>wf_str (c # s)\<close> have "d < 0x110000" "\<not> (is_high_surrogate c \<and> is_low_surrogate d)"
      by (auto dest: wf_str_hd)
    with Cons show ?thesis
      using esc_char_starts_low [of d] by auto
  qed
  then have "scan_char (esc_char c @ ?r) = Some (c, ?r)"
    using wf_str_hd [OF Cons.prems] by (intro scan_char_esc_char)
  then show ?case
    using Cons.IH wf_str_tl [OF Cons.prems] by (simp add: scan_str_esc_char)
qed

lemma dump_str_prefix_free:
  assumes "wf_str s" and "wf_str t" and "dump_str s @ r = dump_str t @ r'"
  shows "s = t \<and> r = r'"
proof -
  have "Some (s, r) = scan_str (concat (map esc_char s) @ 34 # r)"
    using assms(1) by (simp add: scan_str_dump)
  also have "\<dots> = scan_str (concat (map esc_char t) @ 34 # r')"
    using assms(3) by (simp add: dump_str_def)
  also have "\<dots> = Some (t, r')"
    using assms(2) by (rule scan_str_dump)
  finally show ?thesis by simp
qed

lemma hex_digit_ascii: "d < 16 \<Longrightarrow> is_ascii (hex_digit d)"
  by (simp add: hex_digit_def is_ascii_def)

lemma u_escape_ascii: "c < 0x10000 \<Longrightarrow> list_all is_ascii (u_escape c)"
  by (simp add: u_escape_def hex_digit_ascii less_mult_imp_div_less) (simp add: is_ascii_def)

lemma esc_char_ascii: "c < 0x110000 \<Longrightarrow> list_all is_ascii (esc_char c)"
proof (cases "0x10000 \<le> c")
  case True
  assume "c < 0x110000"
  with True have "(c - 0x10000) div 1024 < 1024"
    by linarith
  with True show ?thesis
    by (simp add: esc_char_def u_escape_ascii)
next
  case False
  then show ?thesis
    by (auto simp: esc_char_def u_escape_ascii) (simp_all add: is_ascii_def)
qed

lemma dump_str_ascii: "wf_str s \<Longrightarrow> list_all is_ascii (dump_str s)"
proof -
  assume "wf_str s"
  then have "list_all is_ascii (concat (map esc_char s))"
    by (induction s) (auto simp: esc_char_ascii dest: wf_str_hd wf_str_tl)
  then show ?thesis
    by (simp add: dump_str_def is_ascii_def)
qed

section \<open>Numbers\<close>

lemma dec_nat_nonempty [simp]: "dec_nat n \<noteq> []"
  by (subst dec_nat.simps) simp

lemma dec_nat_digits: "\<forall>c \<in> set (dec_nat n). is_digit c"
proof (induction n rule: dec_nat.induct)
  case (1 n)
  show ?case
  proof (cases "n < 10")
    case True
    then show ?thesis by (subst dec_nat.simps) (simp add: is_digit_def)
  next
    case False
    with 1 show ?thesis by (subst dec_nat.simps) (auto simp: is_digit_def)
  qed
qed

lemma nat_of_digits_snoc: "nat_of_digits (ds @ [d]) = nat_of_digits ds * 10 + (d - 48)"
  by (simp add: nat_of_digits_def)

lemma nat_of_digits_dec_nat [simp]: "nat_of_digits (dec_nat n) = n"
proof (induction n rule: dec_nat.induct)
  case (1 n)
  show ?case
  proof (cases "n < 10")
    case True
    then show ?thesis by (subst dec_nat.simps) (simp add: nat_of_digits_def)
  next
    case False
    with 1 show ?thesis by (subst dec_nat.simps) (simp add: nat_of_digits_snoc)
  qed
qed

lemma dec_nat_hd: "n \<noteq> 0 \<Longrightarrow> hd (dec_nat n) \<noteq> 48"
proof (induction n rule: dec_nat.induct)
  case (1 n)
  show ?case
  proof (cases "n < 10")
    case True
    with 1 show ?thesis by (subst dec_nat.simps) simp
  next
    case False
    then have "n div 10 \<noteq> 0" by simp
    with 1 False show ?thesis by (subst dec_nat.simps) simp
  qed
qed

lemma dec_nat_0: "dec_nat 0 = [48]"
  by (simp add: dec_nat.simps)

text \<open>What may follow a number: anything that does not continue it.\<close>

definition num_stop :: "pystr \<Rightarrow> bool" where
  "num_stop r \<longleftrightarrow> r = [] \<or> \<not> is_digit (hd r) \<and> hd r \<notin> {43, 45, 46, 101, 69}"

lemma num_stop_Nil [simp]: "num_stop []"
  by (simp add: num_stop_def)

lemma takeWhile_stop:
  assumes "\<forall>c \<in> set ds. P c" and "r = [] \<or> \<not> P (hd r)"
  shows "takeWhile P (ds @ r) = ds \<and> dropWhile P (ds @ r) = r"
  using assms by (cases r) (auto simp: takeWhile_append2 dropWhile_append2)

lemma scan_int_part_dec_nat:
  assumes "num_stop r"
  shows "scan_int_part (dec_nat n @ r) = Some (dec_nat n, r)"
proof (cases "n = 0")
  case True
  then show ?thesis by (simp add: dec_nat_0 scan_int_part_def)
next
  case False
  obtain c cs where c: "dec_nat n = c # cs"
    by (cases "dec_nat n") auto
  have "takeWhile is_digit (dec_nat n @ r) = dec_nat n \<and> dropWhile is_digit (dec_nat n @ r) = r"
    using dec_nat_digits assms by (intro takeWhile_stop) (auto simp: num_stop_def)
  with dec_nat_hd [OF False] dec_nat_digits [of n] show ?thesis
    by (auto simp: scan_int_part_def c)
qed

lemma scan_frac_stop: "num_stop r \<Longrightarrow> scan_frac r = ([], r)"
  by (cases r) (auto simp: scan_frac_def num_stop_def)

lemma scan_exp_stop: "num_stop r \<Longrightarrow> scan_exp r = ([], r)"
  by (cases r) (auto simp: scan_exp_def num_stop_def)

lemma scan_number_dec_int:
  assumes "num_stop r"
  shows "scan_number (dec_int i @ r) = Some (JInt i, r)"
proof (cases "i < 0")
  case True
  then show ?thesis
    using assms
    by (simp add: dec_int_def scan_number_def scan_int_part_dec_nat scan_frac_stop scan_exp_stop)
next
  case False
  obtain c cs where c: "dec_nat (nat i) = c # cs"
    by (cases "dec_nat (nat i)") auto
  then have "c \<noteq> 45"
    using dec_nat_digits [of "nat i"] by (auto simp: is_digit_def)
  then have "(case dec_nat (nat i) @ r of [] \<Rightarrow> False | c # _ \<Rightarrow> c = 45) = False"
    by (simp add: c)
  with False show ?thesis
    using assms
    by (simp add: dec_int_def scan_number_def scan_int_part_dec_nat scan_frac_stop scan_exp_stop)
qed

lemma While_append_stop:
  assumes "r = [] \<or> \<not> P (hd r)"
  shows "takeWhile P (s @ r) = takeWhile P s" and "dropWhile P (s @ r) = dropWhile P s @ r"
  using assms by (induction s) (auto split: list.splits, (cases r; auto)+)

lemma scan_int_part_append:
  "scan_int_part s = Some (ds, s1) \<Longrightarrow> num_stop r \<Longrightarrow> scan_int_part (s @ r) = Some (ds, s1 @ r)"
  by (cases s) (auto simp: scan_int_part_def num_stop_def While_append_stop split: if_splits)

lemma scan_frac_append:
  "scan_frac s = (fr, s1) \<Longrightarrow> num_stop r \<Longrightarrow> scan_frac (s @ r) = (fr, s1 @ r)"
proof (cases s)
  case Nil
  assume "scan_frac s = (fr, s1)" "num_stop r"
  with Nil scan_frac_stop show ?thesis by (auto simp: scan_frac_def)
next
  case (Cons c s')
  assume "scan_frac s = (fr, s1)" "num_stop r"
  moreover from \<open>num_stop r\<close> have "r = [] \<or> \<not> is_digit (hd r)" by (auto simp: num_stop_def)
  ultimately show ?thesis
    by (auto simp: Cons scan_frac_def While_append_stop split: if_splits)
qed

lemma scan_sign_append:
  "num_stop r \<Longrightarrow> scan_sign (s @ r) = (fst (scan_sign s), snd (scan_sign s) @ r)"
  by (cases s) (auto simp: scan_sign_def num_stop_def split: list.splits)

lemma scan_exp_append:
  "scan_exp s = (ex, s1) \<Longrightarrow> num_stop r \<Longrightarrow> scan_exp (s @ r) = (ex, s1 @ r)"
proof (cases s)
  case Nil
  assume "scan_exp s = (ex, s1)" "num_stop r"
  with Nil scan_exp_stop show ?thesis by (auto simp: scan_exp_def)
next
  case (Cons c s')
  assume "scan_exp s = (ex, s1)" "num_stop r"
  moreover from \<open>num_stop r\<close> have "r = [] \<or> \<not> is_digit (hd r)" by (auto simp: num_stop_def)
  ultimately show ?thesis
    by (auto simp: Cons scan_exp_def scan_sign_append While_append_stop split: if_splits)
qed

lemma scan_number_append:
  assumes "scan_number s = Some (v, s1)" and "num_stop r"
  shows "scan_number (s @ r) = Some (v, s1 @ r)"
proof -
  have "s \<noteq> []"
    using assms(1) by (auto simp: scan_number_def scan_int_part_def)
  then obtain c s' where s: "s = c # s'"
    by (cases s) auto
  define s0 where "s0 = (if c = 45 then s' else s)"
  from assms(1) obtain ds t1 fr t2 ex where p: "scan_int_part s0 = Some (ds, t1)"
    "scan_frac t1 = (fr, t2)" "scan_exp t2 = (ex, s1)"
    by (auto simp: scan_number_def Let_def s s0_def split: option.splits prod.splits if_splits)
  have a: "(if c = 45 then s' @ r else s @ r) = s0 @ r"
    by (simp add: s0_def)
  have q: "scan_int_part (s0 @ r) = Some (ds, t1 @ r)" "scan_frac (t1 @ r) = (fr, t2 @ r)"
    "scan_exp (t2 @ r) = (ex, s1 @ r)"
    using p assms(2) by (simp_all add: scan_int_part_append scan_frac_append scan_exp_append)
  show ?thesis
    using assms(1) p q by (cases "c = 45") (auto simp: scan_number_def s s0_def Let_def)
qed

section \<open>Words\<close>

lemma match_word_append [simp]: "match_word w (w @ r) = Some r"
  by (simp add: match_word_def)

lemma match_word_hd: "w = x # xs \<Longrightarrow> c \<noteq> x \<Longrightarrow> match_word w (c # s) = None"
  by (simp add: match_word_def)

lemma scan_const_other:
  assumes "c \<notin> {110, 116, 102, 78, 73}" and "c = 45 \<Longrightarrow> s \<noteq> [] \<and> hd s \<noteq> 73"
  shows "scan_const (c # s) = None"
proof -
  have "match_word (lit ''-Infinity'') (c # s) = None"
    using assms(2) by (cases "c = 45"; cases s) (auto simp: match_word_def lit_def)
  with assms(1) show ?thesis
    by (simp add: scan_const_def match_word_def lit_def)
qed

lemma scan_number_start:
  assumes "scan_number (c # s) = Some x"
  shows "c \<notin> {110, 116, 102, 78, 73} \<and> (c = 45 \<longrightarrow> s \<noteq> [] \<and> hd s \<noteq> 73) \<and>
    c \<notin> {34, 91, 123, 93, 125} \<and> \<not> is_ws c"
  using assms
  by (cases s) (auto simp: scan_number_def scan_int_part_def is_digit_def is_ws_def Let_def
      split: if_splits)

definition wf_float :: "pystr \<Rightarrow> bool" where
  "wf_float l \<longleftrightarrow>
     l = lit ''NaN'' \<or> l = lit ''Infinity'' \<or> l = lit ''-Infinity'' \<or>
     scan_number l = Some (JFloat l, [])"

text \<open>The scanner on a value that is neither a string, an array nor an object.\<close>

definition scan_atom :: "pystr \<Rightarrow> (json \<times> pystr) option" where
  "scan_atom s = (case scan_const s of Some x \<Rightarrow> Some x | None \<Rightarrow> scan_number s)"

lemma scan_atom_number: "scan_number s = Some x \<Longrightarrow> scan_atom s = Some x"
  using scan_number_start [of "hd s" "tl s"] scan_const_other [of "hd s" "tl s"]
  by (cases s) (auto simp: scan_atom_def scan_number_def scan_int_part_def)

lemma scan_atom_words:
  "scan_atom (lit ''null'' @ r) = Some (JNull, r)"
  "scan_atom (lit ''true'' @ r) = Some (JBool True, r)"
  "scan_atom (lit ''false'' @ r) = Some (JBool False, r)"
  "scan_atom (lit ''NaN'' @ r) = Some (JFloat (lit ''NaN''), r)"
  "scan_atom (lit ''Infinity'' @ r) = Some (JFloat (lit ''Infinity''), r)"
  "scan_atom (lit ''-Infinity'' @ r) = Some (JFloat (lit ''-Infinity''), r)"
  by (simp_all add: scan_atom_def scan_const_def match_word_def lit_def)

lemma scan_atom_float:
  assumes "wf_float l" and "num_stop r"
  shows "scan_atom (l @ r) = Some (JFloat l, r)"
proof (cases "scan_number l = Some (JFloat l, [])")
  case True
  then have "scan_number (l @ r) = Some (JFloat l, r)"
    using assms(2) by (auto dest: scan_number_append)
  then show ?thesis by (rule scan_atom_number)
next
  case False
  with assms(1) show ?thesis
    by (auto simp: wf_float_def scan_atom_words)
qed

lemma parse_value_atom:
  assumes "scan_atom (c # s) = Some x" and "c \<notin> {34, 91, 123}"
  shows "parse_value (Suc n) (c # s) = Some x"
  using assms by (simp add: parse_unfold scan_atom_def)

section \<open>Values\<close>

text \<open>
  The values Python can hold and write: strings and keys well formed, keys distinct,
  floating-point literals that the number grammar accepts.
\<close>

fun wf_json :: "json \<Rightarrow> bool"
  and wf_elems :: "json list \<Rightarrow> bool"
  and wf_members :: "(pystr \<times> json) list \<Rightarrow> bool" where
  "wf_json JNull \<longleftrightarrow> True"
| "wf_json (JBool b) \<longleftrightarrow> True"
| "wf_json (JInt i) \<longleftrightarrow> True"
| "wf_json (JFloat l) \<longleftrightarrow> wf_float l"
| "wf_json (JStr s) \<longleftrightarrow> wf_str s"
| "wf_json (JList vs) \<longleftrightarrow> wf_elems vs"
| "wf_json (JObj kvs) \<longleftrightarrow> dict_ok kvs \<and> wf_members kvs"
| "wf_elems [] \<longleftrightarrow> True"
| "wf_elems (v # vs) \<longleftrightarrow> wf_json v \<and> wf_elems vs"
| "wf_members [] \<longleftrightarrow> True"
| "wf_members ((k, v) # kvs) \<longleftrightarrow> wf_str k \<and> wf_json v \<and> wf_members kvs"

definition sep_ok :: "nat \<Rightarrow> pystr \<Rightarrow> bool" where
  "sep_ok c s \<longleftrightarrow> (\<exists>w. s = c # w \<and> (\<forall>x \<in> set w. is_ws x))"

lemma sep_ok_plain [simp]: "sep_ok 44 (lit '', '')" "sep_ok 58 (lit '': '')"
  by (simp_all add: sep_ok_def lit_def is_ws_def)

lemma sep_ok_compact [simp]: "sep_ok 44 (lit '','')" "sep_ok 58 (lit '':'')"
  by (simp_all add: sep_ok_def lit_def)

lemma dict_of_dict_ok: "dict_ok kvs \<Longrightarrow> dict_of kvs = kvs"
proof (induction kvs rule: rev_induct)
  case Nil
  then show ?case by (simp add: dict_of_def)
next
  case (snoc kv kvs)
  obtain k v where kv: "kv = (k, v)" by fastforce
  with snoc.prems have ok: "dict_ok kvs" and fresh: "k \<notin> fst ` set kvs"
    by (auto simp: dict_ok_def)
  from fresh snoc.IH [OF ok] show ?case
    by (simp add: kv dict_of_def dict_set_fresh)
qed

lemma skip_ws_non_ws: "\<not> is_ws c \<Longrightarrow> skip_ws (c # s) = c # s"
  by simp

lemma skip_ws_sep: "\<forall>x \<in> set w. is_ws x \<Longrightarrow> \<not> is_ws c \<Longrightarrow> skip_ws (w @ c # s) = c # s"
  by (simp add: dropWhile_append2)

lemma dec_int_hd: "\<exists>c cs. dec_int i = c # cs \<and> (c = 45 \<or> is_digit c)"
proof -
  have "\<exists>d ds. dec_nat n = d # ds \<and> is_digit d" for n
    using dec_nat_digits [of n] dec_nat_nonempty [of n] by (cases "dec_nat n") auto
  from this [of "nat i"] show ?thesis
    by (auto simp: dec_int_def)
qed

lemma wf_float_hd:
  assumes "wf_float l"
  shows "\<exists>c cs. l = c # cs \<and> \<not> is_ws c \<and> c \<notin> {34, 91, 123, 93, 125}"
proof (cases "scan_number l = Some (JFloat l, [])")
  case True
  then obtain c cs where "l = c # cs"
    by (cases l) (auto simp: scan_number_def scan_int_part_def)
  with True scan_number_start show ?thesis by fastforce
next
  case False
  with assms show ?thesis
    by (auto simp: wf_float_def lit_def is_ws_def)
qed

lemma dump_hd:
  assumes "wf_json v"
  shows "\<exists>c cs. dump sep col v = c # cs \<and> \<not> is_ws c \<and> c \<noteq> 93 \<and> c \<noteq> 125"
proof (cases v)
  case (JInt i)
  then show ?thesis
    using dec_int_hd [of i] by (auto simp: is_ws_def is_digit_def)
next
  case (JFloat l)
  then show ?thesis
    using wf_float_hd [of l] assms by auto
qed (auto simp: lit_def is_ws_def dump_str_def)

lemma parse_value_dump_atom:
  assumes "scan_atom (dump sep col v @ r) = Some (v, r)"
    and "\<exists>c cs. dump sep col v = c # cs \<and> c \<notin> {34, 91, 123}"
  shows "\<exists>n. parse_value n (dump sep col v @ r) = Some (v, r)"
proof -
  from assms(2) obtain c cs where c: "dump sep col v = c # cs" "c \<notin> {34, 91, 123}"
    by blast
  with assms(1) have "scan_atom (c # cs @ r) = Some (v, r)"
    by simp
  from parse_value_atom [OF this c(2)] show ?thesis
    using c(1) by auto
qed

lemma num_stop_simps [simp]: "num_stop (44 # r)" "num_stop (93 # r)" "num_stop (125 # r)"
  by (simp_all add: num_stop_def is_digit_def)

text \<open>One more element in front of an array's tail, with the fuel of both calls.\<close>

lemma parse_elems_step:
  assumes v: "parse_value n s = Some (v, r)" and "skip_ws r = 44 # r'"
    and vs: "parse_elems m (skip_ws r') = Some (vs, r'')"
  shows "parse_elems (Suc (max n m)) s = Some (v # vs, r'')"
proof -
  have "parse_value (max n m) s = Some (v, r)" "parse_elems (max n m) (skip_ws r') = Some (vs, r'')"
    using parse_value_mono [OF v] parse_elems_mono [OF vs] by simp_all
  with assms(2) show ?thesis
    by (simp add: parse_unfold)
qed

lemma parse_members_step:
  assumes "scan_str s = Some (k, r)" and "skip_ws r = 58 # r1"
    and v: "parse_value n (skip_ws r1) = Some (v, r2)"
    and "skip_ws r2 = 44 # r3" and kvs: "parse_members m (skip_ws r3) = Some (kvs, r'')"
  shows "parse_members (Suc (max n m)) (34 # s) = Some ((k, v) # kvs, r'')"
proof -
  have "parse_value (max n m) (skip_ws r1) = Some (v, r2)"
    "parse_members (max n m) (skip_ws r3) = Some (kvs, r'')"
    using parse_value_mono [OF v] parse_members_mono [OF kvs] by simp_all
  with assms(1,2,4) show ?thesis
    by (simp add: parse_unfold)
qed

lemma join_with_Cons: "xs \<noteq> [] \<Longrightarrow> join_with sep (x # xs) = x @ sep @ join_with sep xs"
  by (cases xs) simp_all

lemma dump_elems_Nil_iff [simp]: "dump_elems sep col vs = [] \<longleftrightarrow> vs = []"
  by (cases vs) simp_all

lemma dump_members_Nil_iff [simp]: "dump_members sep col kvs = [] \<longleftrightarrow> kvs = []"
proof (cases kvs)
  case (Cons kv kvs')
  then show ?thesis by (cases kv) simp
qed simp

lemma parse_elems_dump:
  assumes sep: "sep_ok 44 sep"
    and elem: "\<And>v r. v \<in> set vs \<Longrightarrow> num_stop r \<Longrightarrow>
      \<exists>n. parse_value n (dump sep col v @ r) = Some (v, r)"
    and wf: "wf_elems vs" and ne: "vs \<noteq> []"
  shows "\<exists>n. parse_elems n (join_with sep (dump_elems sep col vs) @ 93 # r) = Some (vs, r)"
  using elem wf ne
proof (induction vs)
  case Nil
  then show ?case by simp
next
  case (Cons v vs)
  show ?case
  proof (cases "vs = []")
    case True
    obtain n where "parse_value n (dump sep col v @ 93 # r) = Some (v, 93 # r)"
      using Cons.prems(1) [of v "93 # r"] by auto
    then have "parse_elems (Suc n) (dump sep col v @ 93 # r) = Some ([v], r)"
      by (simp add: parse_unfold is_ws_def)
    with True show ?thesis by auto
  next
    case False
    obtain w where w: "sep = 44 # w" "\<forall>x \<in> set w. is_ws x"
      using sep by (auto simp: sep_ok_def)
    let ?t = "join_with sep (dump_elems sep col vs) @ 93 # r"
    obtain n where n: "parse_value n (dump sep col v @ 44 # w @ ?t) = Some (v, 44 # w @ ?t)"
      using Cons.prems(1) [of v "44 # w @ ?t"] by auto
    obtain m where m: "parse_elems m ?t = Some (vs, r)"
      using Cons.IH Cons.prems False by auto
    obtain u us where u: "vs = u # us" using False by (cases vs) auto
    obtain c cs where "dump sep col u = c # cs" "\<not> is_ws c"
      using dump_hd [of u sep col] Cons.prems(2) u by auto
    then obtain cs' where "?t = c # cs'" "\<not> is_ws c"
      by (cases us) (auto simp: u)
    then have "skip_ws (w @ ?t) = ?t"
      using w(2) by (metis skip_ws_sep)
    with n m have "parse_elems (Suc (max n m)) (dump sep col v @ 44 # w @ ?t) = Some (v # vs, r)"
      by (intro parse_elems_step [where r' = "w @ ?t"]) (auto simp: is_ws_def)
    with False w(1) show ?thesis
      by (auto simp: join_with_Cons)
  qed
qed

lemma parse_members_dump:
  assumes sep: "sep_ok 44 sep" and col: "sep_ok 58 col"
    and elem: "\<And>k v r. (k, v) \<in> set kvs \<Longrightarrow> num_stop r \<Longrightarrow>
      \<exists>n. parse_value n (dump sep col v @ r) = Some (v, r)"
    and wf: "wf_members kvs" and ne: "kvs \<noteq> []"
  shows "\<exists>n. parse_members n (join_with sep (dump_members sep col kvs) @ 125 # r) = Some (kvs, r)"
  using elem wf ne
proof (induction kvs)
  case Nil
  then show ?case by simp
next
  case (Cons kv kvs)
  obtain k v where kv: "kv = (k, v)" by fastforce
  with Cons.prems have wfk: "wf_str k" and wfv: "wf_json v" and wfs: "wf_members kvs" by auto
  obtain y where y: "col = 58 # y" "\<forall>x \<in> set y. is_ws x"
    using col by (auto simp: sep_ok_def)
  obtain c cs where c: "dump sep col v = c # cs" "\<not> is_ws c"
    using dump_hd [OF wfv] by blast
  have skip: "skip_ws (y @ dump sep col v @ t) = dump sep col v @ t" for t
    using y(2) c by (simp add: skip_ws_sep)
  let ?k = "concat (map esc_char k)"
  have key: "scan_str (?k @ 34 # t) = Some (k, t)" for t
    using wfk by (rule scan_str_dump)
  have entry: "dump_str k @ col @ dump sep col v @ t = 34 # ?k @ 34 # 58 # y @ dump sep col v @ t" for t
    by (simp add: dump_str_def y(1))
  show ?case
  proof (cases "kvs = []")
    case True
    obtain n where "parse_value n (dump sep col v @ 125 # r) = Some (v, 125 # r)"
      using Cons.prems(1) [of k v "125 # r"] kv by auto
    then have "parse_members (Suc n) (34 # ?k @ 34 # 58 # y @ dump sep col v @ 125 # r) = Some ([(k, v)], r)"
      by (simp add: parse_unfold key skip is_ws_def)
    then have "parse_members (Suc n) (dump_str k @ col @ dump sep col v @ 125 # r) = Some ([(k, v)], r)"
      by (simp only: entry)
    with True show ?thesis by (auto simp: kv)
  next
    case False
    obtain w where w: "sep = 44 # w" "\<forall>x \<in> set w. is_ws x"
      using sep by (auto simp: sep_ok_def)
    let ?t = "join_with sep (dump_members sep col kvs) @ 125 # r"
    obtain n where n: "parse_value n (dump sep col v @ 44 # w @ ?t) = Some (v, 44 # w @ ?t)"
      using Cons.prems(1) [of k v "44 # w @ ?t"] kv by auto
    have "\<exists>n. parse_value n (dump sep col u @ t) = Some (u, t)" if "(j, u) \<in> set kvs" "num_stop t" for j u t
      using Cons.prems(1) [of j u t] that by simp
    then obtain m where m: "parse_members m ?t = Some (kvs, r)"
      using Cons.IH wfs False by blast
    obtain j u us where u: "kvs = (j, u) # us" using False by (cases kvs) auto
    have "\<exists>cs'. ?t = 34 # cs'"
      by (cases us) (auto simp: u dump_str_def)
    then have "skip_ws (w @ ?t) = ?t"
      using w(2) by (auto simp: skip_ws_sep is_ws_def)
    with n m have "parse_members (Suc (max n m)) (34 # ?k @ 34 # 58 # y @ dump sep col v @ 44 # w @ ?t)
        = Some ((k, v) # kvs, r)"
      by (intro parse_members_step [OF key]) (auto simp: is_ws_def skip)
    then have "parse_members (Suc (max n m)) (dump_str k @ col @ dump sep col v @ 44 # w @ ?t)
        = Some ((k, v) # kvs, r)"
      by (simp only: entry)
    with False w(1) show ?thesis
      by (auto simp: join_with_Cons kv)
  qed
qed


lemma wf_elems_iff: "wf_elems vs \<longleftrightarrow> (\<forall>v \<in> set vs. wf_json v)"
  by (induction vs) auto

lemma wf_members_iff:
  "wf_members kvs \<longleftrightarrow> (\<forall>(k, v) \<in> set kvs. wf_str k \<and> wf_json v)"
  by (induction kvs) auto

lemma parse_value_dump:
  assumes sep: "sep_ok 44 sep" and col: "sep_ok 58 col"
    and "wf_json v" and "num_stop r"
  shows "\<exists>n. parse_value n (dump sep col v @ r) = Some (v, r)"
  using assms(3,4)
proof (induction v arbitrary: r)
  case (JList vs)
  show ?case
  proof (cases "vs = []")
    case True
    then have "parse_value (Suc 0) (dump sep col (JList vs) @ r) = Some (JList vs, r)"
      by (simp add: parse_unfold is_ws_def)
    then show ?thesis by blast
  next
    case False
    have wf: "wf_elems vs" using JList.prems by simp
    then have "\<exists>n. parse_value n (dump sep col v @ t) = Some (v, t)"
      if "v \<in> set vs" "num_stop t" for v t
      using JList.IH [OF that(1) _ that(2)] that(1) by (simp add: wf_elems_iff)
    then obtain n where n:
      "parse_elems n (join_with sep (dump_elems sep col vs) @ 93 # r) = Some (vs, r)"
      using parse_elems_dump [OF sep _ wf False] by blast
    obtain u us where u: "vs = u # us" using False by (cases vs) auto
    obtain c cs where "dump sep col u = c # cs" "\<not> is_ws c" "c \<noteq> 93"
      using dump_hd [of u sep col] JList.prems u by auto
    then have "\<exists>cs'. join_with sep (dump_elems sep col vs) @ 93 # r = c # cs'"
      by (cases us) (auto simp: u)
    with n \<open>\<not> is_ws c\<close> \<open>c \<noteq> 93\<close>
    have "parse_value (Suc n) (dump sep col (JList vs) @ r) = Some (JList vs, r)"
      by (auto simp: parse_unfold)
    then show ?thesis by blast
  qed
next
  case (JObj kvs)
  show ?case
  proof (cases "kvs = []")
    case True
    then have "parse_value (Suc 0) (dump sep col (JObj kvs) @ r) = Some (JObj kvs, r)"
      by (simp add: parse_unfold dict_of_dict_ok is_ws_def)
    then show ?thesis by blast
  next
    case False
    have "wf_members kvs" and ok: "dict_ok kvs" using JObj.prems by auto
    then have "\<exists>n. parse_value n (dump sep col v @ t) = Some (v, t)"
      if "(k, v) \<in> set kvs" "num_stop t" for k v t
      using JObj.IH [OF that(1), of v t] that by (auto simp: wf_members_iff)
    then obtain n where n:
      "parse_members n (join_with sep (dump_members sep col kvs) @ 125 # r) = Some (kvs, r)"
      using parse_members_dump [OF sep col _ \<open>wf_members kvs\<close> False] by blast
    obtain k u us where u: "kvs = (k, u) # us" using False by (cases kvs) auto
    have "\<exists>cs'. join_with sep (dump_members sep col kvs) @ 125 # r = 34 # cs'"
      by (cases us) (auto simp: u dump_str_def)
    with n ok have "parse_value (Suc n) (dump sep col (JObj kvs) @ r) = Some (JObj kvs, r)"
      by (auto simp: parse_unfold dict_of_dict_ok is_ws_def)
    then show ?thesis by blast
  qed
next
  case (JStr s)
  then have "parse_value (Suc 0) (dump sep col (JStr s) @ r) = Some (JStr s, r)"
    by (simp add: parse_unfold dump_str_def scan_str_dump)
  then show ?case by blast
next
  case JNull
  show ?case
    by (rule parse_value_dump_atom) (simp_all add: scan_atom_words, simp add: lit_def)
next
  case (JBool b)
  show ?case
    by (rule parse_value_dump_atom) (simp_all add: scan_atom_words, simp add: lit_def)
next
  case (JInt i)
  show ?case
  proof (rule parse_value_dump_atom)
    show "scan_atom (dump sep col (JInt i) @ r) = Some (JInt i, r)"
      using JInt by (simp add: scan_atom_number scan_number_dec_int)
    show "\<exists>c cs. dump sep col (JInt i) = c # cs \<and> c \<notin> {34, 91, 123}"
      using dec_int_hd [of i] by (auto simp: is_digit_def)
  qed
next
  case (JFloat l)
  show ?case
  proof (rule parse_value_dump_atom)
    show "scan_atom (dump sep col (JFloat l) @ r) = Some (JFloat l, r)"
      using JFloat by (simp add: scan_atom_float)
    show "\<exists>c cs. dump sep col (JFloat l) = c # cs \<and> c \<notin> {34, 91, 123}"
      using wf_float_hd [of l] JFloat.prems by auto
  qed
qed

lemma join_with_set: "set (join_with sep xs) \<subseteq> set sep \<union> \<Union> (set ` set xs)"
  by (induction sep xs rule: join_with.induct) auto

lemma dec_int_ascii: "list_all is_ascii (dec_int i)"
  using dec_nat_digits [of "nat i"] dec_nat_digits [of "nat (- i)"]
  by (fastforce simp: dec_int_def list_all_iff is_ascii_def is_digit_def)

lemma scan_int_part_ascii: "scan_int_part s = Some (ds, r) \<Longrightarrow> list_all is_ascii ds"
  by (fastforce simp: scan_int_part_def list_all_iff is_ascii_def is_digit_def
      split: list.splits if_splits dest: set_takeWhileD)

lemma scan_frac_ascii: "list_all is_ascii (fst (scan_frac s))"
  by (fastforce simp: scan_frac_def list_all_iff is_ascii_def is_digit_def
      split: list.splits dest: set_takeWhileD)

lemma scan_exp_ascii: "list_all is_ascii (fst (scan_exp s))"
  by (fastforce simp: scan_exp_def scan_sign_def list_all_iff is_ascii_def is_digit_def
      split: list.splits dest: set_takeWhileD)

lemma scan_number_float_ascii: "scan_number s = Some (JFloat l, r) \<Longrightarrow> list_all is_ascii l"
  using scan_frac_ascii scan_exp_ascii
  by (auto simp: scan_number_def Let_def is_ascii_def case_prod_unfold
      split: option.splits if_splits dest!: scan_int_part_ascii)

lemma wf_float_ascii: "wf_float l \<Longrightarrow> list_all is_ascii l"
  by (auto simp: wf_float_def lit_def is_ascii_def dest: scan_number_float_ascii)

lemma sep_ok_ascii: "sep_ok c s \<Longrightarrow> c < 128 \<Longrightarrow> list_all is_ascii s"
  by (fastforce simp: sep_ok_def list_all_iff is_ascii_def is_ws_def)

lemma dump_ascii:
  assumes "sep_ok 44 sep" "sep_ok 58 col"
  shows "wf_json v \<Longrightarrow> list_all is_ascii (dump sep col v)"
    and "wf_elems vs \<Longrightarrow> list_all (list_all is_ascii) (dump_elems sep col vs)"
    and "wf_members kvs \<Longrightarrow> list_all (list_all is_ascii) (dump_members sep col kvs)"
  using assms
proof (induction sep col v and sep col vs and sep col kvs
    rule: dump_dump_elems_dump_members.induct)
  case (6 sep col vs)
  then show ?case
    using join_with_set [of sep "dump_elems sep col vs"] sep_ok_ascii [of 44 sep]
    by (fastforce simp: list_all_iff is_ascii_def)
next
  case (7 sep col kvs)
  then show ?case
    using join_with_set [of sep "dump_members sep col kvs"] sep_ok_ascii [of 44 sep]
    by (fastforce simp: list_all_iff is_ascii_def)
qed (auto simp: dec_int_ascii dump_str_ascii wf_float_ascii lit_def is_ascii_def sep_ok_ascii)

lemma json_loads_dump:
  assumes "sep_ok 44 sep" "sep_ok 58 col" "wf_json v"
  shows "json_loads (dump sep col v) = Some v"
proof -
  let ?s = "dump sep col v"
  obtain n where n: "parse_value n (?s @ []) = Some (v, [])"
    using parse_value_dump [OF assms, of "[]"] by auto
  obtain c cs where c: "?s = c # cs" "\<not> is_ws c"
    using dump_hd [OF assms(3), of sep col] by blast
  then have skip: "skip_ws ?s = ?s" by simp
  have "parse_value (2 * length ?s + 1) (skip_ws ?s) = Some (v, [])"
    by (rule parse_fuel_enough [of n]) (use n skip in simp)
  moreover have "hd ?s \<noteq> 0xFEFF"
    using dump_ascii(1) [OF assms] c by (auto simp: is_ascii_def)
  ultimately show ?thesis
    by (simp add: json_loads_def skip)
qed

lemma json_loads_dumps: "wf_json v \<Longrightarrow> json_loads (json_dumps v) = Some v"
  by (simp add: json_dumps_def json_loads_dump)

lemma json_dumps_inj: "wf_json v \<Longrightarrow> wf_json w \<Longrightarrow> json_dumps v = json_dumps w \<Longrightarrow> v = w"
  by (metis json_loads_dumps option.inject)

text \<open>What follows a value is not part of it: the text of a value delimits itself.\<close>

lemma dump_prefix_free:
  assumes "sep_ok 44 sep" "sep_ok 58 col" and "wf_json v" "wf_json w" and "num_stop r" "num_stop r'"
    and eq: "dump sep col v @ r = dump sep col w @ r'"
  shows "v = w \<and> r = r'"
proof -
  obtain m where m: "parse_value m (dump sep col v @ r) = Some (v, r)"
    using parse_value_dump [OF assms(1,2,3,5)] by blast
  obtain n where n: "parse_value n (dump sep col w @ r') = Some (w, r')"
    using parse_value_dump [OF assms(1,2,4,6)] by blast
  have "parse_value (max m n) (dump sep col v @ r) = Some (v, r)"
    using m by (rule parse_value_mono) (rule max.cobounded1)
  moreover have "parse_value (max m n) (dump sep col v @ r) = Some (w, r')"
    unfolding eq using n by (rule parse_value_mono) (rule max.cobounded2)
  ultimately have "Some (v, r) = Some (w, r')" by (rule trans [OF sym])
  then show ?thesis by blast
qed

end
