(* ===== verification/Encodings.thy ===== *)
theory Encodings
  imports Json_Roundtrip
begin

text \<open>
  The text encodings of binary data that the program takes from the standard library:
  \<^verbatim>\<open>bytes.hex\<close> and \<^verbatim>\<open>bytes.fromhex\<close>, \<^verbatim>\<open>base64.b64encode\<close> and both modes of
  \<^verbatim>\<open>base64.b64decode\<close>, \<^verbatim>\<open>int(s, 16)\<close>, and the two directions of \<^verbatim>\<open>uuid.UUID\<close>. Each reader
  is proved to invert its writer.
\<close>

section \<open>Hexadecimal\<close>

definition hex_byte :: "byte \<Rightarrow> pystr" where
  "hex_byte b = [hex_digit (unat b div 16), hex_digit (unat b mod 16)]"

definition bytes_hex :: "bytes \<Rightarrow> pystr" where
  "bytes_hex bs = concat (map hex_byte bs)"

definition is_ascii_space :: "nat \<Rightarrow> bool" where
  "is_ascii_space c \<longleftrightarrow> c = 32 \<or> (9 \<le> c \<and> c \<le> 13)"

text \<open>
  \<^verbatim>\<open>bytes.fromhex\<close> skips ASCII white space before each pair of digits and raises
  \<^verbatim>\<open>ValueError\<close> (here \<open>None\<close>) on anything else.
\<close>

fun bytes_fromhex :: "pystr \<Rightarrow> bytes option" where
  "bytes_fromhex [] = Some []"
| "bytes_fromhex [c] = (if is_ascii_space c then Some [] else None)"
| "bytes_fromhex (c # d # s) =
     (if is_ascii_space c then bytes_fromhex (d # s)
      else case (unhex c, unhex d) of
        (Some h, Some l) \<Rightarrow> map_option (Cons (byte_of (h * 16 + l))) (bytes_fromhex s)
      | _ \<Rightarrow> None)"

lemma hex_digit_not_space [simp]: "\<not> is_ascii_space (hex_digit d)"
  by (auto simp: is_ascii_space_def hex_digit_def)

declare unhex_hex_digit [simp] hex_digit_ascii [simp]

lemma byte_div_16 [simp]: "unat (b :: byte) div 16 < 16"
  using unat_byte_less [of b] by (simp add: less_mult_imp_div_less)

lemma bytes_hex_Nil [simp]: "bytes_hex [] = []"
  by (simp add: bytes_hex_def)

lemma bytes_hex_Cons [simp]: "bytes_hex (b # bs) = hex_byte b @ bytes_hex bs"
  by (simp add: bytes_hex_def)

lemma bytes_fromhex_hex [simp]: "bytes_fromhex (bytes_hex bs) = Some bs"
  by (induction bs) (simp_all add: hex_byte_def)

lemma bytes_hex_inj [simp]: "bytes_hex xs = bytes_hex ys \<longleftrightarrow> xs = ys"
  by (metis bytes_fromhex_hex option.inject)

lemma length_bytes_hex [simp]: "length (bytes_hex bs) = 2 * length bs"
  by (induction bs) (simp_all add: hex_byte_def)

lemma bytes_hex_ascii: "list_all is_ascii (bytes_hex bs)"
  by (induction bs) (simp_all add: hex_byte_def)

lemma bytes_hex_Nil_iff [simp]: "bytes_hex bs = [] \<longleftrightarrow> bs = []"
  by (cases bs) (simp_all add: hex_byte_def)

lemma length_bytes_fromhex: "bytes_fromhex s = Some bs \<Longrightarrow> 2 * length bs \<le> length s"
proof (induction s arbitrary: bs rule: bytes_fromhex.induct)
  case (3 c d s)
  then show ?case
    by (cases "is_ascii_space c") (fastforce split: option.splits)+
qed (auto split: if_splits)

section \<open>Base64\<close>

definition b64_char :: "nat \<Rightarrow> nat" where
  "b64_char v =
     (if v < 26 then 65 + v
      else if v < 52 then 71 + v
      else if v < 62 then v - 4
      else if v = 62 then 43 else 47)"

definition b64_val :: "nat \<Rightarrow> nat option" where
  "b64_val c =
     (if 65 \<le> c \<and> c \<le> 90 then Some (c - 65)
      else if 97 \<le> c \<and> c \<le> 122 then Some (c - 71)
      else if 48 \<le> c \<and> c \<le> 57 then Some (c + 4)
      else if c = 43 then Some 62
      else if c = 47 then Some 63
      else None)"

fun b64encode :: "bytes \<Rightarrow> pystr" where
  "b64encode [] = []"
| "b64encode [a] = [b64_char (unat a div 4), b64_char (unat a mod 4 * 16), 61, 61]"
| "b64encode [a, b] =
     [b64_char (unat a div 4), b64_char (unat a mod 4 * 16 + unat b div 16),
      b64_char (unat b mod 16 * 4), 61]"
| "b64encode (a # b # c # bs) =
     [b64_char (unat a div 4), b64_char (unat a mod 4 * 16 + unat b div 16),
      b64_char (unat b mod 16 * 4 + unat c div 64), b64_char (unat c mod 64)] @ b64encode bs"

text \<open>
  The decoding loop of \<^verbatim>\<open>binascii.a2b_base64\<close>: the position in the current group of four,
  the bits left over from the previous character, the pads counted and whether any pad was
  seen. Loose mode skips characters outside the alphabet; strict mode raises.
\<close>

fun a2b_loop :: "bool \<Rightarrow> nat \<Rightarrow> nat \<Rightarrow> nat \<Rightarrow> bool \<Rightarrow> pystr \<Rightarrow> bytes option" where
  "a2b_loop strict quad left pads padded [] = (if quad = 0 then Some [] else None)"
| "a2b_loop strict quad left pads padded (c # s) =
     (if c = 61 then
        if 2 \<le> quad \<and> 4 \<le> quad + (pads + 1) then
          if strict \<and> s \<noteq> [] then None else Some []
        else a2b_loop strict quad left (if 2 \<le> quad then pads + 1 else pads) True s
      else case b64_val c of
        None \<Rightarrow> if strict then None else a2b_loop strict quad left pads padded s
      | Some v \<Rightarrow>
          if strict \<and> padded then None
          else if quad = 0 then a2b_loop strict 1 v 0 padded s
          else if quad = 1 then
            map_option (Cons (byte_of (left * 4 + v div 16)))
              (a2b_loop strict 2 (v mod 16) 0 padded s)
          else if quad = 2 then
            map_option (Cons (byte_of (left * 16 + v div 4)))
              (a2b_loop strict 3 (v mod 4) 0 padded s)
          else
            map_option (Cons (byte_of (left * 64 + v))) (a2b_loop strict 0 0 0 padded s))"

definition b64decode :: "bool \<Rightarrow> pystr \<Rightarrow> bytes option" where
  "b64decode strict s =
     (if \<not> list_all is_ascii s then None
      else if strict \<and> s \<noteq> [] \<and> hd s = 61 then None
      else a2b_loop strict 0 0 0 False s)"

lemma b64_val_char [simp]: "v < 64 \<Longrightarrow> b64_val (b64_char v) = Some v"
  by (auto simp: b64_val_def b64_char_def)

lemma b64_char_not_pad [simp]: "v < 64 \<Longrightarrow> b64_char v \<noteq> 61"
  by (auto simp: b64_char_def)

lemma b64_char_ascii [simp]: "v < 64 \<Longrightarrow> is_ascii (b64_char v)"
  by (auto simp: b64_char_def is_ascii_def)

lemma b64_bounds [simp]:
  "unat (a :: byte) div 4 < 64"
  "unat (a :: byte) mod 4 * 16 < 64"
  "unat (a :: byte) mod 4 * 16 + unat (b :: byte) div 16 < 64"
  "unat (b :: byte) mod 16 * 4 < 64"
  "unat (b :: byte) mod 16 * 4 + unat (c :: byte) div 64 < 64"
proof -
  have "unat a div 4 < 64" "unat b div 16 < 16" "unat c div 64 < 4"
    using unat_byte_less [of a] unat_byte_less [of b] unat_byte_less [of c]
    by (simp_all add: less_mult_imp_div_less)
  moreover have "unat a mod 4 < 4" "unat b mod 16 < 16"
    by simp_all
  ultimately show
    "unat (a :: byte) div 4 < 64"
    "unat (a :: byte) mod 4 * 16 < 64"
    "unat (a :: byte) mod 4 * 16 + unat (b :: byte) div 16 < 64"
    "unat (b :: byte) mod 16 * 4 < 64"
    "unat (b :: byte) mod 16 * 4 + unat (c :: byte) div 64 < 64"
    by linarith+
qed

lemma b64_join:
  "unat (a :: byte) div 4 * 4 + (unat a mod 4 * 16 + unat (b :: byte) div 16) div 16 = unat a"
  "(unat (a :: byte) mod 4 * 16 + unat (b :: byte) div 16) mod 16 * 16
     + (unat b mod 16 * 4 + unat (c :: byte) div 64) div 4 = unat b"
  "(unat (b :: byte) mod 16 * 4 + unat (c :: byte) div 64) mod 4 * 64 + unat c mod 64 = unat c"
proof -
  have "unat b div 16 < 16" "unat c div 64 < 4"
    using unat_byte_less [of b] unat_byte_less [of c] by (simp_all add: less_mult_imp_div_less)
  then show
    "unat (a :: byte) div 4 * 4 + (unat a mod 4 * 16 + unat (b :: byte) div 16) div 16 = unat a"
    "(unat (a :: byte) mod 4 * 16 + unat (b :: byte) div 16) mod 16 * 16
       + (unat b mod 16 * 4 + unat (c :: byte) div 64) div 4 = unat b"
    "(unat (b :: byte) mod 16 * 4 + unat (c :: byte) div 64) mod 4 * 64 + unat c mod 64 = unat c"
    by simp_all
qed

lemma a2b_loop_encode: "a2b_loop strict 0 0 0 False (b64encode bs) = Some bs"
proof (induction bs rule: b64encode.induct)
  case (2 a)
  have "unat a div 4 * 4 + unat a mod 4 * 16 div 16 = unat a" by simp
  then show ?case by simp
next
  case (3 a b)
  have "(unat a mod 4 * 16 + unat b div 16) mod 16 * 16 + unat b mod 16 * 4 div 4 = unat b"
    using b64_join(2) [of a b 0] by simp
  then show ?case using b64_join(1) [of a b] by simp
next
  case (4 a b c bs)
  then show ?case
    using b64_join(1) [of a b] b64_join(2) [of a b c] b64_join(3) [of b c] by simp
qed simp

lemma b64encode_ascii: "list_all is_ascii (b64encode bs)"
  by (induction bs rule: b64encode.induct) (simp_all add: is_ascii_def [of 61])

lemma b64encode_hd: "b64encode bs \<noteq> [] \<Longrightarrow> hd (b64encode bs) \<noteq> 61"
  by (induction bs rule: b64encode.induct) simp_all

lemma b64decode_encode [simp]: "b64decode strict (b64encode bs) = Some bs"
  using b64encode_hd [of bs] by (auto simp: b64decode_def b64encode_ascii a2b_loop_encode)

lemma b64encode_inj [simp]: "b64encode xs = b64encode ys \<longleftrightarrow> xs = ys"
  by (metis b64decode_encode option.inject)

lemma length_b64encode: "length (b64encode bs) = (length bs + 2) div 3 * 4"
proof (induction bs rule: b64encode.induct)
  case (4 a b c bs)
  have "(length (a # b # c # bs) + 2) div 3 = (length bs + 2) div 3 + 1" by simp
  with 4 show ?case by simp
qed simp_all

section \<open>Unicode digits and white space\<close>

text \<open>
  \<^verbatim>\<open>int\<close> reads every Unicode decimal digit and skips every Unicode white space. The decimal
  digits come in runs of ten; the table has the zero of each run (Unicode 14, as Python
  3.11 has it).
\<close>

definition unicode_zeros :: "nat list" where
  "unicode_zeros =
    [0x30, 0x660, 0x6f0, 0x7c0, 0x966, 0x9e6, 0xa66, 0xae6, 0xb66, 0xbe6, 0xc66, 0xce6, 0xd66,
     0xde6, 0xe50, 0xed0, 0xf20, 0x1040, 0x1090, 0x17e0, 0x1810, 0x1946, 0x19d0, 0x1a80, 0x1a90,
     0x1b50, 0x1bb0, 0x1c40, 0x1c50, 0xa620, 0xa8d0, 0xa900, 0xa9d0, 0xa9f0, 0xaa50, 0xabf0,
     0xff10, 0x104a0, 0x10d30, 0x11066, 0x110f0, 0x11136, 0x111d0, 0x112f0, 0x11450, 0x114d0,
     0x11650, 0x116c0, 0x11730, 0x118e0, 0x11950, 0x11c50, 0x11d50, 0x11da0, 0x16a60, 0x16ac0,
     0x16b50, 0x1d7ce, 0x1d7d8, 0x1d7e2, 0x1d7ec, 0x1d7f6, 0x1e140, 0x1e2f0, 0x1e950, 0x1fbf0]"

definition to_decimal :: "nat \<Rightarrow> nat option" where
  "to_decimal c = map_option (\<lambda>z. c - z) (List.find (\<lambda>z. z \<le> c \<and> c < z + 10) unicode_zeros)"

definition is_py_space :: "nat \<Rightarrow> bool" where
  "is_py_space c \<longleftrightarrow>
     (9 \<le> c \<and> c \<le> 13) \<or> (0x1c \<le> c \<and> c \<le> 0x20) \<or> c = 0x85 \<or> c = 0xa0 \<or> c = 0x1680 \<or>
     (0x2000 \<le> c \<and> c \<le> 0x200a) \<or> c = 0x2028 \<or> c = 0x2029 \<or> c = 0x202f \<or> c = 0x205f \<or>
     c = 0x3000"

text \<open>
  \<open>to_ascii_digits\<close> is the translation \<^verbatim>\<open>int\<close> applies to a string that is not plain ASCII
  before it reads it; a character that is neither a digit nor a space becomes a question
  mark, which no base accepts.
\<close>

definition to_ascii_digit :: "nat \<Rightarrow> nat" where
  "to_ascii_digit c =
     (if c < 127 then c
      else if is_py_space c then 32
      else case to_decimal c of Some d \<Rightarrow> 48 + d | None \<Rightarrow> 63)"

definition to_ascii_digits :: "pystr \<Rightarrow> pystr" where
  "to_ascii_digits s = (if list_all is_ascii s then s else map to_ascii_digit s)"

definition digit_val :: "nat \<Rightarrow> nat \<Rightarrow> nat option" where
  "digit_val base c =
     (case unhex c of Some d \<Rightarrow> if d < base then Some d else None | None \<Rightarrow> None)"

text \<open>Digits with single underscores between them; the value and what follows.\<close>

fun int_digits :: "nat \<Rightarrow> nat \<Rightarrow> pystr \<Rightarrow> (nat \<times> pystr) option" where
  "int_digits base acc [] = Some (acc, [])"
| "int_digits base acc (c # s) =
     (if c = 95 then
        (case s of
           d # s' \<Rightarrow>
             (case digit_val base d of
                Some v \<Rightarrow> int_digits base (acc * base + v) s'
              | None \<Rightarrow> None)
         | [] \<Rightarrow> None)
      else case digit_val base c of
        Some v \<Rightarrow> int_digits base (acc * base + v) s
      | None \<Rightarrow> Some (acc, c # s))"

definition strip_sign :: "pystr \<Rightarrow> bool \<times> pystr" where
  "strip_sign s =
     (case s of c # r \<Rightarrow> if c = 45 then (True, r) else if c = 43 then (False, r) else (False, s)
      | [] \<Rightarrow> (False, s))"

definition strip_0x :: "pystr \<Rightarrow> pystr" where
  "strip_0x s =
     (case s of
        a # b # r \<Rightarrow>
          if a = 48 \<and> (b = 120 \<or> b = 88)
          then (case r of c # r' \<Rightarrow> if c = 95 then r' else r | [] \<Rightarrow> r) else s
      | _ \<Rightarrow> s)"

text \<open>\<^verbatim>\<open>int(s, base)\<close> for the bases 10 and 16.\<close>

definition py_int :: "nat \<Rightarrow> pystr \<Rightarrow> int option" where
  "py_int base s =
     (let t = dropWhile is_ascii_space (to_ascii_digits s);
          (neg, t1) = strip_sign t;
          t2 = (if base = 16 then strip_0x t1 else t1) in
      case t2 of
        [] \<Rightarrow> None
      | c # r \<Rightarrow>
          (case digit_val base c of
             None \<Rightarrow> None
           | Some v \<Rightarrow>
               (case int_digits base v r of
                  None \<Rightarrow> None
                | Some (n, rest) \<Rightarrow>
                    if dropWhile is_ascii_space rest = []
                    then Some (if neg then - int n else int n) else None)))"

section \<open>UUIDs\<close>

text \<open>\<^verbatim>\<open>s.replace(old, '')\<close>, scanning from the left.\<close>

function remove_all :: "pystr \<Rightarrow> pystr \<Rightarrow> pystr" where
  "remove_all w [] = []"
| "remove_all w (c # s) =
     (if w \<noteq> [] \<and> take (length w) (c # s) = w then remove_all w (drop (length w) (c # s))
      else c # remove_all w s)"
  by pat_completeness auto
termination
  by (relation "measure (\<lambda>(w, s). length s)") (auto simp: diff_less_Suc)

definition strip_chars :: "nat list \<Rightarrow> pystr \<Rightarrow> pystr" where
  "strip_chars cs s =
     rev (dropWhile (\<lambda>c. c \<in> set cs) (rev (dropWhile (\<lambda>c. c \<in> set cs) s)))"

definition uuid_parse :: "pystr \<Rightarrow> bytes option" where
  "uuid_parse s =
     (let h = filter (\<lambda>c. c \<noteq> 45)
                (strip_chars [123, 125] (remove_all (lit ''uuid:'') (remove_all (lit ''urn:'') s))) in
      if length h \<noteq> 32 then None
      else case py_int 16 h of
        None \<Rightarrow> None
      | Some i \<Rightarrow> if 0 \<le> i \<and> i < 2 ^ 128 then Some (be_bytes 16 (nat i)) else None)"

definition uuid_str :: "bytes \<Rightarrow> pystr" where
  "uuid_str bs =
     (let h = bytes_hex bs in
      take 8 h @ [45] @ take 4 (drop 8 h) @ [45] @ take 4 (drop 12 h) @ [45] @
      take 4 (drop 16 h) @ [45] @ drop 20 h)"

section \<open>The UUID round trip\<close>

lemma digit_val_hex_digit [simp]: "d < 16 \<Longrightarrow> digit_val 16 (hex_digit d) = Some d"
  by (simp add: digit_val_def)

lemma hex_digit_chars:
  "d < 16 \<Longrightarrow> hex_digit d \<notin> {43, 45, 95, 88, 117, 120, 123, 125}"
  by (auto simp: hex_digit_def)

lemma bytes_hex_chars: "c \<in> set (bytes_hex bs) \<Longrightarrow> c \<notin> {43, 45, 95, 88, 117, 120, 123, 125}"
proof (induction bs)
  case (Cons b bs)
  then show ?case
    using hex_digit_chars [of "unat b div 16"] hex_digit_chars [of "unat b mod 16"]
    by (auto simp: hex_byte_def)
qed simp

lemma int_digits_hex:
  "int_digits 16 acc (bytes_hex bs) = Some (foldl (\<lambda>a b. a * 256 + unat b) acc bs, [])"
proof (induction bs arbitrary: acc)
  case (Cons b bs)
  have "hex_digit (unat b div 16) \<noteq> 95" "hex_digit (unat b mod 16) \<noteq> 95"
    using hex_digit_chars [of "unat b div 16"] hex_digit_chars [of "unat b mod 16"] by auto
  moreover have "(acc * 16 + unat b div 16) * 16 + unat b mod 16 = acc * 256 + unat b"
    using div_mult_mod_eq [of "unat b" 16] by (simp add: algebra_simps)
  ultimately show ?case
    using Cons by (simp add: hex_byte_def mult.commute add.commute)
qed simp

lemma py_int_hex:
  assumes "bs \<noteq> []"
  shows "py_int 16 (bytes_hex bs) = Some (int (be_nat bs))"
proof -
  obtain b bs' where bs: "bs = b # bs'" using assms by (cases bs) auto
  let ?h = "hex_digit (unat b div 16)" and ?l = "hex_digit (unat b mod 16)"
  have dig: "?h \<notin> {43, 45, 95, 88, 117, 120, 123, 125}" "?l \<notin> {43, 45, 95, 88, 117, 120, 123, 125}"
    by (rule hex_digit_chars, simp)+
  have hex: "bytes_hex bs = ?h # ?l # bytes_hex bs'" by (simp add: bs hex_byte_def)
  have asc: "to_ascii_digits (bytes_hex bs) = bytes_hex bs"
    by (simp add: to_ascii_digits_def bytes_hex_ascii)
  have sign: "strip_sign (bytes_hex bs) = (False, bytes_hex bs)"
    using dig(1) by (simp add: strip_sign_def hex)
  have pre: "strip_0x (bytes_hex bs) = bytes_hex bs"
    using dig(2) by (simp add: strip_0x_def hex)
  have "int_digits 16 (unat b div 16) (?l # bytes_hex bs') = int_digits 16 0 (bytes_hex bs)"
    using dig(1) by (simp add: hex)
  also have "\<dots> = Some (be_nat bs, [])"
    by (simp add: int_digits_hex be_nat_def)
  finally have dig_val: "int_digits 16 (unat b div 16) (?l # bytes_hex bs') = Some (be_nat bs, [])" .
  have "dropWhile is_ascii_space (bytes_hex bs) = bytes_hex bs"
    by (simp add: hex)
  then show ?thesis
    unfolding py_int_def Let_def asc
    by (simp add: sign pre) (simp add: hex dig_val del: int_digits.simps)
qed

lemma remove_all_absent: "w \<noteq> [] \<Longrightarrow> hd w \<notin> set s \<Longrightarrow> remove_all w s = s"
  by (induction w s rule: remove_all.induct) (auto, (metis hd_append2 list.sel(1) take_Cons' take_eq_Nil2)?)

lemma dropWhile_absent: "set cs \<inter> set s = {} \<Longrightarrow> dropWhile (\<lambda>c. c \<in> set cs) s = s"
  by (cases s) auto

lemma strip_chars_absent: "set cs \<inter> set s = {} \<Longrightarrow> strip_chars cs s = s"
  by (simp add: strip_chars_def dropWhile_absent)

lemma take_drop_segments:
  "take 8 h @ take 4 (drop 8 h) @ take 4 (drop 12 h) @ take 4 (drop 16 h) @ drop 20 h = h"
proof -
  have "drop 12 h = drop 4 (drop 8 h)" "drop 16 h = drop 4 (drop 12 h)" "drop 20 h = drop 4 (drop 16 h)"
    by simp_all
  then show ?thesis by (metis append_take_drop_id)
qed

lemma uuid_parse_str:
  assumes "length bs = 16"
  shows "uuid_parse (uuid_str bs) = Some bs"
proof -
  let ?h = "bytes_hex bs" and ?s = "uuid_str bs"
  have chars: "c \<in> set ?h \<Longrightarrow> c \<notin> {43, 45, 95, 88, 117, 120, 123, 125}" for c
    by (rule bytes_hex_chars)
  have set: "set ?s \<subseteq> set ?h \<union> {45}"
    by (auto simp: uuid_str_def Let_def dest: in_set_takeD in_set_dropD)
  with chars have "117 \<notin> set ?s" "set [123, 125] \<inter> set ?s = {}" by fastforce+
  then have rm: "remove_all (lit ''urn:'') ?s = ?s" "remove_all (lit ''uuid:'') ?s = ?s"
    and st: "strip_chars [123, 125] ?s = ?s"
    by (auto simp: lit_def strip_chars_absent intro!: remove_all_absent)
  have nodash: "filter (\<lambda>c. c \<noteq> 45) t = t" if "set t \<subseteq> set ?h" for t
    using that chars by (auto intro!: filter_True)
  have "filter (\<lambda>c. c \<noteq> 45) ?s = ?h"
    unfolding uuid_str_def Let_def filter_append
    by (simp add: nodash set_take_subset order_trans [OF set_take_subset set_drop_subset]
        set_drop_subset take_drop_segments)
  moreover have "py_int 16 ?h = Some (int (be_nat bs))"
    using assms by (intro py_int_hex) auto
  moreover have "be_nat bs < 2 ^ 128"
    using be_nat_less [of bs] assms by simp
  ultimately show ?thesis
    using assms by (simp add: uuid_parse_def Let_def rm st)
qed

lemma uuid_str_inj: "length x = 16 \<Longrightarrow> length y = 16 \<Longrightarrow> uuid_str x = uuid_str y \<Longrightarrow> x = y"
  by (metis uuid_parse_str option.inject)

lemma length_uuid_parse: "uuid_parse s = Some bs \<Longrightarrow> length bs = 16"
  by (auto simp: uuid_parse_def Let_def split: if_splits option.splits)

section \<open>Fields ended by a NUL byte\<close>

text \<open>
  The signed payloads of the program join their text fields with NUL bytes. A field without
  a NUL in it delimits itself, which makes it an instance of the codec interface.
\<close>

definition nul_field :: "bytes \<Rightarrow> bytes" where
  "nul_field b = b @ [0]"

definition nul_free :: "bytes \<Rightarrow> bool" where
  "nul_free b \<longleftrightarrow> 0 \<notin> set b"

definition read_nul_field :: "bytes \<Rightarrow> unit + bytes \<times> bytes" where
  "read_nul_field bs =
     (if 0 \<in> set bs then Inr (takeWhile (\<lambda>b. b \<noteq> 0) bs, tl (dropWhile (\<lambda>b. b \<noteq> 0) bs)) else Inl ())"

lemma takeWhile_nul_free: "nul_free b \<Longrightarrow> takeWhile (\<lambda>x. x \<noteq> 0) (b @ 0 # r) = b"
  by (induction b) (auto simp: nul_free_def)

lemma dropWhile_nul_free: "nul_free b \<Longrightarrow> dropWhile (\<lambda>x. x \<noteq> 0) (b @ 0 # r) = 0 # r"
  by (induction b) (auto simp: nul_free_def)

interpretation nul: stream_codec nul_field read_nul_field nul_free
  by unfold_locales
    (simp add: nul_field_def read_nul_field_def takeWhile_nul_free dropWhile_nul_free)

lemma utf8_char_nul: "is_scalar c \<Longrightarrow> c \<noteq> 0 \<Longrightarrow> 0 \<notin> set (utf8_char c)"
proof
  assume c: "is_scalar c" "c \<noteq> 0" and "0 \<in> set (utf8_char c)"
  moreover have "byte_of n \<noteq> 0" if "0 < n" "n < 256" for n
    using byte_of_inject [of n 0] that by (auto simp: byte_of_def)
  moreover have "c < 0x110000" using c(1) by (simp add: is_scalar_def)
  ultimately show False
    by (auto simp: utf8_char_def Let_def split: if_splits)
qed

lemma utf8_encode_nul_free:
  assumes "utf8_encode s = Some b" and "0 \<notin> set s"
  shows "nul_free b"
  using assms utf8_char_nul
  by (auto simp: utf8_encode_def nul_free_def list_all_iff split: if_splits) (metis neq0_conv)

end
