(* ===== verification/Sha256.thy ===== *)
theory Sha256
  imports Encodings
begin

text \<open>
  \<^verbatim>\<open>hashlib.sha256\<close> as FIPS 180-4 defines it, on 32-bit words: the padding of the message to
  whole blocks, the message schedule, the 64 rounds of the compression function and the
  digest. The program uses it for device identifiers, fingerprints, file checksums and the
  recovery-code checksum.
\<close>

unbundle bit_operations_syntax

type_synonym w32 = "32 word"

text \<open>
  The standard takes its constants from the primes: the round constants are the first 32
  fractional bits of the cube roots of the first 64 of them, the initial state those of the
  square roots of the first eight. \<open>root_bits\<close> finds the integer root of \<open>n\<close> bit by bit.
\<close>

primrec root_bits :: "nat \<Rightarrow> nat \<Rightarrow> int \<Rightarrow> int \<Rightarrow> int" where
  "root_bits e 0 n acc = acc"
| "root_bits e (Suc i) n acc =
     root_bits e i n (if (acc + 2 ^ i) ^ e \<le> n then acc + 2 ^ i else acc)"

definition frac_root :: "nat \<Rightarrow> int \<Rightarrow> w32" where
  "frac_root e p = word_of_int (root_bits e 37 (p * 2 ^ (32 * e)) 0)"

definition primes64 :: "int list" where
  "primes64 =
    [2, 3, 5, 7, 11, 13, 17, 19, 23, 29, 31, 37, 41, 43, 47, 53, 59, 61,
     67, 71, 73, 79, 83, 89, 97, 101, 103, 107, 109, 113, 127, 131, 137, 139, 149, 151,
     157, 163, 167, 173, 179, 181, 191, 193, 197, 199, 211, 223, 227, 229, 233, 239, 241, 251,
     257, 263, 269, 271, 277, 281, 283, 293, 307, 311]"

definition sha_k :: "w32 list" where
  "sha_k = map (frac_root 3) primes64"

definition sha_h0 :: "w32 list" where
  "sha_h0 = map (frac_root 2) (take 8 primes64)"

definition rotr :: "nat \<Rightarrow> w32 \<Rightarrow> w32" where
  "rotr n x = drop_bit n x OR push_bit (32 - n) x"

definition sha_ch :: "w32 \<Rightarrow> w32 \<Rightarrow> w32 \<Rightarrow> w32" where
  "sha_ch x y z = (x AND y) XOR (NOT x AND z)"

definition sha_maj :: "w32 \<Rightarrow> w32 \<Rightarrow> w32 \<Rightarrow> w32" where
  "sha_maj x y z = (x AND y) XOR (x AND z) XOR (y AND z)"

definition big_sigma0 :: "w32 \<Rightarrow> w32" where
  "big_sigma0 x = rotr 2 x XOR rotr 13 x XOR rotr 22 x"

definition big_sigma1 :: "w32 \<Rightarrow> w32" where
  "big_sigma1 x = rotr 6 x XOR rotr 11 x XOR rotr 25 x"

definition small_sigma0 :: "w32 \<Rightarrow> w32" where
  "small_sigma0 x = rotr 7 x XOR rotr 18 x XOR drop_bit 3 x"

definition small_sigma1 :: "w32 \<Rightarrow> w32" where
  "small_sigma1 x = rotr 17 x XOR rotr 19 x XOR drop_bit 10 x"

definition sha_pad :: "bytes \<Rightarrow> bytes" where
  "sha_pad m = m @ [0x80] @ replicate ((119 - length m mod 64) mod 64) 0 @ be_bytes 8 (8 * length m)"

text \<open>The schedule is built newest word first; \<open>sha_schedule\<close> reverses it.\<close>

primrec sha_extend :: "nat \<Rightarrow> w32 list \<Rightarrow> w32 list" where
  "sha_extend 0 ws = ws"
| "sha_extend (Suc n) ws =
     sha_extend n ((small_sigma1 (ws ! 1) + ws ! 6 + small_sigma0 (ws ! 14) + ws ! 15) # ws)"

fun words_of :: "bytes \<Rightarrow> w32 list" where
  "words_of (a # b # c # d # bs) =
     (push_bit 24 (ucast a) OR push_bit 16 (ucast b) OR push_bit 8 (ucast c) OR ucast d)
       # words_of bs"
| "words_of _ = []"

definition sha_schedule :: "bytes \<Rightarrow> w32 list" where
  "sha_schedule block = rev (sha_extend 48 (rev (words_of block)))"

fun sha_round :: "w32 list \<Rightarrow> w32 \<times> w32 \<Rightarrow> w32 list" where
  "sha_round [a, b, c, d, e, f, g, h] (k, w) =
     (let t1 = h + big_sigma1 e + sha_ch e f g + k + w;
          t2 = big_sigma0 a + sha_maj a b c in
      [t1 + t2, a, b, c, d + t1, e, f, g])"
| "sha_round s kw = s"

definition sha_compress :: "w32 list \<Rightarrow> bytes \<Rightarrow> w32 list" where
  "sha_compress hs block =
     map2 (+) hs (foldl sha_round hs (zip sha_k (sha_schedule block)))"

function sha_blocks :: "w32 list \<Rightarrow> bytes \<Rightarrow> w32 list" where
  "sha_blocks hs m =
     (if length m < 64 then hs else sha_blocks (sha_compress hs (take 64 m)) (drop 64 m))"
  by pat_completeness auto
termination
  by (relation "measure (\<lambda>(hs, m). length m)") auto

declare sha_blocks.simps [simp del]

definition bytes_of_word :: "w32 \<Rightarrow> bytes" where
  "bytes_of_word w = [ucast (drop_bit 24 w), ucast (drop_bit 16 w), ucast (drop_bit 8 w), ucast w]"

definition sha256 :: "bytes \<Rightarrow> bytes" where
  "sha256 m = concat (map bytes_of_word (sha_blocks sha_h0 (sha_pad m)))"

definition sha256_hex :: "bytes \<Rightarrow> pystr" where
  "sha256_hex m = bytes_hex (sha256 m)"

lemma root_bits_spec:
  assumes "acc ^ e \<le> n" "n < (acc + 2 ^ i) ^ e" "0 \<le> acc"
  shows "root_bits e i n acc ^ e \<le> n \<and> n < (root_bits e i n acc + 1) ^ e"
  using assms
proof (induction i arbitrary: acc)
  case (Suc i)
  then show ?case by (cases "(acc + 2 ^ i) ^ e \<le> n") (simp_all add: add.assoc)
qed simp

lemma length_sha_round: "length (sha_round s kw) = length s"
  by (induction s kw rule: sha_round.induct) (simp_all add: Let_def)

lemma length_sha_rounds: "length (foldl sha_round s kws) = length s"
  by (induction kws arbitrary: s) (simp_all add: length_sha_round)

lemma length_sha_compress: "length (sha_compress hs b) = length hs"
  by (simp add: sha_compress_def length_sha_rounds)

lemma length_sha_blocks: "length (sha_blocks hs m) = length hs"
  by (induction hs m rule: sha_blocks.induct)
    (simp add: sha_blocks.simps length_sha_compress)

lemma length_concat_const:
  "(\<And>x. x \<in> set xs \<Longrightarrow> length (f x) = n) \<Longrightarrow> length (concat (map f xs)) = n * length xs"
  by (induction xs) simp_all

lemma length_sha256 [simp]: "length (sha256 m) = 32"
proof -
  have "length (concat (map bytes_of_word ws)) = 4 * length ws" for ws
    by (rule length_concat_const) (simp add: bytes_of_word_def)
  then show ?thesis
    by (simp add: sha256_def length_sha_blocks sha_h0_def primes64_def)
qed

lemma length_sha256_hex [simp]: "length (sha256_hex m) = 64"
  by (simp add: sha256_hex_def)

lemma sha256_hex_ascii: "list_all is_ascii (sha256_hex m)"
  by (simp add: sha256_hex_def bytes_hex_ascii)

text \<open>The padded message fills whole blocks, so no byte of it is left unread.\<close>

lemma sha_pad_whole_blocks: "length (sha_pad m) mod 64 = 0"
proof -
  have "(n + 1 + (119 - n mod 64) mod 64 + 8) mod 64 = 0" for n :: nat
  proof -
    define r where "r = n mod 64"
    have r: "r < 64" by (simp add: r_def)
    have "(n + 1 + (119 - r) mod 64 + 8) mod 64 = (r + 1 + (119 - r) mod 64 + 8) mod 64"
      unfolding r_def by (metis (no_types, lifting) mod_add_left_eq)
    also have "\<dots> = 0"
    proof (cases "r \<le> 55")
      case True
      then have "119 - r = (55 - r) + 64" by simp
      then have "(119 - r) mod 64 = 55 - r" by (simp only: mod_add_self2) simp
      with True show ?thesis by simp
    next
      case False
      then have "(119 - r) mod 64 = 119 - r" by simp
      with False r show ?thesis by simp
    qed
    finally show ?thesis by (simp add: r_def)
  qed
  from this [of "length m"] show ?thesis by (simp add: sha_pad_def ac_simps)
qed

end
