(* ===== verification/Sha256_Vector.thy ===== *)
theory Sha256_Vector
  imports Sha256
begin

text \<open>
  The published test vector of SHA-256 for the message \<^verbatim>\<open>abc\<close>, evaluated in the logic: the
  constants, the padding, the schedule and the rounds of the model are those of the standard. Two
  keys of 32 bytes follow, whose identifiers are therefore different.
\<close>

lemma sha256_vector_abc:
  "sha256_hex (blit ''abc'') =
     lit ''ba7816bf8f01cfea414140de5dae2223b00361a396177a9cb410ff61f20015ad''"
  by code_simp

lemma sha256_key_ones:
  "sha256_hex (replicate 32 1) = lit ''72cd6e8422c407fb6d098690f1130b7ded7ec2f7f5e1d30bd9d521f015363793''"
  by code_simp

lemma sha256_key_twos:
  "sha256_hex (replicate 32 2) = lit ''75877bb41d393b5fb8455ce60ecd8dda001d06316496b14dfa7f895656eeca4a''"
  by code_simp

end
