(* ===== verification/Frame.thy ===== *)
theory Frame
  imports Json_Roundtrip Encodings
begin

text \<open>
  The wire framing of \<^verbatim>\<open>core/protocol/frame.py\<close>, the layout of file chunks in binary frames
  of \<^verbatim>\<open>core/protocol/binary.py\<close>, and the error class of \<^verbatim>\<open>core/protocol/errors.py\<close>. A
  \<^verbatim>\<open>StreamReader\<close> is the list of bytes the connection still delivers before it closes, so
  that every reader returns what it read and the bytes it left. The interpretation
  \<open>wire\<close> makes the pair of encoder and reader an instance of the codec interface.
\<close>

unbundle bit_operations_syntax

section \<open>Errors\<close>

text \<open>
  \<^verbatim>\<open>ProtocolError\<close> carries a message; the model keeps which message it is and its data.
  \<open>IncompleteReadError\<close> is what \<^verbatim>\<open>readexactly\<close> raises when the stream ends early.
\<close>

datatype protocol_reason =
    MessageTooLarge nat
  | BinaryTooLarge nat
  | ExpectedJsonFrame
  | InvalidFrameLength nat
  | MalformedJson
  | InvalidTransferId pystr
  | SequenceOutOfRange int
  | OffsetOutOfRange int
  | FileDataTooShort nat

datatype frame_error =
    ProtocolError protocol_reason
  | IncompleteReadError
  | UnicodeEncodeError

section \<open>Frames\<close>

definition LENGTH_PREFIX_SIZE :: nat where
  "LENGTH_PREFIX_SIZE = 4"

definition MAX_MESSAGE_SIZE :: nat where
  "MAX_MESSAGE_SIZE = 100 * 1024 * 1024"

definition BINARY_FLAG :: "32 word" where
  "BINARY_FLAG = 0x80000000"

definition pack_u32 :: "32 word \<Rightarrow> bytes" where
  "pack_u32 w = be_bytes 4 (unat w)"

definition unpack_u32 :: "bytes \<Rightarrow> 32 word" where
  "unpack_u32 bs = word_of_nat (be_nat bs)"

definition encode_frame :: "json \<Rightarrow> frame_error + bytes" where
  "encode_frame message =
     (case utf8_encode (json_dumps message) of
        None \<Rightarrow> Inl UnicodeEncodeError
      | Some payload \<Rightarrow>
          if length payload > MAX_MESSAGE_SIZE
          then Inl (ProtocolError (MessageTooLarge (length payload)))
          else Inr (pack_u32 (word_of_nat (length payload)) @ payload))"

definition encode_binary_frame :: "bytes \<Rightarrow> frame_error + bytes" where
  "encode_binary_frame payload =
     (if length payload > MAX_MESSAGE_SIZE
      then Inl (ProtocolError (BinaryTooLarge (length payload)))
      else Inr (pack_u32 (word_of_nat (length payload) OR BINARY_FLAG) @ payload))"

definition readexactly :: "nat \<Rightarrow> bytes \<Rightarrow> frame_error + bytes \<times> bytes" where
  "readexactly n reader =
     (if length reader < n then Inl IncompleteReadError else Inr (take n reader, drop n reader))"

datatype frame_kind = KJson | KBinary

definition read_raw :: "bytes \<Rightarrow> frame_error + (frame_kind \<times> bytes) \<times> bytes" where
  "read_raw reader =
     res_bind (readexactly LENGTH_PREFIX_SIZE reader) (\<lambda>(header, reader).
       let raw_length = unpack_u32 header;
           is_binary = (raw_length AND BINARY_FLAG \<noteq> 0);
           len = unat (raw_length AND NOT BINARY_FLAG) in
       if len = 0 \<or> len > MAX_MESSAGE_SIZE
       then Inl (ProtocolError (InvalidFrameLength len))
       else res_bind (readexactly len reader) (\<lambda>(payload, reader).
         Inr ((if is_binary then KBinary else KJson, payload), reader)))"

definition decode_json :: "bytes \<Rightarrow> frame_error + json" where
  "decode_json payload =
     (case utf8_decode payload of
        None \<Rightarrow> Inl (ProtocolError MalformedJson)
      | Some s \<Rightarrow>
          (case json_loads s of
             None \<Rightarrow> Inl (ProtocolError MalformedJson)
           | Some v \<Rightarrow> Inr v))"

definition read_frame :: "bytes \<Rightarrow> frame_error + json \<times> bytes" where
  "read_frame reader =
     res_bind (read_raw reader) (\<lambda>((kind, payload), reader).
       if kind \<noteq> KJson then Inl (ProtocolError ExpectedJsonFrame)
       else res_bind (decode_json payload) (\<lambda>v. Inr (v, reader)))"

datatype any_frame = JsonFrame json | BinaryFrame bytes

definition read_any_frame :: "bytes \<Rightarrow> frame_error + any_frame \<times> bytes" where
  "read_any_frame reader =
     res_bind (read_raw reader) (\<lambda>((kind, payload), reader).
       if kind = KJson then res_bind (decode_json payload) (\<lambda>v. Inr (JsonFrame v, reader))
       else Inr (BinaryFrame payload, reader))"

text \<open>A \<^verbatim>\<open>StreamWriter\<close> is the bytes queued on it so far.\<close>

definition write_frame :: "bytes \<Rightarrow> json \<Rightarrow> frame_error + bytes" where
  "write_frame writer message = res_bind (encode_frame message) (\<lambda>bs. Inr (writer @ bs))"

definition write_binary_frame :: "bytes \<Rightarrow> bytes \<Rightarrow> frame_error + bytes" where
  "write_binary_frame writer payload =
     res_bind (encode_binary_frame payload) (\<lambda>bs. Inr (writer @ bs))"

section \<open>File chunks in binary frames\<close>

record file_data =
  fd_transfer_id :: pystr
  fd_sequence :: nat
  fd_offset :: nat
  fd_data :: bytes

definition HEADER_SIZE :: nat where
  "HEADER_SIZE = 28"

definition encode_file_data :: "pystr \<Rightarrow> int \<Rightarrow> int \<Rightarrow> bytes \<Rightarrow> frame_error + bytes" where
  "encode_file_data transfer_id sequence offset data =
     (case uuid_parse transfer_id of
        None \<Rightarrow> Inl (ProtocolError (InvalidTransferId transfer_id))
      | Some tid_bytes \<Rightarrow>
          if sequence < 0 \<or> sequence > 0xFFFFFFFF
          then Inl (ProtocolError (SequenceOutOfRange sequence))
          else if offset < 0 \<or> offset > 0xFFFFFFFFFFFFFFFF
          then Inl (ProtocolError (OffsetOutOfRange offset))
          else Inr (tid_bytes @ be_bytes 4 (nat sequence) @ be_bytes 8 (nat offset) @ data))"

definition decode_file_data :: "bytes \<Rightarrow> frame_error + file_data" where
  "decode_file_data payload =
     (if length payload < HEADER_SIZE
      then Inl (ProtocolError (FileDataTooShort (length payload)))
      else
        Inr \<lparr>fd_transfer_id = uuid_str (take 16 payload),
             fd_sequence = be_nat (take 4 (drop 16 payload)),
             fd_offset = be_nat (take 8 (drop 20 payload)),
             fd_data = drop HEADER_SIZE payload\<rparr>)"

section \<open>The length word\<close>

lemma max_message_size_flag: "n \<le> MAX_MESSAGE_SIZE \<Longrightarrow> n < 2 ^ 31"
  by (simp add: MAX_MESSAGE_SIZE_def)

lemma unpack_pack_u32 [simp]: "unpack_u32 (pack_u32 w) = w"
proof -
  have "unat w < 256 ^ 4" using unsigned_less [of w] by simp
  then show ?thesis by (simp add: unpack_u32_def pack_u32_def)
qed

lemma pack_unpack_u32: "length bs = 4 \<Longrightarrow> pack_u32 (unpack_u32 bs) = bs"
proof -
  assume len: "length bs = 4"
  then have "be_nat bs < 2 ^ 32" using be_nat_less [of bs] by simp
  then show ?thesis
    using len by (simp add: pack_u32_def unpack_u32_def unsigned_of_nat take_bit_nat_eq_self)
qed

lemma length_pack_u32 [simp]: "length (pack_u32 w) = 4"
  by (simp add: pack_u32_def)

lemma bit_flag: "bit BINARY_FLAG n \<longleftrightarrow> n = 31"
proof -
  have "BINARY_FLAG = push_bit 31 1" by (simp add: BINARY_FLAG_def)
  then have "bit BINARY_FLAG n \<longleftrightarrow> bit (push_bit 31 (1 :: 32 word)) n" by (simp only:)
  then show ?thesis by (auto simp: bit_push_bit_iff bit_1_iff simp del: push_bit_of_1)
qed

lemma unat_u32 [simp]: "n < 2 ^ 32 \<Longrightarrow> unat (word_of_nat n :: 32 word) = n"
  by (simp add: unsigned_of_nat take_bit_nat_eq_self)

lemma small_word_bit:
  assumes "n < 2 ^ 31" shows "\<not> bit (word_of_nat n :: 32 word) 31"
proof -
  have "bit (unat (word_of_nat n :: 32 word)) 31 \<longleftrightarrow> bit (word_of_nat n :: 32 word) 31"
    by (simp only: bit_unsigned_iff) simp
  moreover have "unat (word_of_nat n :: 32 word) = n" using assms by simp
  ultimately show ?thesis using assms by (simp add: bit_iff_odd)
qed

lemma flag_and: "w AND BINARY_FLAG \<noteq> 0 \<longleftrightarrow> bit w 31"
proof
  assume "bit w 31"
  then have "bit (w AND BINARY_FLAG) 31" by (simp add: bit_and_iff bit_flag)
  then show "w AND BINARY_FLAG \<noteq> 0" by (metis bit_0_eq bot_apply bot_bool_def)
next
  show "w AND BINARY_FLAG \<noteq> 0 \<Longrightarrow> bit w 31"
    by (rule ccontr, erule notE, rule bit_word_eqI) (auto simp: bit_and_iff bit_flag)
qed

lemma BINARY_FLAG_nonzero [simp]: "BINARY_FLAG \<noteq> 0"
  by (simp add: BINARY_FLAG_def)

lemma flag_and_not: "\<not> bit w 31 \<Longrightarrow> w AND NOT BINARY_FLAG = w"
  by (rule bit_word_eqI) (auto simp: bit_and_iff bit_not_iff bit_flag)

lemma flag_or_and_not: "(w OR BINARY_FLAG) AND NOT BINARY_FLAG = w AND NOT BINARY_FLAG"
  by (rule bit_word_eqI) (auto simp: bit_and_iff bit_or_iff bit_not_iff bit_flag)

lemma flag_and_not_or: "bit w 31 \<Longrightarrow> (w AND NOT BINARY_FLAG) OR BINARY_FLAG = w"
  by (rule bit_word_eqI) (auto simp: bit_and_iff bit_or_iff bit_not_iff bit_flag)

lemma flag_small [simp]:
  assumes "n < 2 ^ 31"
  shows "(word_of_nat n :: 32 word) AND BINARY_FLAG = 0"
    and "((word_of_nat n :: 32 word) OR BINARY_FLAG) AND BINARY_FLAG \<noteq> 0"
    and "unat ((word_of_nat n :: 32 word) AND NOT BINARY_FLAG) = n"
    and "unat (((word_of_nat n :: 32 word) OR BINARY_FLAG) AND NOT BINARY_FLAG) = n"
proof -
  let ?w = "word_of_nat n :: 32 word"
  have nb: "\<not> bit ?w 31" using assms by (rule small_word_bit)
  then show "?w AND BINARY_FLAG = 0" using flag_and [of ?w] by blast
  show "(?w OR BINARY_FLAG) AND BINARY_FLAG \<noteq> 0"
    unfolding flag_and by (simp add: bit_or_iff bit_flag)
  have unat: "unat ?w = n" using assms by simp
  with nb show "unat (?w AND NOT BINARY_FLAG) = n"
    "unat ((?w OR BINARY_FLAG) AND NOT BINARY_FLAG) = n"
    by (simp_all add: flag_and_not flag_or_and_not)
qed

section \<open>The frame codec\<close>

definition encode_any :: "any_frame \<Rightarrow> frame_error + bytes" where
  "encode_any f =
     (case f of JsonFrame v \<Rightarrow> encode_frame v | BinaryFrame p \<Rightarrow> encode_binary_frame p)"

text \<open>A frame a sender may put on the wire and the reader takes back.\<close>

definition sendable :: "any_frame \<Rightarrow> bool" where
  "sendable f \<longleftrightarrow>
     (case f of
        JsonFrame v \<Rightarrow> wf_json v \<and> length (json_dumps v) \<le> MAX_MESSAGE_SIZE
      | BinaryFrame p \<Rightarrow> p \<noteq> [] \<and> length p \<le> MAX_MESSAGE_SIZE)"

definition wire_bytes :: "any_frame \<Rightarrow> bytes" where
  "wire_bytes f = (case encode_any f of Inr bs \<Rightarrow> bs | Inl _ \<Rightarrow> [])"

lemma json_dumps_ascii: "wf_json v \<Longrightarrow> list_all is_ascii (json_dumps v)"
  by (simp add: json_dumps_def dump_ascii)

lemma json_dumps_utf8: "wf_json v \<Longrightarrow> utf8_encode (json_dumps v) = Some (ascii_bytes (json_dumps v))"
  by (simp add: utf8_encode_ascii json_dumps_ascii)

lemma length_ascii_bytes [simp]: "length (ascii_bytes s) = length s"
  by (simp add: ascii_bytes_def)

lemma json_dumps_nonempty: "wf_json v \<Longrightarrow> json_dumps v \<noteq> []"
  using dump_hd [of v "lit '', ''" "lit '': ''"] by (auto simp: json_dumps_def)

lemma encode_frame_Inr:
  assumes "wf_json v" "length (json_dumps v) \<le> MAX_MESSAGE_SIZE"
  shows "encode_frame v =
    Inr (pack_u32 (word_of_nat (length (json_dumps v))) @ ascii_bytes (json_dumps v))"
  using assms by (simp add: encode_frame_def json_dumps_utf8)

lemma decode_json_dumps: "wf_json v \<Longrightarrow> decode_json (ascii_bytes (json_dumps v)) = Inr v"
proof -
  assume v: "wf_json v"
  have "utf8_decode (ascii_bytes (json_dumps v)) = Some (json_dumps v)"
    using json_dumps_utf8 [OF v] by (rule utf8_decode_encode)
  then show ?thesis by (simp add: decode_json_def json_loads_dumps v)
qed

lemma readexactly_append [simp]: "length xs = n \<Longrightarrow> readexactly n (xs @ ys) = Inr (xs, ys)"
  by (auto simp: readexactly_def)

lemma read_raw_json:
  assumes "p \<noteq> []" "length p \<le> MAX_MESSAGE_SIZE"
  shows "read_raw (pack_u32 (word_of_nat (length p)) @ p @ rest) = Inr ((KJson, p), rest)"
  using assms max_message_size_flag [OF assms(2)]
  by (simp add: read_raw_def LENGTH_PREFIX_SIZE_def Let_def)

lemma read_raw_binary:
  assumes "p \<noteq> []" "length p \<le> MAX_MESSAGE_SIZE"
  shows "read_raw (pack_u32 (word_of_nat (length p) OR BINARY_FLAG) @ p @ rest) = Inr ((KBinary, p), rest)"
  using assms max_message_size_flag [OF assms(2)]
  by (simp add: read_raw_def LENGTH_PREFIX_SIZE_def Let_def)

lemma read_frame_encode:
  assumes "wf_json v" "length (json_dumps v) \<le> MAX_MESSAGE_SIZE"
  shows "\<exists>bs. encode_frame v = Inr bs \<and> read_frame (bs @ rest) = Inr (v, rest)"
proof -
  have "read_raw (pack_u32 (word_of_nat (length (json_dumps v))) @ ascii_bytes (json_dumps v) @ rest)
      = Inr ((KJson, ascii_bytes (json_dumps v)), rest)"
    using read_raw_json [of "ascii_bytes (json_dumps v)" rest] assms json_dumps_nonempty [of v]
    by (simp add: ascii_bytes_def)
  then show ?thesis
    using assms by (simp add: encode_frame_Inr read_frame_def decode_json_dumps)
qed

lemma read_any_frame_wire: "sendable f \<Longrightarrow> read_any_frame (wire_bytes f @ rest) = Inr (f, rest)"
proof (cases f)
  case (JsonFrame v)
  assume "sendable f"
  with JsonFrame have v: "wf_json v" "length (json_dumps v) \<le> MAX_MESSAGE_SIZE"
    by (simp_all add: sendable_def)
  then have "read_raw (wire_bytes f @ rest) = Inr ((KJson, ascii_bytes (json_dumps v)), rest)"
    using read_raw_json [of "ascii_bytes (json_dumps v)" rest] json_dumps_nonempty [of v]
    by (simp add: JsonFrame wire_bytes_def encode_any_def encode_frame_Inr ascii_bytes_def)
  with v JsonFrame show ?thesis by (simp add: read_any_frame_def decode_json_dumps)
next
  case (BinaryFrame p)
  assume "sendable f"
  with BinaryFrame have "read_raw (wire_bytes f @ rest) = Inr ((KBinary, p), rest)"
    by (simp add: sendable_def wire_bytes_def encode_any_def encode_binary_frame_def read_raw_binary)
  with BinaryFrame show ?thesis by (simp add: read_any_frame_def)
qed

interpretation wire: stream_codec wire_bytes read_any_frame sendable
  by unfold_locales (rule read_any_frame_wire)

section \<open>What the reader accepts\<close>

definition length_word :: "frame_kind \<Rightarrow> bytes \<Rightarrow> 32 word" where
  "length_word kind payload =
     (if kind = KBinary then word_of_nat (length payload) OR BINARY_FLAG
      else word_of_nat (length payload))"

lemma readexactly_Inr_iff:
  "readexactly n bs = Inr (p, rest) \<longleftrightarrow> bs = p @ rest \<and> length p = n"
  by (auto simp: readexactly_def split: if_splits)

lemma flag_length_word:
  fixes w :: "32 word"
  assumes "length p = unat (w AND NOT BINARY_FLAG)"
  shows "length_word (if w AND BINARY_FLAG \<noteq> 0 then KBinary else KJson) p = w"
proof (cases "bit w 31")
  case True
  then show ?thesis
    using assms flag_and_not_or [OF True] flag_and [of w] by (simp add: length_word_def)
next
  case False
  then show ?thesis
    using assms flag_and_not [OF False] flag_and [of w] by (simp add: length_word_def)
qed

text \<open>
  The frame reader accepts exactly the frames the two encoders write:
  it returns a payload of a kind and the rest of the stream if and only if the stream is the
  length word of that kind, the payload, and the rest, and the payload is not empty and at
  most \<^verbatim>\<open>MAX_MESSAGE_SIZE\<close> long.
\<close>

theorem read_raw_iff:
  "read_raw bs = Inr ((kind, p), rest) \<longleftrightarrow>
     bs = pack_u32 (length_word kind p) @ p @ rest \<and> p \<noteq> [] \<and> length p \<le> MAX_MESSAGE_SIZE"
proof
  assume "read_raw bs = Inr ((kind, p), rest)"
  then obtain h where h: "length h = 4" "bs = h @ p @ rest"
    and len: "length p = unat (unpack_u32 h AND NOT BINARY_FLAG)"
      "length p \<noteq> 0" "length p \<le> MAX_MESSAGE_SIZE"
    and kind: "kind = (if unpack_u32 h AND BINARY_FLAG \<noteq> 0 then KBinary else KJson)"
    by (auto simp: read_raw_def LENGTH_PREFIX_SIZE_def Let_def res_simps readexactly_Inr_iff
        split: if_splits)
  have "length_word kind p = unpack_u32 h"
    unfolding kind by (rule flag_length_word) (fact len(1))
  with h len show "bs = pack_u32 (length_word kind p) @ p @ rest \<and> p \<noteq> [] \<and> length p \<le> MAX_MESSAGE_SIZE"
    by (simp add: pack_unpack_u32) auto
next
  assume "bs = pack_u32 (length_word kind p) @ p @ rest \<and> p \<noteq> [] \<and> length p \<le> MAX_MESSAGE_SIZE"
  then show "read_raw bs = Inr ((kind, p), rest)"
    by (cases kind) (auto simp: length_word_def read_raw_json read_raw_binary)
qed



text \<open>
  An empty binary payload is framed without an error, but
  every reader refuses the frame: the length field is zero.
\<close>

theorem empty_binary_frame_rejected:
  "\<exists>bs. encode_binary_frame [] = Inr bs \<and>
     read_any_frame (bs @ rest) = Inl (ProtocolError (InvalidFrameLength 0))"
proof -
  have "readexactly 4 (pack_u32 BINARY_FLAG @ rest) = Inr (pack_u32 BINARY_FLAG, rest)"
    by (rule readexactly_append) simp
  then show ?thesis
    by (simp add: encode_binary_frame_def read_any_frame_def read_raw_def LENGTH_PREFIX_SIZE_def)
qed

section \<open>File chunks\<close>

lemma take_drop_chain:
  "take 16 p @ take 4 (drop 16 p) @ take 8 (drop 20 p) @ drop 28 p = p"
proof -
  have "drop 20 p = drop 4 (drop 16 p)" "drop 28 p = drop 8 (drop 20 p)" by simp_all
  then show ?thesis by (metis append_take_drop_id)
qed

text \<open>
  A chunk that is packed is unpacked to the same sequence number,
  offset and data, and to the canonical spelling of its transfer id.
\<close>

theorem decode_encode_file_data:
  assumes "encode_file_data tid seq off data = Inr payload"
  shows "\<exists>u. uuid_parse tid = Some u \<and>
    decode_file_data payload =
      Inr \<lparr>fd_transfer_id = uuid_str u, fd_sequence = nat seq, fd_offset = nat off, fd_data = data\<rparr>"
proof -
  from assms obtain u where u: "uuid_parse tid = Some u"
    and rng: "0 \<le> seq" "seq \<le> 0xFFFFFFFF" "0 \<le> off" "off \<le> 0xFFFFFFFFFFFFFFFF"
    and p: "payload = u @ be_bytes 4 (nat seq) @ be_bytes 8 (nat off) @ data"
    by (auto simp: encode_file_data_def split: option.splits if_splits)
  have len: "length u = 16" using u by (rule length_uuid_parse)
  have "nat seq < 256 ^ 4" "nat off < 256 ^ 8" using rng by (simp_all add: nat_less_iff)
  then have "be_nat (be_bytes 4 (nat seq)) = nat seq" "be_nat (be_bytes 8 (nat off)) = nat off"
    by (simp_all only: be_nat_be_bytes)
  with u len p show ?thesis
    by (simp add: decode_file_data_def HEADER_SIZE_def)
qed

theorem decode_encode_file_data_witness:
  "\<exists>payload. encode_file_data (uuid_str (replicate 16 7)) 3 98304 [1, 2, 3] = Inr payload \<and>
    (\<exists>u. uuid_parse (uuid_str (replicate 16 7)) = Some u \<and>
      decode_file_data payload =
        Inr \<lparr>fd_transfer_id = uuid_str u, fd_sequence = 3, fd_offset = 98304, fd_data = [1, 2, 3]\<rparr>)"
proof -
  let ?p = "replicate 16 7 @ be_bytes 4 3 @ be_bytes 8 98304 @ [1, 2, 3]"
  have "encode_file_data (uuid_str (replicate 16 7)) 3 98304 [1, 2, 3] = Inr ?p"
    by (simp add: encode_file_data_def uuid_parse_str)
  with decode_encode_file_data [OF this] show ?thesis by simp
qed

text \<open>
  Packing what was unpacked gives the payload back, so distinct
  payloads unpack to distinct chunks and no byte of a chunk frame is ignored; a payload
  shorter than the header is refused.
\<close>

theorem encode_decode_file_data:
  "(case decode_file_data payload of
      Inr d \<Rightarrow> encode_file_data (fd_transfer_id d) (int (fd_sequence d)) (int (fd_offset d)) (fd_data d)
        = Inr payload
    | Inl e \<Rightarrow> e = ProtocolError (FileDataTooShort (length payload)) \<and> length payload < 28)"
proof (cases "length payload < 28")
  case True
  then show ?thesis by (simp add: decode_file_data_def HEADER_SIZE_def)
next
  case False
  let ?s = "take 4 (drop 16 payload)" and ?o = "take 8 (drop 20 payload)"
  have len: "length ?s = 4" "length ?o = 8" using False by simp_all
  have "be_nat ?s < 256 ^ 4" "be_nat ?o < 256 ^ 8"
    using be_nat_less [of ?s] be_nat_less [of ?o] len by simp_all
  then have "int (be_nat ?s) \<le> 0xFFFFFFFF" "int (be_nat ?o) \<le> 0xFFFFFFFFFFFFFFFF" by simp_all
  then show ?thesis
    using False len take_drop_chain [of payload]
    by (simp add: decode_file_data_def encode_file_data_def HEADER_SIZE_def uuid_parse_str)
qed

end
