(* ===== verification/Messages.thy ===== *)
theory Messages
  imports Frame
begin

text \<open>
  Message types, factories and the schema check of \<^verbatim>\<open>core/protocol/messages.py\<close>. A message is
  the decoded JSON value. What the factories take from the clock and from \<^verbatim>\<open>uuid4\<close> is an
  argument: \<open>now\<close> is the text of the float that \<^verbatim>\<open>time.time()\<close> returns. A subscription of a
  missing key is a \<open>KeyError\<close> of the model, so that its absence is a theorem.
\<close>

section \<open>Reading fields\<close>

datatype message_reason =
    NotAnObject
  | MissingType
  | VersionNotInt
  | VersionTooOld int
  | MissingFields pystr "pystr list"
  | ChatTextNotString
  | ChatTextTooLong
  | OfferFilename
  | OfferSize
  | OfferChecksum
  | ChunkIndex
  | ChunkData
  | TcpPort pystr
  | HandshakeField pystr pystr
  | HandshakeSenderName pystr
  | HandshakeSignature pystr

datatype message_error = SchemaError message_reason | KeyError pystr

fun jget :: "json \<Rightarrow> pystr \<Rightarrow> json option" where
  "jget (JObj kvs) k = map_of kvs k"
| "jget _ k = None"

definition subscr :: "json \<Rightarrow> pystr \<Rightarrow> message_error + json" where
  "subscr m k = (case jget m k of Some v \<Rightarrow> Inr v | None \<Rightarrow> Inl (KeyError k))"

fun is_obj :: "json \<Rightarrow> bool" where
  "is_obj (JObj kvs) \<longleftrightarrow> True"
| "is_obj _ \<longleftrightarrow> False"

text \<open>\<^verbatim>\<open>isinstance(v, int)\<close> also holds of the booleans, which are the integers 0 and 1.\<close>

fun as_int :: "json \<Rightarrow> int option" where
  "as_int (JInt i) = Some i"
| "as_int (JBool b) = Some (if b then 1 else 0)"
| "as_int _ = None"

fun as_str :: "json \<Rightarrow> pystr option" where
  "as_str (JStr s) = Some s"
| "as_str _ = None"

definition is_str :: "json \<Rightarrow> bool" where
  "is_str v \<longleftrightarrow> as_str v \<noteq> None"

definition nonempty_str :: "json \<Rightarrow> bool" where
  "nonempty_str v \<longleftrightarrow> (case as_str v of Some s \<Rightarrow> s \<noteq> [] | None \<Rightarrow> False)"

definition nonneg_int :: "json \<Rightarrow> bool" where
  "nonneg_int v \<longleftrightarrow> (case as_int v of Some i \<Rightarrow> 0 \<le> i | None \<Rightarrow> False)"

definition port_int :: "json \<Rightarrow> bool" where
  "port_int v \<longleftrightarrow> (case as_int v of Some i \<Rightarrow> 0 < i \<and> i < 65536 | None \<Rightarrow> False)"

section \<open>Factories\<close>

definition MAX_CHAT_TEXT_SIZE :: nat where
  "MAX_CHAT_TEXT_SIZE = 64 * 1024"

definition PROTOCOL_VERSION :: int where
  "PROTOCOL_VERSION = 2"

definition MIN_SUPPORTED_VERSION :: int where
  "MIN_SUPPORTED_VERSION = 1"

abbreviation entry :: "string \<Rightarrow> json \<Rightarrow> pystr \<times> json" where
  "entry k v \<equiv> (lit k, v)"

definition typed :: "string \<Rightarrow> (pystr \<times> json) list \<Rightarrow> json" where
  "typed t kvs = JObj (entry ''type'' (JStr (lit t)) # entry ''version'' (JInt PROTOCOL_VERSION) # kvs)"

definition make_chat_message :: "pystr \<Rightarrow> pystr \<Rightarrow> pystr \<Rightarrow> pystr \<Rightarrow> pystr \<Rightarrow> json" where
  "make_chat_message new_id now sender_id sender_name text =
     typed ''chat''
       [entry ''message_id'' (JStr new_id), entry ''sender_id'' (JStr sender_id),
        entry ''sender_name'' (JStr sender_name), entry ''text'' (JStr text),
        entry ''timestamp'' (JFloat now)]"

definition make_chat_ack :: "pystr \<Rightarrow> pystr \<Rightarrow> json" where
  "make_chat_ack now message_id =
     typed ''chat_ack'' [entry ''message_id'' (JStr message_id), entry ''timestamp'' (JFloat now)]"

definition make_file_offer ::
  "pystr \<Rightarrow> pystr \<Rightarrow> pystr \<Rightarrow> pystr \<Rightarrow> pystr \<Rightarrow> int \<Rightarrow> pystr \<Rightarrow> json" where
  "make_file_offer now transfer_id sender_id sender_name filename file_size checksum =
     typed ''file_offer''
       [entry ''transfer_id'' (JStr transfer_id), entry ''sender_id'' (JStr sender_id),
        entry ''sender_name'' (JStr sender_name), entry ''filename'' (JStr filename),
        entry ''size'' (JInt file_size), entry ''checksum'' (JStr checksum),
        entry ''timestamp'' (JFloat now)]"

definition make_file_accept :: "pystr \<Rightarrow> pystr \<Rightarrow> json" where
  "make_file_accept now transfer_id =
     typed ''file_accept'' [entry ''transfer_id'' (JStr transfer_id), entry ''timestamp'' (JFloat now)]"

definition make_file_reject :: "pystr \<Rightarrow> pystr \<Rightarrow> json" where
  "make_file_reject now transfer_id =
     typed ''file_reject'' [entry ''transfer_id'' (JStr transfer_id), entry ''timestamp'' (JFloat now)]"

definition make_file_chunk :: "pystr \<Rightarrow> int \<Rightarrow> pystr \<Rightarrow> bool \<Rightarrow> json" where
  "make_file_chunk transfer_id chunk_index data_b64 is_last =
     typed ''file_chunk''
       [entry ''transfer_id'' (JStr transfer_id), entry ''chunk_index'' (JInt chunk_index),
        entry ''data'' (JStr data_b64), entry ''is_last'' (JBool is_last)]"

definition make_file_done :: "pystr \<Rightarrow> pystr \<Rightarrow> json" where
  "make_file_done transfer_id checksum =
     typed ''file_done'' [entry ''transfer_id'' (JStr transfer_id), entry ''checksum'' (JStr checksum)]"

definition make_file_complete_ack :: "pystr \<Rightarrow> bool \<Rightarrow> pystr \<Rightarrow> json" where
  "make_file_complete_ack transfer_id success detail =
     typed ''file_complete_ack''
       [entry ''transfer_id'' (JStr transfer_id), entry ''success'' (JBool success),
        entry ''detail'' (JStr detail)]"

definition make_error :: "pystr \<Rightarrow> pystr \<Rightarrow> json" where
  "make_error code message =
     typed ''error'' [entry ''code'' (JStr code), entry ''message'' (JStr message)]"

definition make_hello :: "pystr \<Rightarrow> pystr \<Rightarrow> pystr \<Rightarrow> int \<Rightarrow> json" where
  "make_hello now peer_id sender_name tcp_port =
     typed ''hello''
       [entry ''peer_id'' (JStr peer_id), entry ''sender_name'' (JStr sender_name),
        entry ''tcp_port'' (JInt tcp_port), entry ''timestamp'' (JFloat now)]"

definition make_hello_ack :: "pystr \<Rightarrow> pystr \<Rightarrow> pystr \<Rightarrow> int \<Rightarrow> json" where
  "make_hello_ack now peer_id sender_name tcp_port =
     typed ''hello_ack''
       [entry ''peer_id'' (JStr peer_id), entry ''sender_name'' (JStr sender_name),
        entry ''tcp_port'' (JInt tcp_port), entry ''timestamp'' (JFloat now)]"

definition make_handshake_init ::
  "pystr \<Rightarrow> pystr \<Rightarrow> pystr \<Rightarrow> pystr \<Rightarrow> pystr \<Rightarrow> pystr \<Rightarrow> json" where
  "make_handshake_init now device_id public_key ephemeral_key nonce sender_name =
     typed ''handshake_init''
       [entry ''device_id'' (JStr device_id), entry ''public_key'' (JStr public_key),
        entry ''ephemeral_key'' (JStr ephemeral_key), entry ''nonce'' (JStr nonce),
        entry ''sender_name'' (JStr sender_name), entry ''timestamp'' (JFloat now)]"

definition make_handshake_response ::
  "pystr \<Rightarrow> pystr \<Rightarrow> pystr \<Rightarrow> pystr \<Rightarrow> pystr \<Rightarrow> pystr \<Rightarrow> pystr \<Rightarrow> json" where
  "make_handshake_response now device_id public_key ephemeral_key nonce sender_name signature =
     typed ''handshake_response''
       [entry ''device_id'' (JStr device_id), entry ''public_key'' (JStr public_key),
        entry ''ephemeral_key'' (JStr ephemeral_key), entry ''nonce'' (JStr nonce),
        entry ''sender_name'' (JStr sender_name), entry ''signature'' (JStr signature),
        entry ''timestamp'' (JFloat now)]"

definition make_handshake_finish :: "pystr \<Rightarrow> pystr \<Rightarrow> json" where
  "make_handshake_finish now signature =
     typed ''handshake_finish'' [entry ''signature'' (JStr signature), entry ''timestamp'' (JFloat now)]"

section \<open>Schema validation\<close>

definition REQUIRED_FIELDS :: "(pystr, pystr list) dict" where
  "REQUIRED_FIELDS = map (\<lambda>(t, fs). (lit t, map lit fs))
     [(''chat'', [''message_id'', ''sender_id'', ''sender_name'', ''text'']),
      (''chat_ack'', [''message_id'']),
      (''file_offer'', [''transfer_id'', ''filename'', ''size'', ''checksum'']),
      (''file_accept'', [''transfer_id'']),
      (''file_reject'', [''transfer_id'']),
      (''file_chunk'', [''transfer_id'', ''chunk_index'', ''data'', ''is_last'']),
      (''file_done'', [''transfer_id'', ''checksum'']),
      (''file_complete_ack'', [''transfer_id'', ''success'']),
      (''hello'', [''peer_id'', ''sender_name'', ''tcp_port'']),
      (''hello_ack'', [''peer_id'', ''sender_name'', ''tcp_port'']),
      (''handshake_init'', [''device_id'', ''public_key'', ''ephemeral_key'', ''nonce'', ''sender_name'']),
      (''handshake_response'',
         [''device_id'', ''public_key'', ''ephemeral_key'', ''nonce'', ''sender_name'', ''signature'']),
      (''handshake_finish'', [''signature'']),
      (''error'', [''code'', ''message''])]"

text \<open>One \<^verbatim>\<open>if not isinstance(...)\<close> test on a field the message is known to have.\<close>

definition check_field :: "json \<Rightarrow> string \<Rightarrow> (json \<Rightarrow> bool) \<Rightarrow> message_reason \<Rightarrow> message_error + unit" where
  "check_field m f ok e = res_bind (subscr m (lit f)) (\<lambda>v. guard_res (ok v) (SchemaError e))"

definition chat_text_fits :: "json \<Rightarrow> bool" where
  "chat_text_fits v \<longleftrightarrow>
     (case as_str v of
        Some s \<Rightarrow> length (utf8_encode_replace s) \<le> MAX_CHAT_TEXT_SIZE
      | None \<Rightarrow> False)"

definition when_type :: "bool \<Rightarrow> message_error + unit \<Rightarrow> message_error + unit" where
  "when_type applies check = (if applies then check else Inr ())"

definition validate_type :: "json \<Rightarrow> message_error + pystr" where
  "validate_type m =
     (case jget m (lit ''type'') of
        Some v \<Rightarrow>
          (case as_str v of
             Some s \<Rightarrow> if s = [] then Inl (SchemaError MissingType) else Inr s
           | None \<Rightarrow> Inl (SchemaError MissingType))
      | None \<Rightarrow> Inl (SchemaError MissingType))"

definition validate_version :: "json \<Rightarrow> message_error + unit" where
  "validate_version m =
     (case as_int (case jget m (lit ''version'') of Some v \<Rightarrow> v | None \<Rightarrow> JInt 1) of
        None \<Rightarrow> Inl (SchemaError VersionNotInt)
      | Some v \<Rightarrow> guard_res (\<not> v < MIN_SUPPORTED_VERSION) (SchemaError (VersionTooOld v)))"

definition validate_fields :: "pystr \<Rightarrow> json \<Rightarrow> message_error + unit" where
  "validate_fields t m =
     res_bind (when_type (t = lit ''chat'')
       (res_bind (check_field m ''text'' is_str ChatTextNotString)
         (\<lambda>_. check_field m ''text'' chat_text_fits ChatTextTooLong))) (\<lambda>_.
     res_bind (when_type (t = lit ''file_offer'')
       (res_bind (check_field m ''filename'' nonempty_str OfferFilename) (\<lambda>_.
        res_bind (check_field m ''size'' nonneg_int OfferSize)
         (\<lambda>_. check_field m ''checksum'' nonempty_str OfferChecksum)))) (\<lambda>_.
     res_bind (when_type (t = lit ''file_chunk'')
       (res_bind (check_field m ''chunk_index'' nonneg_int ChunkIndex)
         (\<lambda>_. check_field m ''data'' is_str ChunkData))) (\<lambda>_.
     res_bind (when_type (t = lit ''hello'' \<or> t = lit ''hello_ack'')
       (check_field m ''tcp_port'' port_int (TcpPort t))) (\<lambda>_.
     res_bind (when_type (t = lit ''handshake_init'' \<or> t = lit ''handshake_response'')
       (res_bind (check_field m ''device_id'' nonempty_str (HandshakeField t (lit ''device_id''))) (\<lambda>_.
        res_bind (check_field m ''public_key'' nonempty_str (HandshakeField t (lit ''public_key''))) (\<lambda>_.
        res_bind (check_field m ''ephemeral_key'' nonempty_str (HandshakeField t (lit ''ephemeral_key''))) (\<lambda>_.
        res_bind (check_field m ''nonce'' nonempty_str (HandshakeField t (lit ''nonce'')))
         (\<lambda>_. check_field m ''sender_name'' is_str (HandshakeSenderName t))))))) (\<lambda>_.
     when_type (t = lit ''handshake_response'' \<or> t = lit ''handshake_finish'')
       (check_field m ''signature'' nonempty_str (HandshakeSignature t)))))))"

definition validate_required :: "pystr \<Rightarrow> json \<Rightarrow> message_error + json" where
  "validate_required msg_type message =
     (case map_of REQUIRED_FIELDS msg_type of
        None \<Rightarrow> Inr message
      | Some required \<Rightarrow>
          (case filter (\<lambda>f. jget message f = None) required of
             [] \<Rightarrow> res_bind (validate_fields msg_type message) (\<lambda>_. Inr message)
           | missing \<Rightarrow> Inl (SchemaError (MissingFields msg_type missing))))"

definition validate_message :: "json \<Rightarrow> message_error + json" where
  "validate_message message =
     (if \<not> is_obj message then Inl (SchemaError NotAnObject)
      else res_bind (validate_type message) (\<lambda>msg_type.
        res_bind (validate_version message) (\<lambda>_. validate_required msg_type message)))"

section \<open>The schema as a table\<close>

text \<open>
  What a message of each type must carry, as one table of field names and the values each
  may have. \<open>conforms\<close> reads it; the validator is proved to accept exactly what it says.
\<close>

definition any_value :: "json \<Rightarrow> bool" where
  "any_value v \<longleftrightarrow> True"

definition schema :: "(pystr, (pystr \<times> (json \<Rightarrow> bool)) list) dict" where
  "schema = map (\<lambda>(t, fs). (lit t, map (\<lambda>(f, ok). (lit f, ok)) fs))
     [(''chat'', [(''message_id'', any_value), (''sender_id'', any_value), (''sender_name'', any_value),
                  (''text'', chat_text_fits)]),
      (''chat_ack'', [(''message_id'', any_value)]),
      (''file_offer'', [(''transfer_id'', any_value), (''filename'', nonempty_str),
                        (''size'', nonneg_int), (''checksum'', nonempty_str)]),
      (''file_accept'', [(''transfer_id'', any_value)]),
      (''file_reject'', [(''transfer_id'', any_value)]),
      (''file_chunk'', [(''transfer_id'', any_value), (''chunk_index'', nonneg_int),
                        (''data'', is_str), (''is_last'', any_value)]),
      (''file_done'', [(''transfer_id'', any_value), (''checksum'', any_value)]),
      (''file_complete_ack'', [(''transfer_id'', any_value), (''success'', any_value)]),
      (''hello'', [(''peer_id'', any_value), (''sender_name'', any_value), (''tcp_port'', port_int)]),
      (''hello_ack'', [(''peer_id'', any_value), (''sender_name'', any_value), (''tcp_port'', port_int)]),
      (''handshake_init'',
         [(''device_id'', nonempty_str), (''public_key'', nonempty_str),
          (''ephemeral_key'', nonempty_str), (''nonce'', nonempty_str), (''sender_name'', is_str)]),
      (''handshake_response'',
         [(''device_id'', nonempty_str), (''public_key'', nonempty_str),
          (''ephemeral_key'', nonempty_str), (''nonce'', nonempty_str), (''sender_name'', is_str),
          (''signature'', nonempty_str)]),
      (''handshake_finish'', [(''signature'', nonempty_str)]),
      (''error'', [(''code'', any_value), (''message'', any_value)])]"

definition carries :: "json \<Rightarrow> (pystr \<times> (json \<Rightarrow> bool)) list \<Rightarrow> bool" where
  "carries m fs \<longleftrightarrow> (\<forall>(f, ok) \<in> set fs. \<exists>v. jget m f = Some v \<and> ok v)"

definition version_ok :: "json \<Rightarrow> bool" where
  "version_ok m \<longleftrightarrow>
     (\<forall>v. jget m (lit ''version'') = Some v \<longrightarrow> (\<exists>i \<ge> 1. as_int v = Some i))"

definition conforms :: "json \<Rightarrow> bool" where
  "conforms m \<longleftrightarrow>
     (\<exists>t. jget m (lit ''type'') = Some (JStr t) \<and> t \<noteq> []
        \<and> version_ok m
        \<and> (case map_of schema t of None \<Rightarrow> True | Some fs \<Rightarrow> carries m fs))"

lemma as_str_Some [simp]: "as_str v = Some s \<longleftrightarrow> v = JStr s"
  by (cases v) auto

lemma validate_type_iff: "validate_type m = Inr t \<longleftrightarrow> jget m (lit ''type'') = Some (JStr t) \<and> t \<noteq> []"
  by (auto simp: validate_type_def split: option.splits if_splits)

lemma validate_version_iff: "validate_version m = Inr u \<longleftrightarrow> version_ok m"
  by (auto simp: validate_version_def version_ok_def MIN_SUPPORTED_VERSION_def res_simps
      split: option.splits)

lemma check_field_iff [simp]:
  "check_field m f ok e = Inr u \<longleftrightarrow> (\<exists>v. jget m (lit f) = Some v \<and> ok v)"
  by (auto simp: check_field_def subscr_def res_simps split: option.splits)

lemma when_type_iff [simp]: "when_type b c = Inr u \<longleftrightarrow> (b \<longrightarrow> c = Inr u)"
  by (cases u) (simp add: when_type_def)

lemma res_bind_unit: "res_bind c (\<lambda>_. d) = Inr u \<longleftrightarrow> c = Inr () \<and> d = Inr u"
  by (cases c) auto

lemma chat_text_is_str: "chat_text_fits v \<Longrightarrow> is_str v"
  by (auto simp: chat_text_fits_def is_str_def split: option.splits)

lemma validate_fields_iff:
  "validate_fields t m = Inr u \<longleftrightarrow>
    (t = lit ''chat'' \<longrightarrow> carries m [(lit ''text'', chat_text_fits)]) \<and>
    (t = lit ''file_offer'' \<longrightarrow>
      carries m [(lit ''filename'', nonempty_str), (lit ''size'', nonneg_int), (lit ''checksum'', nonempty_str)]) \<and>
    (t = lit ''file_chunk'' \<longrightarrow> carries m [(lit ''chunk_index'', nonneg_int), (lit ''data'', is_str)]) \<and>
    (t = lit ''hello'' \<or> t = lit ''hello_ack'' \<longrightarrow> carries m [(lit ''tcp_port'', port_int)]) \<and>
    (t = lit ''handshake_init'' \<or> t = lit ''handshake_response'' \<longrightarrow>
      carries m [(lit ''device_id'', nonempty_str), (lit ''public_key'', nonempty_str),
        (lit ''ephemeral_key'', nonempty_str), (lit ''nonce'', nonempty_str), (lit ''sender_name'', is_str)]) \<and>
    (t = lit ''handshake_response'' \<or> t = lit ''handshake_finish'' \<longrightarrow>
      carries m [(lit ''signature'', nonempty_str)])"
proof -
  have "(\<exists>v. jget m (lit ''text'') = Some v \<and> is_str v) \<and> (\<exists>v. jget m (lit ''text'') = Some v \<and> chat_text_fits v)
      \<longleftrightarrow> (\<exists>v. jget m (lit ''text'') = Some v \<and> chat_text_fits v)"
    using chat_text_is_str by auto
  then show ?thesis
    unfolding validate_fields_def
    by (simp only: res_bind_unit when_type_iff check_field_iff carries_def list.set ball_simps
        prod.case insert_iff simp_thms conj_assoc)
qed

definition no_missing :: "json \<Rightarrow> pystr list \<Rightarrow> bool" where
  "no_missing m fs \<longleftrightarrow> filter (\<lambda>f. jget m f = None) fs = []"

lemma validate_required_Inr:
  "validate_required t m = Inr m' \<longleftrightarrow>
     m' = m \<and> (case map_of REQUIRED_FIELDS t of None \<Rightarrow> True
        | Some fs \<Rightarrow> no_missing m fs \<and> validate_fields t m = Inr ())"
proof (cases "map_of REQUIRED_FIELDS t")
  case (Some fs)
  then show ?thesis
    by (cases "filter (\<lambda>f. jget m f = None) fs")
      (auto simp: validate_required_def res_simps no_missing_def)
qed (auto simp: validate_required_def)

lemma validate_message_Inr:
  "validate_message m = Inr m' \<longleftrightarrow>
     m' = m \<and> (\<exists>t. jget m (lit ''type'') = Some (JStr t) \<and> t \<noteq> [] \<and> version_ok m \<and>
       (case map_of REQUIRED_FIELDS t of None \<Rightarrow> True
        | Some fs \<Rightarrow> no_missing m fs \<and> validate_fields t m = Inr ()))"
proof (cases "is_obj m")
  case True
  then show ?thesis
    by (auto simp: validate_message_def res_simps validate_type_iff validate_version_iff
        validate_required_Inr)
next
  case False
  then have "jget m (lit ''type'') = None" by (cases m) auto
  with False show ?thesis by (auto simp: validate_message_def)
qed

lemma no_missing_Nil [simp]: "no_missing m []"
  by (simp add: no_missing_def)

lemma no_missing_Cons [simp]: "no_missing m (f # fs) \<longleftrightarrow> (\<exists>v. jget m f = Some v) \<and> no_missing m fs"
  by (auto simp: no_missing_def)

lemma carries_Nil [simp]: "carries m []"
  by (simp add: carries_def)

lemma carries_Cons [simp]:
  "carries m ((f, ok) # fs) \<longleftrightarrow> (\<exists>v. jget m f = Some v \<and> ok v) \<and> carries m fs"
  by (simp add: carries_def)

definition message_types :: "string list" where
  "message_types =
     [''chat'', ''chat_ack'', ''file_offer'', ''file_accept'', ''file_reject'', ''file_chunk'',
      ''file_done'', ''file_complete_ack'', ''hello'', ''hello_ack'', ''handshake_init'',
      ''handshake_response'', ''handshake_finish'', ''error'']"

lemma schema_keys: "map fst schema = map lit message_types"
  by (simp add: schema_def message_types_def)

lemma required_keys: "map fst REQUIRED_FIELDS = map lit message_types"
  by (simp add: REQUIRED_FIELDS_def message_types_def)

lemma message_types_cases:
  "ty \<in> set message_types \<Longrightarrow>
    ty = ''chat'' \<or> ty = ''chat_ack'' \<or> ty = ''file_offer'' \<or> ty = ''file_accept'' \<or>
    ty = ''file_reject'' \<or> ty = ''file_chunk'' \<or> ty = ''file_done'' \<or> ty = ''file_complete_ack'' \<or>
    ty = ''hello'' \<or> ty = ''hello_ack'' \<or> ty = ''handshake_init'' \<or> ty = ''handshake_response'' \<or>
    ty = ''handshake_finish'' \<or> ty = ''error''"
  by (simp add: message_types_def)

lemma required_iff_schema:
  assumes "ty \<in> set message_types"
  shows "(case map_of REQUIRED_FIELDS (lit ty) of None \<Rightarrow> True
      | Some fs \<Rightarrow> no_missing m fs \<and> validate_fields (lit ty) m = Inr ())
    \<longleftrightarrow> (case map_of schema (lit ty) of None \<Rightarrow> True | Some fs \<Rightarrow> carries m fs)"
proof -
  from message_types_cases [OF assms] show ?thesis
    by (elim disjE; hypsubst; simp add: REQUIRED_FIELDS_def schema_def validate_fields_iff any_value_def;
        auto?)
qed

lemma check_field_present:
  "jget m (lit f) = Some v \<Longrightarrow> check_field m f ok e = (if ok v then Inr () else Inl (SchemaError e))"
  by (simp add: check_field_def subscr_def guard_res_def)

lemma validate_fields_no_KeyError:
  assumes "ty \<in> set message_types" and "map_of REQUIRED_FIELDS (lit ty) = Some fs" and "no_missing m fs"
  shows "validate_fields (lit ty) m \<noteq> Inl (KeyError k)"
  using message_types_cases [OF assms(1)] assms(2,3)
  by (elim disjE; hypsubst;
      clarsimp simp: REQUIRED_FIELDS_def validate_fields_def when_type_def check_field_present
        split: if_splits)

lemma known_type:
  assumes "map_of REQUIRED_FIELDS t = Some fs"
  shows "\<exists>ty \<in> set message_types. t = lit ty"
proof -
  have "t \<in> set (map fst REQUIRED_FIELDS)"
    using assms by (metis image_eqI list.set_map map_of_SomeD fst_conv)
  then show ?thesis by (auto simp: required_keys)
qed

lemma required_None_iff: "map_of REQUIRED_FIELDS t = None \<longleftrightarrow> map_of schema t = None"
  by (metis list.set_map map_of_eq_None_iff required_keys schema_keys)

lemma validate_iff_schema: "validate_message m = Inr m' \<longleftrightarrow> m' = m \<and> conforms m"
proof -
  have "(case map_of REQUIRED_FIELDS t of None \<Rightarrow> True
      | Some fs \<Rightarrow> no_missing m fs \<and> validate_fields t m = Inr ())
    \<longleftrightarrow> (case map_of schema t of None \<Rightarrow> True | Some fs \<Rightarrow> carries m fs)" for t
  proof (cases "map_of REQUIRED_FIELDS t")
    case None
    then show ?thesis using required_None_iff [of t] by simp
  next
    case (Some fs)
    then obtain ty where ty: "ty \<in> set message_types" and t: "t = lit ty" using known_type by blast
    show ?thesis unfolding t by (rule required_iff_schema [OF ty])
  qed
  then show ?thesis by (simp only: validate_message_Inr conforms_def)
qed

text \<open>
  Claim C26. The validator, a chain of conditional checks, accepts exactly
  the messages the schema table describes, and returns what it accepts unchanged.
\<close>

theorem validate_iff_conforms: "validate_message m = Inr m' \<longleftrightarrow> m' = m \<and> conforms m"
  by (rule validate_iff_schema)

text \<open>
  Whatever JSON value a peer sends, the validator never fails
  with a \<^verbatim>\<open>KeyError\<close>: it returns the message or raises the protocol's own error.
\<close>

theorem validate_never_KeyError: "validate_message m \<noteq> Inl (KeyError k)"
proof
  assume *: "validate_message m = Inl (KeyError k)"
  have "validate_type m \<noteq> Inl (KeyError k)" "validate_version m \<noteq> Inl (KeyError k)"
    by (auto simp: validate_type_def validate_version_def guard_res_def split: option.splits)
  with * obtain t where "validate_required t m = Inl (KeyError k)"
    by (auto simp: validate_message_def res_simps split: if_splits)
  then obtain fs where fs: "map_of REQUIRED_FIELDS t = Some fs"
    and nm: "no_missing m fs" and bad: "validate_fields t m = Inl (KeyError k)"
    by (auto simp: validate_required_def no_missing_def res_simps split: option.splits list.splits)
  obtain ty where "ty \<in> set message_types" "t = lit ty" using known_type [OF fs] by blast
  then show False using validate_fields_no_KeyError [of ty fs m k] fs nm bad by simp
qed

lemma jget_typed [simp]:
  "jget (typed t kvs) (lit k) =
     (if k = ''type'' then Some (JStr (lit t))
      else if k = ''version'' then Some (JInt PROTOCOL_VERSION) else map_of kvs (lit k))"
  by (auto simp: typed_def)

lemma conforms_typed_iff:
  "t \<noteq> [] \<Longrightarrow> conforms (typed t kvs) \<longleftrightarrow>
     (case map_of schema (lit t) of None \<Rightarrow> True | Some fs \<Rightarrow> carries (typed t kvs) fs)"
  by (simp add: conforms_def version_ok_def PROTOCOL_VERSION_def)

lemmas make_defs =
  make_chat_message_def make_chat_ack_def make_file_offer_def make_file_accept_def
  make_file_reject_def make_file_chunk_def make_file_done_def make_file_complete_ack_def
  make_error_def make_hello_def make_hello_ack_def make_handshake_init_def
  make_handshake_response_def make_handshake_finish_def

lemmas field_oks =
  any_value_def is_str_def nonempty_str_def nonneg_int_def port_int_def chat_text_fits_def

lemma handshake_messages_conform:
  assumes "dev \<noteq> []" "pk \<noteq> []" "eph \<noteq> []" "nonce \<noteq> []" "sig \<noteq> []"
  shows "conforms (make_handshake_init now dev pk eph nonce name)"
    and "conforms (make_handshake_response now dev pk eph nonce name sig)"
    and "conforms (make_handshake_finish now sig)"
  unfolding make_defs using assms by (simp_all add: conforms_typed_iff schema_def field_oks)

lemma file_messages_conform:
  assumes "filename \<noteq> []" "checksum \<noteq> []" "0 \<le> file_size" "0 \<le> idx"
  shows "conforms (make_file_offer now tid sid name filename file_size checksum)"
    and "conforms (make_file_accept now tid)"
    and "conforms (make_file_reject now tid)"
    and "conforms (make_file_chunk tid idx data is_last)"
    and "conforms (make_file_done tid cs)"
    and "conforms (make_file_complete_ack tid success detail)"
  unfolding make_defs using assms by (simp_all add: conforms_typed_iff schema_def field_oks)

lemma chat_messages_conform:
  assumes "length (utf8_encode_replace body) \<le> MAX_CHAT_TEXT_SIZE" "0 < port" "port < 65536"
  shows "conforms (make_chat_message mid now sid name body)"
    and "conforms (make_chat_ack now mid)"
    and "conforms (make_hello now pid name port)"
    and "conforms (make_hello_ack now pid name port)"
    and "conforms (make_error code msg)"
  unfolding make_defs using assms by (simp_all add: conforms_typed_iff schema_def field_oks)

text \<open>
  Every message the factories build is one the validator accepts,
  under the conditions the fields must meet: key material and signatures that are not empty,
  a file name and checksum that are not empty, a size and index that are not negative, a text
  within the limit, and a port in range.
\<close>

theorem factories_conform:
  assumes "dev \<noteq> []" "pk \<noteq> []" "eph \<noteq> []" "nonce \<noteq> []" "sig \<noteq> []"
    and "filename \<noteq> []" "checksum \<noteq> []" "0 \<le> file_size" "0 \<le> idx"
    and "length (utf8_encode_replace body) \<le> MAX_CHAT_TEXT_SIZE" "0 < port" "port < 65536"
    and "m \<in> {make_chat_message mid now sid name body, make_chat_ack now mid,
      make_file_offer now tid sid name filename file_size checksum, make_file_accept now tid,
      make_file_reject now tid, make_file_chunk tid idx data is_last, make_file_done tid cs,
      make_file_complete_ack tid success detail, make_error code msg,
      make_hello now pid name port, make_hello_ack now pid name port,
      make_handshake_init now dev pk eph nonce name,
      make_handshake_response now dev pk eph nonce name sig, make_handshake_finish now sig}"
  shows "validate_message m = Inr m"
proof -
  have "conforms m"
    using assms(13)
    by (auto simp: handshake_messages_conform [OF assms(1-5)] file_messages_conform [OF assms(6-9)]
        chat_messages_conform [OF assms(10-12)])
  then show ?thesis
    using validate_iff_schema [of m m] by simp
qed

theorem factories_conform_witness:
  "validate_message (make_hello (lit ''1.5'') (lit ''p1'') (lit ''ann'') 5000)
     = Inr (make_hello (lit ''1.5'') (lit ''p1'') (lit ''ann'') 5000)"
  by (rule factories_conform [where dev = "[1]" and pk = "[1]" and eph = "[1]" and nonce = "[1]"
        and sig = "[1]" and filename = "[1]" and checksum = "[1]" and file_size = 0 and idx = 0
        and body = "[]" and port = 5000 and now = "lit ''1.5''" and pid = "lit ''p1''"
        and name = "lit ''ann''"])
    (simp_all add: MAX_CHAT_TEXT_SIZE_def utf8_encode_replace_def)

end
