(* ===== verification/Security_Events.thy ===== *)
theory Security_Events
  imports Json_Roundtrip Encodings "HOL-Library.List_Lexorder"
begin

text \<open>
  Security events of \<^verbatim>\<open>core/security/events.py\<close>: the severities and their order, the event
  types, the redaction of secrets in event details, the payload an audit signature covers,
  and the listeners an event is handed to. A double is its 64-bit pattern. A listener is a
  name; whether the callback behind it raises is an argument.
\<close>

section \<open>Severities and event types\<close>

datatype SecuritySeverity = INFO | WARNING | HIGH | CRITICAL

definition rank :: "SecuritySeverity \<Rightarrow> nat" where
  "rank s = (case s of INFO \<Rightarrow> 10 | WARNING \<Rightarrow> 20 | HIGH \<Rightarrow> 30 | CRITICAL \<Rightarrow> 40)"

definition to_logging_level :: "SecuritySeverity \<Rightarrow> nat" where
  "to_logging_level s = (case s of INFO \<Rightarrow> 20 | WARNING \<Rightarrow> 30 | HIGH \<Rightarrow> 40 | CRITICAL \<Rightarrow> 50)"

instantiation SecuritySeverity :: linorder
begin

definition less_SecuritySeverity :: "SecuritySeverity \<Rightarrow> SecuritySeverity \<Rightarrow> bool" where
  "less_SecuritySeverity a b \<longleftrightarrow> rank a < rank b"

definition less_eq_SecuritySeverity :: "SecuritySeverity \<Rightarrow> SecuritySeverity \<Rightarrow> bool" where
  "less_eq_SecuritySeverity a b \<longleftrightarrow> rank a \<le> rank b"

instance
proof
  fix x y :: SecuritySeverity
  show "x \<le> y \<Longrightarrow> y \<le> x \<Longrightarrow> x = y"
    by (cases x; cases y) (simp_all add: less_eq_SecuritySeverity_def rank_def)
qed (auto simp: less_SecuritySeverity_def less_eq_SecuritySeverity_def)

end

definition severity_value :: "SecuritySeverity \<Rightarrow> pystr" where
  "severity_value s =
     lit (case s of INFO \<Rightarrow> ''INFO'' | WARNING \<Rightarrow> ''WARNING'' | HIGH \<Rightarrow> ''HIGH'' | CRITICAL \<Rightarrow> ''CRITICAL'')"

datatype SecurityEventType =
    ENDPOINT_CHANGED | KEY_ROTATION
  | UNKNOWN_DEVICE | IDENTITY_CHANGED | AUTH_FAILED | INVALID_ROTATION
  | REVOKED_DEVICE_ATTEMPT | REPEATED_AUTH_FAILURES | REPLAY_DETECTED | SUSPICIOUS_AUTHORIZATION
  | ADMIN_KEY_COMPROMISE | PRIVATE_KEY_COMPROMISE | INVALID_AUTHORITY_CHAIN

definition event_type_value :: "SecurityEventType \<Rightarrow> pystr" where
  "event_type_value t =
     lit (case t of
        ENDPOINT_CHANGED \<Rightarrow> ''endpoint_changed''
      | KEY_ROTATION \<Rightarrow> ''key_rotation''
      | UNKNOWN_DEVICE \<Rightarrow> ''unknown_device''
      | IDENTITY_CHANGED \<Rightarrow> ''identity_changed''
      | AUTH_FAILED \<Rightarrow> ''auth_failed''
      | INVALID_ROTATION \<Rightarrow> ''invalid_rotation''
      | REVOKED_DEVICE_ATTEMPT \<Rightarrow> ''revoked_device_attempt''
      | REPEATED_AUTH_FAILURES \<Rightarrow> ''repeated_auth_failures''
      | REPLAY_DETECTED \<Rightarrow> ''replay_detected''
      | SUSPICIOUS_AUTHORIZATION \<Rightarrow> ''suspicious_authorization''
      | ADMIN_KEY_COMPROMISE \<Rightarrow> ''admin_key_compromise''
      | PRIVATE_KEY_COMPROMISE \<Rightarrow> ''private_key_compromise''
      | INVALID_AUTHORITY_CHAIN \<Rightarrow> ''invalid_authority_chain'')"

text \<open>
  What the other components' models keep of an event they emit: its type, severity and
  device. The descriptions are text for people.
\<close>

type_synonym notice = "SecurityEventType \<times> SecuritySeverity \<times> pystr option"

section \<open>Redaction\<close>

definition SENSITIVE_KEYS :: "pystr list" where
  "SENSITIVE_KEYS = map lit
     [''private_key'', ''session_key'', ''secret'', ''password'', ''key_hex'', ''seed'', ''token'',
      ''shared_secret'']"

text \<open>
  \<^verbatim>\<open>str.lower\<close> as far as the search for an ASCII word can see it: two characters outside
  ASCII (the Kelvin sign and the dotted capital I) have a lower case with an ASCII letter,
  and no other character does.
\<close>

definition lower_char :: "nat \<Rightarrow> pystr" where
  "lower_char c =
     (if 65 \<le> c \<and> c \<le> 90 then [c + 32]
      else if c = 0x212A then [107]
      else if c = 0x130 then [105, 0x307]
      else [c])"

definition lower :: "pystr \<Rightarrow> pystr" where
  "lower s = concat (map lower_char s)"

fun contains_word :: "pystr \<Rightarrow> pystr \<Rightarrow> bool" where
  "contains_word w [] \<longleftrightarrow> w = []"
| "contains_word w (c # s) \<longleftrightarrow> take (length w) (c # s) = w \<or> contains_word w s"

definition sensitive :: "pystr \<Rightarrow> bool" where
  "sensitive k \<longleftrightarrow> list_ex (\<lambda>s. contains_word s (lower k)) SENSITIVE_KEYS"

definition REDACTED :: json where
  "REDACTED = JStr (lit ''[REDACTED]'')"

fun sanitize_value :: "json \<Rightarrow> json"
  and sanitize_members :: "(pystr \<times> json) list \<Rightarrow> (pystr \<times> json) list"
  and sanitize_elems :: "json list \<Rightarrow> json list" where
  "sanitize_value (JObj kvs) = JObj (sanitize_members kvs)"
| "sanitize_value (JList vs) = JList (sanitize_elems vs)"
| "sanitize_value v = v"
| "sanitize_members [] = []"
| "sanitize_members ((k, v) # kvs) =
     (k, if sensitive k then REDACTED else sanitize_value v) # sanitize_members kvs"
| "sanitize_elems [] = []"
| "sanitize_elems (v # vs) = sanitize_value v # sanitize_elems vs"

section \<open>Events\<close>

type_synonym double = "64 word"

record SecurityEvent =
  ev_type :: pystr
  ev_severity :: SecuritySeverity
  ev_description :: pystr
  ev_device_id :: "pystr option"
  ev_timestamp :: double
  ev_details :: json
  ev_signature :: "pystr option"
  ev_signer_device_id :: "pystr option"

definition make_event ::
  "pystr \<Rightarrow> SecuritySeverity \<Rightarrow> pystr \<Rightarrow> pystr option \<Rightarrow> double \<Rightarrow> json \<Rightarrow> pystr option \<Rightarrow> pystr option
     \<Rightarrow> SecurityEvent" where
  "make_event ty sev descr dev ts details sig signer =
     \<lparr>ev_type = ty, ev_severity = sev, ev_description = descr, ev_device_id = dev,
      ev_timestamp = ts, ev_details = sanitize_value details, ev_signature = sig,
      ev_signer_device_id = signer\<rparr>"

definition opt_str :: "pystr option \<Rightarrow> json" where
  "opt_str x = (case x of Some s \<Rightarrow> JStr s | None \<Rightarrow> JNull)"

text \<open>The text a float is printed as is an argument, \<open>show_float\<close>.\<close>

definition event_to_dict :: "(double \<Rightarrow> pystr) \<Rightarrow> SecurityEvent \<Rightarrow> json" where
  "event_to_dict show_float e =
     JObj ([(lit ''event_type'', JStr (ev_type e)),
            (lit ''severity'', JStr (severity_value (ev_severity e))),
            (lit ''description'', JStr (ev_description e)),
            (lit ''device_id'', opt_str (ev_device_id e)),
            (lit ''timestamp'', JFloat (show_float (ev_timestamp e))),
            (lit ''details'', ev_details e)]
        @ (case ev_signature e of Some s \<Rightarrow> [(lit ''signature'', JStr s)] | None \<Rightarrow> [])
        @ (case ev_signer_device_id e of Some s \<Rightarrow> [(lit ''signer_device_id'', JStr s)] | None \<Rightarrow> []))"

fun sort_keys :: "json \<Rightarrow> json"
  and sort_members :: "(pystr \<times> json) list \<Rightarrow> (pystr \<times> json) list"
  and sort_elems :: "json list \<Rightarrow> json list" where
  "sort_keys (JObj kvs) = JObj (sort_key fst (sort_members kvs))"
| "sort_keys (JList vs) = JList (sort_elems vs)"
| "sort_keys v = v"
| "sort_members [] = []"
| "sort_members ((k, v) # kvs) = (k, sort_keys v) # sort_members kvs"
| "sort_elems [] = []"
| "sort_elems (v # vs) = sort_keys v # sort_elems vs"

definition pack_double :: "double \<Rightarrow> bytes" where
  "pack_double d = be_bytes 8 (unat d)"

definition EVENT_DOMAIN :: bytes where
  "EVENT_DOMAIN = blit ''peerc-security-event'' @ [0]"

definition device_text :: "SecurityEvent \<Rightarrow> pystr" where
  "device_text e = (case ev_device_id e of Some d \<Rightarrow> d | None \<Rightarrow> [])"

definition canonical_payload :: "SecurityEvent \<Rightarrow> bytes option" where
  "canonical_payload e =
     (let details_json = dump (lit '','') (lit '':'') (sort_keys (ev_details e));
          device = device_text e in
      case (utf8_encode (severity_value (ev_severity e)), utf8_encode (ev_type e), utf8_encode device,
            utf8_encode (ev_description e), utf8_encode details_json) of
        (Some sev, Some ty, Some dev, Some descr, Some details) \<Rightarrow>
          Some (EVENT_DOMAIN @ pack_double (ev_timestamp e) @ [0] @ sev @ [0] @ ty @ [0] @ dev @ [0]
            @ descr @ [0] @ details)
      | _ \<Rightarrow> None)"

section \<open>Listeners\<close>

definition add_listener :: "'l list \<Rightarrow> 'l \<Rightarrow> 'l list" where
  "add_listener ls l = (if l \<in> set ls then ls else ls @ [l])"

definition remove_listener :: "'l list \<Rightarrow> 'l \<Rightarrow> 'l list" where
  "remove_listener ls l = (if l \<in> set ls then remove1 l ls else ls)"

text \<open>
  \<open>emit\<close> logs the event and calls every listener of a snapshot of the list; \<open>raises\<close> tells
  whether the listener raises, which is logged as a warning and stops nothing. The result is
  the log: the level of the event first, and a call per listener.
\<close>

datatype 'l emission = Logged nat | Called 'l SecurityEvent | ListenerWarning 'l

definition emit :: "('l \<Rightarrow> SecurityEvent \<Rightarrow> bool) \<Rightarrow> 'l list \<Rightarrow> SecurityEvent \<Rightarrow> 'l emission list" where
  "emit raises ls e =
     Logged (to_logging_level (ev_severity e)) #
     concat (map (\<lambda>l. if raises l e then [Called l e, ListenerWarning l] else [Called l e]) ls)"

text \<open>The events a handler registered for the time of a block has captured after it.\<close>

definition capture_security_events ::
  "('l \<Rightarrow> SecurityEvent \<Rightarrow> bool) \<Rightarrow> 'l list \<Rightarrow> 'l \<Rightarrow> SecurityEvent list \<Rightarrow> 'l list \<times> SecurityEvent list" where
  "capture_security_events raises ls handler block =
     (remove_listener (add_listener ls handler) handler,
      concat (map (\<lambda>e. concat (map (\<lambda>x. case x of Called l e' \<Rightarrow> if l = handler then [e'] else [] | _ \<Rightarrow> [])
        (emit raises (add_listener ls handler) e))) block))"

section \<open>No secret survives redaction\<close>

fun clean :: "json \<Rightarrow> bool"
  and clean_members :: "(pystr \<times> json) list \<Rightarrow> bool"
  and clean_elems :: "json list \<Rightarrow> bool" where
  "clean (JObj kvs) \<longleftrightarrow> clean_members kvs"
| "clean (JList vs) \<longleftrightarrow> clean_elems vs"
| "clean v \<longleftrightarrow> True"
| "clean_members [] \<longleftrightarrow> True"
| "clean_members ((k, v) # kvs) \<longleftrightarrow>
     (if sensitive k then v = REDACTED else clean v) \<and> clean_members kvs"
| "clean_elems [] \<longleftrightarrow> True"
| "clean_elems (v # vs) \<longleftrightarrow> clean v \<and> clean_elems vs"

lemma sanitize_clean:
  "clean (sanitize_value v)" "clean_members (sanitize_members kvs)" "clean_elems (sanitize_elems vs)"
  by (induction v and kvs and vs rule: sanitize_value_sanitize_members_sanitize_elems.induct) auto

lemma sanitize_fixes_iff_clean:
  "sanitize_value v = v \<longleftrightarrow> clean v" "sanitize_members kvs = kvs \<longleftrightarrow> clean_members kvs"
  "sanitize_elems vs = vs \<longleftrightarrow> clean_elems vs"
  by (induction v and kvs and vs rule: sanitize_value_sanitize_members_sanitize_elems.induct) auto


section \<open>The audit payload\<close>

lemma sort_members_fst: "map fst (sort_members kvs) = map fst kvs"
  by (induction kvs) auto

lemma wf_sort_keys:
  "wf_json v \<Longrightarrow> wf_json (sort_keys v)" "wf_members kvs \<Longrightarrow> wf_members (sort_members kvs)"
  "wf_elems vs \<Longrightarrow> wf_elems (sort_elems vs)"
proof (induction v and kvs and vs rule: sort_keys_sort_members_sort_elems.induct)
  case (1 kvs)
  then have "distinct (map fst (sort_members kvs))"
    by (simp add: sort_members_fst dict_ok_def)
  then have "distinct (map fst (sort_key fst (sort_members kvs)))"
    by (simp add: distinct_map)
  with 1 show ?case by (auto simp: dict_ok_def wf_members_iff)
qed auto

lemma severity_value_inj: "severity_value s = severity_value t \<Longrightarrow> s = t"
  by (cases s; cases t) (simp_all add: severity_value_def)

lemma pack_double_inj: "pack_double a = pack_double b \<Longrightarrow> a = b"
proof -
  have "unat d < 256 ^ 8" for d :: double using unsigned_less [of d] by simp
  then show "pack_double a = pack_double b \<Longrightarrow> a = b"
    by (simp add: pack_double_def be_bytes_inj word_unat_eq_iff)
qed

lemma length_pack_double [simp]: "length (pack_double d) = 8"
  by (simp add: pack_double_def)

definition audit_ready :: "SecurityEvent \<Rightarrow> bool" where
  "audit_ready e \<longleftrightarrow>
     0 \<notin> set (ev_type e) \<and> 0 \<notin> set (ev_description e) \<and> 0 \<notin> set (device_text e)
     \<and> wf_json (ev_details e)"

lemma canonical_payload_fields:
  assumes "canonical_payload e = Some p" and "audit_ready e"
  obtains ss ty dv ds where
    "utf8_encode (severity_value (ev_severity e)) = Some ss" "utf8_encode (ev_type e) = Some ty"
    "utf8_encode (device_text e) = Some dv"
    "utf8_encode (ev_description e) = Some ds"
    "\<forall>b \<in> set [ss, ty, dv, ds]. nul_free b"
    "p = EVENT_DOMAIN @ pack_double (ev_timestamp e) @ 0 # concat (map nul_field [ss, ty, dv, ds])
       @ ascii_bytes (dump (lit '','') (lit '':'') (sort_keys (ev_details e)))"
proof -
  have asc: "list_all is_ascii (dump (lit '','') (lit '':'') (sort_keys (ev_details e)))"
    using assms(2) by (simp add: dump_ascii audit_ready_def wf_sort_keys)
  have sev: "0 \<notin> set (severity_value (ev_severity e))"
    by (cases "ev_severity e") (simp_all add: severity_value_def lit_def)
  from assms(1) asc obtain ss ty dv ds where f:
    "utf8_encode (severity_value (ev_severity e)) = Some ss" "utf8_encode (ev_type e) = Some ty"
    "utf8_encode (device_text e) = Some dv"
    "utf8_encode (ev_description e) = Some ds"
    and p: "p = EVENT_DOMAIN @ pack_double (ev_timestamp e) @ [0] @ ss @ [0] @ ty @ [0] @ dv @ [0] @ ds @ [0]
      @ ascii_bytes (dump (lit '','') (lit '':'') (sort_keys (ev_details e)))"
    by (auto simp: canonical_payload_def Let_def utf8_encode_ascii split: option.splits)
  have "\<forall>b \<in> set [ss, ty, dv, ds]. nul_free b"
    using f sev assms(2) by (auto simp: audit_ready_def intro: utf8_encode_nul_free)
  with f p that show thesis by (simp add: nul_field_def)
qed

text \<open>
  An audit signature over the canonical payload binds the whole
  event: two events with the same payload have the same time, severity, type, device,
  description and details (up to the order of keys), provided the text fields have no NUL
  character.
\<close>

theorem canonical_payload_binds:
  assumes "canonical_payload e = Some p" "canonical_payload e' = Some p"
    and "audit_ready e" "audit_ready e'"
  shows "ev_timestamp e = ev_timestamp e' \<and> ev_severity e = ev_severity e' \<and> ev_type e = ev_type e'
    \<and> (device_text e) = (device_text e')
    \<and> ev_description e = ev_description e' \<and> sort_keys (ev_details e) = sort_keys (ev_details e')"
proof -
  let ?j = "\<lambda>e. dump (lit '','') (lit '':'') (sort_keys (ev_details e))"
  obtain ss ty dv ds where f:
    "utf8_encode (severity_value (ev_severity e)) = Some ss" "utf8_encode (ev_type e) = Some ty"
    "utf8_encode (device_text e) = Some dv"
    "utf8_encode (ev_description e) = Some ds"
    and nf: "\<forall>b \<in> set [ss, ty, dv, ds]. nul_free b"
    and p: "p = EVENT_DOMAIN @ pack_double (ev_timestamp e) @ 0 # concat (map nul_field [ss, ty, dv, ds])
       @ ascii_bytes (?j e)"
    using canonical_payload_fields [OF assms(1,3)] by metis
  obtain ss' ty' dv' ds' where f':
    "utf8_encode (severity_value (ev_severity e')) = Some ss'" "utf8_encode (ev_type e') = Some ty'"
    "utf8_encode (device_text e') = Some dv'"
    "utf8_encode (ev_description e') = Some ds'"
    and nf': "\<forall>b \<in> set [ss', ty', dv', ds']. nul_free b"
    and p': "p = EVENT_DOMAIN @ pack_double (ev_timestamp e') @ 0 # concat (map nul_field [ss', ty', dv', ds'])
       @ ascii_bytes (?j e')"
    using canonical_payload_fields [OF assms(2,4)] by metis
  from p p' have "pack_double (ev_timestamp e) = pack_double (ev_timestamp e')"
    and eq: "concat (map nul_field [ss, ty, dv, ds]) @ ascii_bytes (?j e)
      = concat (map nul_field [ss', ty', dv', ds']) @ ascii_bytes (?j e')"
    by auto
  moreover have "[ss, ty, dv, ds] = [ss', ty', dv', ds'] \<and> ascii_bytes (?j e) = ascii_bytes (?j e')"
    using nul.concat_enc_inj [OF nf nf' _ eq] by simp
  moreover have "utf8_encode (?j x) = Some (ascii_bytes (?j x))" if "audit_ready x" for x
    using that by (simp add: utf8_encode_ascii dump_ascii audit_ready_def wf_sort_keys)
  then have "utf8_encode (?j e) = Some (ascii_bytes (?j e))" "utf8_encode (?j e') = Some (ascii_bytes (?j e'))"
    using assms(3,4) by blast+
  ultimately have "ev_timestamp e = ev_timestamp e'" "severity_value (ev_severity e) = severity_value (ev_severity e')"
    "ev_type e = ev_type e'"
    "(device_text e) = (device_text e')"
    "ev_description e = ev_description e'" "?j e = ?j e'"
    using f f' utf8_encode_inj pack_double_inj by (metis list.inject)+
  moreover have "sort_keys (ev_details e) = sort_keys (ev_details e')"
    using \<open>?j e = ?j e'\<close> assms(3,4) json_loads_dump
    by (metis audit_ready_def option.inject sep_ok_compact wf_sort_keys(1))
  ultimately show ?thesis using severity_value_inj by blast
qed

theorem canonical_payload_binds_witness:
  "\<exists>p. canonical_payload (make_event (lit ''auth_failed'') WARNING (lit ''x'') None 0 (JObj []) None None) = Some p \<and>
    audit_ready (make_event (lit ''auth_failed'') WARNING (lit ''x'') None 0 (JObj []) None None) \<and>
    ev_timestamp (make_event (lit ''auth_failed'') WARNING (lit ''x'') None 0 (JObj []) None None) = 0"
proof -
  let ?e = "make_event (lit ''auth_failed'') WARNING (lit ''x'') None 0 (JObj []) None None"
  have r: "audit_ready ?e" by (simp add: audit_ready_def make_event_def lit_def device_text_def)
  have "canonical_payload ?e \<noteq> None"
    by (simp add: canonical_payload_def make_event_def lit_def device_text_def severity_value_def
        utf8_encode_def is_scalar_def is_surrogate_def)
  then obtain p where "canonical_payload ?e = Some p" by blast
  with r canonical_payload_binds [OF this this r r] show ?thesis
    by (auto simp: make_event_def)
qed

section \<open>Listeners are called once each\<close>

lemma distinct_add_listener: "distinct ls \<Longrightarrow> distinct (add_listener ls l)"
  by (simp add: add_listener_def)

lemma distinct_remove_listener: "distinct ls \<Longrightarrow> distinct (remove_listener ls l)"
  by (simp add: remove_listener_def)

lemma remove_add_listener: "l \<notin> set ls \<Longrightarrow> remove_listener (add_listener ls l) l = ls"
  by (simp add: remove_listener_def add_listener_def remove1_append)

definition calls :: "'l emission list \<Rightarrow> ('l \<times> SecurityEvent) list" where
  "calls xs = concat (map (\<lambda>x. case x of Called l e \<Rightarrow> [(l, e)] | _ \<Rightarrow> []) xs)"

lemma calls_emit: "calls (emit raises ls e) = map (\<lambda>l. (l, e)) ls"
  by (induction ls) (simp_all add: calls_def emit_def)

text \<open>
  A handler registered for the time of a block receives exactly the
  events emitted in the block, in order, whichever other listeners are registered and
  whether or not they raise, and the list of listeners is afterwards what it was before.
\<close>

theorem capture_events_exact:
  assumes "handler \<notin> set ls"
  shows "capture_security_events raises ls handler block = (ls, block)"
proof -
  have split: "(\<lambda>x. case x of Called l e' \<Rightarrow> if l = handler then [e'] else [] | _ \<Rightarrow> []) =
      (\<lambda>x. map snd (filter (\<lambda>(l, _). l = handler) (case x of Called l e \<Rightarrow> [(l, e)] | _ \<Rightarrow> [])))"
    by (auto simp: fun_eq_iff split: emission.splits)
  have "concat (map (\<lambda>x. case x of Called l e' \<Rightarrow> if l = handler then [e'] else [] | _ \<Rightarrow> []) xs)
      = map snd (filter (\<lambda>(l, _). l = handler) (calls xs))" for xs
    unfolding split by (induction xs) (simp_all add: calls_def)
  moreover have "filter (\<lambda>x. x = handler) ls = []"
    using assms by (simp add: filter_empty_conv) blast
  ultimately show ?thesis
    using assms
    unfolding capture_security_events_def remove_add_listener [OF assms]
    by (induction block) (simp_all add: calls_emit add_listener_def filter_map comp_def)
qed

theorem capture_events_exact_witness:
  "capture_security_events (\<lambda>l _. l = 3) [1, 3 :: nat] 2
     [make_event (lit ''auth_failed'') WARNING (lit ''x'') None 0 (JObj []) None None]
   = ([1, 3], [make_event (lit ''auth_failed'') WARNING (lit ''x'') None 0 (JObj []) None None])"
  by (rule capture_events_exact) simp

end
