(* ===== verification/Identity.thy ===== *)
theory Identity
  imports Sha256 Security_Events
begin

text \<open>
  Device identities: \<^verbatim>\<open>core/identity/device_identity.py\<close> (the Ed25519 keypair and the
  device identifier derived from it) and \<^verbatim>\<open>core/identity/fingerprint.py\<close>. The primitives of
  the \<^verbatim>\<open>cryptography\<close> package are not part of the repository: they are a record of functions
  that every operation using them takes as an argument, and what is relied on of them is
  stated by the predicates \<open>ed25519_ok\<close> and \<open>pem_ok\<close>.
\<close>

section \<open>The primitives\<close>

datatype pem_key = Ed25519Pem bytes | OtherPem

record ed25519 =
  ed_public :: "bytes \<Rightarrow> bytes"
  ed_sign :: "bytes \<Rightarrow> bytes \<Rightarrow> bytes"
  ed_verify :: "bytes \<Rightarrow> bytes \<Rightarrow> bytes \<Rightarrow> bool"
  pem_dump :: "bytes \<Rightarrow> pystr"
  pem_load :: "pystr \<Rightarrow> pem_key option"

text \<open>
  Documented behaviour: a public key has 32 bytes, a signature has 64, and the signature a
  private key makes verifies under its public key.
\<close>

definition ed25519_ok :: "'x ed25519_scheme \<Rightarrow> bool" where
  "ed25519_ok C \<longleftrightarrow>
     (\<forall>sk. length (ed_public C sk) = 32) \<and>
     (\<forall>sk m. length (ed_sign C sk m) = 64) \<and>
     (\<forall>sk m. ed_verify C (ed_public C sk) (ed_sign C sk m) m)"

definition pem_ok :: "'x ed25519_scheme \<Rightarrow> bool" where
  "pem_ok C \<longleftrightarrow>
     (\<forall>sk. pem_load C (pem_dump C sk) = Some (Ed25519Pem sk) \<and> list_all is_ascii (pem_dump C sk))"

section \<open>Keypairs\<close>

record DeviceKeypair =
  kp_private :: bytes
  kp_public :: bytes
  kp_device_id :: pystr

definition compute_device_id :: "bytes \<Rightarrow> pystr" where
  "compute_device_id public_key_bytes = sha256_hex public_key_bytes"

definition keypair_from_private_key :: "'x ed25519_scheme \<Rightarrow> bytes \<Rightarrow> DeviceKeypair" where
  "keypair_from_private_key C private_key =
     (let pub = ed_public C private_key in
      \<lparr>kp_private = private_key, kp_public = pub, kp_device_id = compute_device_id pub\<rparr>)"

text \<open>The fresh random key of \<^verbatim>\<open>Ed25519PrivateKey.generate()\<close> is an argument.\<close>

definition generate_keypair :: "'x ed25519_scheme \<Rightarrow> bytes \<Rightarrow> DeviceKeypair" where
  "generate_keypair C fresh = keypair_from_private_key C fresh"

datatype identity_error =
    ValueError
  | PrivateKeyMissing
  | OutOfSync
  | SameDevice
  | NotAnIdentityObject

definition keypair_from_private_pem :: "'x ed25519_scheme \<Rightarrow> pystr \<Rightarrow> identity_error + DeviceKeypair" where
  "keypair_from_private_pem C pem =
     (if \<not> list_all is_ascii pem then Inl ValueError
      else case pem_load C pem of
        None \<Rightarrow> Inl ValueError
      | Some OtherPem \<Rightarrow> Inl ValueError
      | Some (Ed25519Pem sk) \<Rightarrow> Inr (keypair_from_private_key C sk))"

definition private_key_pem :: "'x ed25519_scheme \<Rightarrow> DeviceKeypair \<Rightarrow> pystr" where
  "private_key_pem C kp = pem_dump C (kp_private kp)"

definition sign :: "'x ed25519_scheme \<Rightarrow> DeviceKeypair \<Rightarrow> bytes \<Rightarrow> bytes" where
  "sign C kp data = ed_sign C (kp_private kp) data"

text \<open>\<^verbatim>\<open>Ed25519PublicKey.from_public_bytes\<close> raises \<^verbatim>\<open>ValueError\<close> unless it gets 32 bytes.\<close>

definition public_key_from_bytes :: "bytes \<Rightarrow> bytes option" where
  "public_key_from_bytes data = (if length data = 32 then Some data else None)"

definition wf_keypair :: "'x ed25519_scheme \<Rightarrow> DeviceKeypair \<Rightarrow> bool" where
  "wf_keypair C kp \<longleftrightarrow>
     kp_public kp = ed_public C (kp_private kp) \<and> kp_device_id kp = compute_device_id (kp_public kp)"

lemma wf_keypair_from_private_key [simp]: "wf_keypair C (keypair_from_private_key C sk)"
  by (simp add: wf_keypair_def keypair_from_private_key_def Let_def)

lemma keypair_eqI:
  "wf_keypair C kp \<Longrightarrow> keypair_from_private_key C (kp_private kp) = kp"
  by (simp add: wf_keypair_def keypair_from_private_key_def Let_def)

lemma sign_verifies:
  "ed25519_ok C \<Longrightarrow> wf_keypair C kp \<Longrightarrow> ed_verify C (kp_public kp) (sign C kp m) m"
  by (simp add: ed25519_ok_def wf_keypair_def sign_def)

lemma length_kp_public: "ed25519_ok C \<Longrightarrow> wf_keypair C kp \<Longrightarrow> length (kp_public kp) = 32"
  by (simp add: ed25519_ok_def wf_keypair_def)

text \<open>
  A keypair written to its PEM form and read back is the same keypair, with
  the same device identifier: an identity survives a restart.
\<close>

theorem pem_roundtrip:
  assumes "pem_ok C" and "wf_keypair C kp"
  shows "keypair_from_private_pem C (private_key_pem C kp) = Inr kp"
  using assms by (simp add: pem_ok_def keypair_from_private_pem_def private_key_pem_def keypair_eqI)

text \<open>A concrete instance of the primitives: a toy scheme that meets the stated behaviour.\<close>

definition toy_ed25519 :: ed25519 where
  "toy_ed25519 =
     \<lparr>ed_public = (\<lambda>sk. take 32 (sk @ replicate 32 0)),
      ed_sign = (\<lambda>sk m. take 64 (m @ replicate 64 0)),
      ed_verify = (\<lambda>pk sig m. sig = take 64 (m @ replicate 64 0)),
      pem_dump = bytes_hex,
      pem_load = (\<lambda>s. map_option Ed25519Pem (bytes_fromhex s))\<rparr>"

lemma toy_ed25519_ok: "ed25519_ok toy_ed25519"
  by (auto simp: ed25519_ok_def toy_ed25519_def min_def)

lemma toy_pem_ok: "pem_ok toy_ed25519"
  by (simp add: pem_ok_def toy_ed25519_def bytes_hex_ascii)

theorem pem_roundtrip_witness:
  "keypair_from_private_pem toy_ed25519
     (private_key_pem toy_ed25519 (generate_keypair toy_ed25519 (replicate 32 7)))
   = Inr (generate_keypair toy_ed25519 (replicate 32 7))"
  by (rule pem_roundtrip) (simp_all add: toy_pem_ok generate_keypair_def)

section \<open>Fingerprints\<close>

fun pairs_of :: "pystr \<Rightarrow> pystr list" where
  "pairs_of (a # b # s) = [a, b] # pairs_of s"
| "pairs_of s = []"

text \<open>
  \<open>groups_shown\<close> is a Python slice bound: a negative one counts from the end.
\<close>

definition take_slice :: "int \<Rightarrow> 'a list \<Rightarrow> 'a list" where
  "take_slice n xs = take (nat (if n < 0 then max 0 (n + int (length xs)) else n)) xs"

definition format_fingerprint :: "pystr \<Rightarrow> int option \<Rightarrow> identity_error + pystr" where
  "format_fingerprint device_id_hex groups_shown =
     (if length device_id_hex mod 2 \<noteq> 0 then Inl ValueError
      else
        let pairs = pairs_of device_id_hex in
        Inr (join_with [58]
          (case groups_shown of None \<Rightarrow> pairs | Some n \<Rightarrow> take_slice n pairs)))"

definition short_fingerprint :: "pystr \<Rightarrow> identity_error + pystr" where
  "short_fingerprint device_id_hex = format_fingerprint device_id_hex (Some 8)"

lemma concat_pairs_of: "even (length s) \<Longrightarrow> concat (pairs_of s) = s"
  by (induction s rule: pairs_of.induct) auto

lemma pairs_of_colon_free: "58 \<notin> set s \<Longrightarrow> p \<in> set (pairs_of s) \<Longrightarrow> 58 \<notin> set p"
  by (induction s rule: pairs_of.induct) auto

lemma filter_join_with:
  "\<forall>p \<in> set ps. 58 \<notin> set p \<Longrightarrow> filter (\<lambda>c. c \<noteq> 58) (join_with [58] ps) = concat ps"
proof (induction ps)
  case (Cons p ps)
  have "filter (\<lambda>c. c \<noteq> 58) p = p" using Cons.prems by (auto intro!: filter_True)
  with Cons show ?case by (cases ps) simp_all
qed simp

text \<open>
  The full fingerprint shows the whole identifier: removing the colons
  gives the device identifier back, so two devices with the same full fingerprint have the
  same identifier.
\<close>

theorem fingerprint_faithful:
  assumes "format_fingerprint d None = Inr f" and "58 \<notin> set d"
  shows "filter (\<lambda>c. c \<noteq> 58) f = d"
proof -
  have "even (length d)" and f: "f = join_with [58] (pairs_of d)"
    using assms(1) by (auto simp: format_fingerprint_def Let_def split: if_splits)
  with assms(2) show ?thesis
    by (simp add: filter_join_with pairs_of_colon_free concat_pairs_of)
qed

theorem fingerprint_faithful_witness:
  "format_fingerprint (lit ''7f91'') None = Inr (lit ''7f:91'') \<and>
   filter (\<lambda>c. c \<noteq> 58) (lit ''7f:91'') = lit ''7f91''"
proof -
  have "format_fingerprint (lit ''7f91'') None = Inr (lit ''7f:91'')"
    by (simp add: format_fingerprint_def lit_def)
  with fingerprint_faithful [OF this] show ?thesis by (simp add: lit_def)
qed

end
