(* ===== verification/Rotation.thy ===== *)
theory Rotation
  imports Identity
begin

text \<open>
  Key rotation of \<^verbatim>\<open>core/identity/rotation.py\<close>: the transition certificate, the payload its
  signature covers, and its verification. A verification that fails for any reason returns
  false and emits a notice.
\<close>

definition ROTATION_DOMAIN :: bytes where
  "ROTATION_DOMAIN = blit ''peerc-key-rotation'' @ [0]"

record TransitionCertificate =
  tc_old_device_id :: pystr
  tc_old_public_key :: pystr
  tc_new_device_id :: pystr
  tc_new_public_key :: pystr
  tc_timestamp :: double
  tc_signature :: pystr

definition build_payload :: "pystr \<Rightarrow> pystr \<Rightarrow> pystr \<Rightarrow> pystr \<Rightarrow> double \<Rightarrow> bytes option" where
  "build_payload old_id new_id old_pk new_pk ts =
     (case (utf8_encode old_id, utf8_encode new_id, utf8_encode old_pk, utf8_encode new_pk) of
        (Some a, Some b, Some c, Some d) \<Rightarrow>
          Some (ROTATION_DOMAIN @ a @ [0] @ b @ [0] @ c @ [0] @ d @ [0] @ pack_double ts)
      | _ \<Rightarrow> None)"

datatype rotation_error =
    RotationSameDevice
  | RotationInvalidSignature
  | RotationFromRevoked
  | RotationEncodeError

definition create_transition_certificate ::
  "'x ed25519_scheme \<Rightarrow> double \<Rightarrow> DeviceKeypair \<Rightarrow> DeviceKeypair \<Rightarrow> rotation_error + TransitionCertificate" where
  "create_transition_certificate C now old_kp new_kp =
     (if kp_device_id old_kp = kp_device_id new_kp then Inl RotationSameDevice
      else
        let old_pub = b64encode (kp_public old_kp); new_pub = b64encode (kp_public new_kp) in
        case build_payload (kp_device_id old_kp) (kp_device_id new_kp) old_pub new_pub now of
          None \<Rightarrow> Inl RotationEncodeError
        | Some payload \<Rightarrow>
            Inr \<lparr>tc_old_device_id = kp_device_id old_kp, tc_old_public_key = old_pub,
                 tc_new_device_id = kp_device_id new_kp, tc_new_public_key = new_pub,
                 tc_timestamp = now, tc_signature = b64encode (sign C old_kp payload)\<rparr>)"

definition cert_payload :: "TransitionCertificate \<Rightarrow> bytes option" where
  "cert_payload cert =
     build_payload (tc_old_device_id cert) (tc_new_device_id cert) (tc_old_public_key cert)
       (tc_new_public_key cert) (tc_timestamp cert)"

definition certificate_valid :: "'x ed25519_scheme \<Rightarrow> TransitionCertificate \<Rightarrow> bool" where
  "certificate_valid C cert \<longleftrightarrow>
     (case (b64decode False (tc_old_public_key cert), b64decode False (tc_signature cert)) of
        (Some old_pub, Some sig) \<Rightarrow>
          (case (public_key_from_bytes old_pub, cert_payload cert) of
             (Some key, Some payload) \<Rightarrow> ed_verify C key sig payload
           | _ \<Rightarrow> False)
      | _ \<Rightarrow> False)"

definition verify_transition_certificate ::
  "'x ed25519_scheme \<Rightarrow> TransitionCertificate \<Rightarrow> bool \<times> notice list" where
  "verify_transition_certificate C cert =
     (if certificate_valid C cert then (True, [])
      else (False, [(INVALID_ROTATION, WARNING, Some (tc_old_device_id cert))]))"

section \<open>The payload binds every field\<close>

definition nul_free_cert :: "TransitionCertificate \<Rightarrow> bool" where
  "nul_free_cert c \<longleftrightarrow>
     0 \<notin> set (tc_old_device_id c) \<and> 0 \<notin> set (tc_new_device_id c) \<and>
     0 \<notin> set (tc_old_public_key c) \<and> 0 \<notin> set (tc_new_public_key c)"

lemma build_payload_fields:
  assumes "build_payload a b c d t = Some p" and "0 \<notin> set a" "0 \<notin> set b" "0 \<notin> set c" "0 \<notin> set d"
  obtains xs where "map utf8_encode [a, b, c, d] = map Some xs" "\<forall>x \<in> set xs. nul_free x" "length xs = 4"
    "p = ROTATION_DOMAIN @ concat (map nul_field xs) @ pack_double t"
proof -
  from assms(1) obtain w x y z where u: "utf8_encode a = Some w" "utf8_encode b = Some x"
    "utf8_encode c = Some y" "utf8_encode d = Some z"
    and p: "p = ROTATION_DOMAIN @ w @ [0] @ x @ [0] @ y @ [0] @ z @ [0] @ pack_double t"
    by (auto simp: build_payload_def split: option.splits)
  show thesis
    by (rule that [of "[w, x, y, z]"])
      (use u p assms in \<open>auto simp: nul_field_def intro: utf8_encode_nul_free\<close>)
qed

lemma build_payload_ascii:
  assumes "list_all is_ascii a" "list_all is_ascii b" "list_all is_ascii c" "list_all is_ascii d"
  shows "\<exists>p. build_payload a b c d t = Some p"
  using assms by (simp add: build_payload_def utf8_encode_ascii)

lemma utf8_encode_map_inj:
  "map utf8_encode xs = map Some bs \<Longrightarrow> map utf8_encode ys = map Some bs \<Longrightarrow> xs = ys"
proof (induction xs arbitrary: ys bs)
  case (Cons x xs)
  then show ?case by (cases ys; cases bs) (auto dest: utf8_encode_inj)
qed (cases bs; simp)

text \<open>
  The signed payload determines the certificate: two certificates
  with the same payload name the same old and new device, the same old and new key and the
  same time, provided no field has a NUL character.
\<close>

theorem rotation_payload_binds:
  assumes "cert_payload c = Some p" "cert_payload c' = Some p" "nul_free_cert c" "nul_free_cert c'"
  shows "tc_old_device_id c = tc_old_device_id c' \<and> tc_new_device_id c = tc_new_device_id c' \<and>
    tc_old_public_key c = tc_old_public_key c' \<and> tc_new_public_key c = tc_new_public_key c' \<and>
    tc_timestamp c = tc_timestamp c'"
proof -
  let ?f = "\<lambda>c. [tc_old_device_id c, tc_new_device_id c, tc_old_public_key c, tc_new_public_key c]"
  obtain xs where xs: "map utf8_encode (?f c) = map Some xs" "\<forall>x \<in> set xs. nul_free x" "length xs = 4"
    and p: "p = ROTATION_DOMAIN @ concat (map nul_field xs) @ pack_double (tc_timestamp c)"
    using assms(1,3) unfolding cert_payload_def nul_free_cert_def by (metis build_payload_fields)
  obtain ys where ys: "map utf8_encode (?f c') = map Some ys" "\<forall>x \<in> set ys. nul_free x" "length ys = 4"
    and p': "p = ROTATION_DOMAIN @ concat (map nul_field ys) @ pack_double (tc_timestamp c')"
    using assms(2,4) unfolding cert_payload_def nul_free_cert_def by (metis build_payload_fields)
  have eq: "concat (map nul_field xs) @ pack_double (tc_timestamp c)
      = concat (map nul_field ys) @ pack_double (tc_timestamp c')"
    using p p' by simp
  have "xs = ys \<and> pack_double (tc_timestamp c) = pack_double (tc_timestamp c')"
    using nul.concat_enc_inj [OF xs(2) ys(2) _ eq] xs(3) ys(3) by simp
  then have "tc_timestamp c = tc_timestamp c'" and same: "xs = ys"
    by (simp_all add: pack_double_inj)
  have "?f c = ?f c'"
    using xs(1) ys(1) unfolding same by (rule utf8_encode_map_inj)
  with \<open>tc_timestamp c = tc_timestamp c'\<close> show ?thesis by simp
qed

definition sample_cert :: "pystr \<Rightarrow> TransitionCertificate" where
  "sample_cert sig =
     \<lparr>tc_old_device_id = lit ''a1'', tc_old_public_key = lit ''AA=='', tc_new_device_id = lit ''b2'',
      tc_new_public_key = lit ''AQ=='', tc_timestamp = 5, tc_signature = sig\<rparr>"

theorem rotation_payload_binds_witness:
  "\<exists>p. cert_payload (sample_cert (lit ''AA=='')) = Some p \<and> cert_payload (sample_cert (lit ''AQ=='')) = Some p \<and>
     tc_new_device_id (sample_cert (lit ''AA=='')) = tc_new_device_id (sample_cert (lit ''AQ==''))"
proof -
  have nf: "nul_free_cert (sample_cert s)" for s by (simp add: nul_free_cert_def sample_cert_def lit_def)
  have "\<exists>p. cert_payload (sample_cert s) = Some p" for s
    unfolding cert_payload_def
    by (rule build_payload_ascii) (simp_all add: sample_cert_def lit_def is_ascii_def)
  then obtain p where p: "cert_payload (sample_cert (lit ''AA=='')) = Some p" by blast
  moreover have q: "cert_payload (sample_cert (lit ''AQ=='')) = Some p"
    using p by (simp add: cert_payload_def sample_cert_def)
  ultimately show ?thesis
    using rotation_payload_binds [OF p q nf nf] by blast
qed

section \<open>Certificates that are made verify\<close>

lemma device_id_ascii: "wf_keypair C kp \<Longrightarrow> list_all is_ascii (kp_device_id kp)"
  by (simp add: wf_keypair_def compute_device_id_def sha256_hex_ascii)

lemma signed_certificate_valid:
  assumes "ed25519_ok C" "wf_keypair C kp"
    and "tc_old_public_key c = b64encode (kp_public kp)"
    and "cert_payload c = Some payload" and "tc_signature c = b64encode (sign C kp payload)"
  shows "certificate_valid C c"
  using assms by (simp add: certificate_valid_def public_key_from_bytes_def length_kp_public sign_verifies)

text \<open>
  Rotating to a keypair of another device makes a certificate
  that every peer's verification accepts without a notice; the only failure is to rotate to
  the same device.
\<close>

theorem created_certificate_verifies:
  assumes "ed25519_ok C" "wf_keypair C old_kp" "wf_keypair C new_kp"
  shows "case create_transition_certificate C now old_kp new_kp of
      Inl e \<Rightarrow> e = RotationSameDevice \<and> kp_device_id old_kp = kp_device_id new_kp
    | Inr cert \<Rightarrow> verify_transition_certificate C cert = (True, []) \<and>
        tc_old_device_id cert = kp_device_id old_kp \<and> tc_new_device_id cert = kp_device_id new_kp"
proof (cases "kp_device_id old_kp = kp_device_id new_kp")
  case True
  then show ?thesis by (simp add: create_transition_certificate_def)
next
  case False
  obtain p where p: "build_payload (kp_device_id old_kp) (kp_device_id new_kp)
      (b64encode (kp_public old_kp)) (b64encode (kp_public new_kp)) now = Some p"
    using build_payload_ascii [OF device_id_ascii device_id_ascii b64encode_ascii b64encode_ascii]
      assms(2,3) by blast
  let ?c = "\<lparr>tc_old_device_id = kp_device_id old_kp, tc_old_public_key = b64encode (kp_public old_kp),
    tc_new_device_id = kp_device_id new_kp, tc_new_public_key = b64encode (kp_public new_kp),
    tc_timestamp = now, tc_signature = b64encode (sign C old_kp p)\<rparr>"
  have "create_transition_certificate C now old_kp new_kp = Inr ?c"
    using False p by (simp add: create_transition_certificate_def Let_def)
  moreover have "certificate_valid C ?c"
    by (rule signed_certificate_valid [OF assms(1,2)]) (simp_all add: cert_payload_def p)
  ultimately show ?thesis by (simp add: verify_transition_certificate_def)
qed

theorem created_certificate_verifies_witness:
  "case create_transition_certificate toy_ed25519 0
      (generate_keypair toy_ed25519 [1]) (generate_keypair toy_ed25519 [2]) of
      Inl e \<Rightarrow> e = RotationSameDevice \<and>
        kp_device_id (generate_keypair toy_ed25519 [1]) = kp_device_id (generate_keypair toy_ed25519 [2])
    | Inr cert \<Rightarrow> verify_transition_certificate toy_ed25519 cert = (True, []) \<and>
        tc_old_device_id cert = kp_device_id (generate_keypair toy_ed25519 [1]) \<and>
        tc_new_device_id cert = kp_device_id (generate_keypair toy_ed25519 [2])"
  by (rule created_certificate_verifies) (simp_all add: toy_ed25519_ok generate_keypair_def)

lemma certificate_valid_iff:
  "certificate_valid C cert \<longleftrightarrow>
     (\<exists>key sig payload. b64decode False (tc_old_public_key cert) = Some key \<and> length key = 32 \<and>
        b64decode False (tc_signature cert) = Some sig \<and> cert_payload cert = Some payload \<and>
        ed_verify C key sig payload)"
  by (auto simp: certificate_valid_def public_key_from_bytes_def split: option.splits)

end
