(* ===== verification/Trust.thy ===== *)
theory Trust
  imports Rotation "HOL-Library.Multiset"
begin

text \<open>
  The trust store of \<^verbatim>\<open>core/trust/store.py\<close>, \<^verbatim>\<open>core/trust/device.py\<close> and
  \<^verbatim>\<open>core/trust/revocation.py\<close>. The two SQL tables are dictionaries keyed by their primary
  keys, in row order; the clock reading \<^verbatim>\<open>time.time()\<close> of an operation is its argument
  \<open>now\<close>. An operation returns its result or error, the store after it, and the security
  notices it emitted. The order in which Python iterates over a set of strings is an
  argument too, \<open>iter\<close>.
\<close>

section \<open>Records and tables\<close>

datatype TrustStatus = PENDING | TRUSTED | REVOKED

record TrustedDevice =
  td_device_id :: pystr
  td_public_key :: pystr
  td_name :: pystr
  td_first_seen :: time
  td_last_seen :: time
  td_status :: TrustStatus
  td_revoked_by :: "pystr option"
  td_revoked_at :: "time option"
  td_revoke_reason :: "pystr option"

record transition_row =
  tr_old_public_key :: pystr
  tr_new_public_key :: pystr
  tr_timestamp :: double
  tr_signature :: pystr
  tr_recorded_at :: time

record TrustStore =
  trusted_devices :: "(pystr, TrustedDevice) dict"
  identity_transitions :: "(pystr \<times> pystr, transition_row) dict"

definition empty_store :: TrustStore where
  "empty_store = \<lparr>trusted_devices = [], identity_transitions = []\<rparr>"

datatype TrustDecision = D_UNKNOWN | D_PENDING | D_TRUSTED | D_KEY_CHANGED | D_REVOKED

datatype trust_error =
    AlreadyKnown
  | UnknownDevice
  | DeviceRevoked
  | AlreadyRevoked
  | InvalidCertificate
  | OldDeviceRevoked
  | IntegrityError

section \<open>Reading\<close>

definition get_device :: "TrustStore \<Rightarrow> pystr \<Rightarrow> TrustedDevice option" where
  "get_device S device_id = map_of (trusted_devices S) device_id"

definition check :: "TrustStore \<Rightarrow> pystr \<Rightarrow> pystr \<Rightarrow> TrustDecision \<times> notice list" where
  "check S device_id public_key =
     (case get_device S device_id of
        None \<Rightarrow> (D_UNKNOWN, [])
      | Some device \<Rightarrow>
          if td_public_key device \<noteq> public_key
          then (D_KEY_CHANGED, [(IDENTITY_CHANGED, WARNING, Some device_id)])
          else if td_status device = REVOKED
          then (D_REVOKED, [(REVOKED_DEVICE_ATTEMPT, HIGH, Some device_id)])
          else if td_status device = TRUSTED then (D_TRUSTED, [])
          else (D_PENDING, []))"

definition list_all_devices :: "TrustStore \<Rightarrow> TrustStatus option \<Rightarrow> TrustedDevice list" where
  "list_all_devices S st =
     sort_key (\<lambda>d. - td_last_seen d)
       (filter (\<lambda>d. case st of None \<Rightarrow> True | Some s \<Rightarrow> td_status d = s) (map snd (trusted_devices S)))"

section \<open>Writing\<close>

definition update_device :: "TrustStore \<Rightarrow> pystr \<Rightarrow> (TrustedDevice \<Rightarrow> TrustedDevice) \<Rightarrow> TrustStore" where
  "update_device S device_id f =
     (case get_device S device_id of
        None \<Rightarrow> S
      | Some d \<Rightarrow> S\<lparr>trusted_devices := dict_set (trusted_devices S) device_id (f d)\<rparr>)"

definition insert_device :: "TrustStore \<Rightarrow> time \<Rightarrow> pystr \<Rightarrow> pystr \<Rightarrow> pystr \<Rightarrow> TrustStatus \<Rightarrow> TrustStore" where
  "insert_device S now device_id public_key name st =
     S\<lparr>trusted_devices := dict_set (trusted_devices S) device_id
        \<lparr>td_device_id = device_id, td_public_key = public_key, td_name = name, td_first_seen = now,
         td_last_seen = now, td_status = st, td_revoked_by = None, td_revoked_at = None,
         td_revoke_reason = None\<rparr>\<rparr>"

definition record_first_seen ::
  "TrustStore \<Rightarrow> time \<Rightarrow> pystr \<Rightarrow> pystr \<Rightarrow> pystr \<Rightarrow> trust_error + TrustStore" where
  "record_first_seen S now device_id public_key name =
     (if get_device S device_id \<noteq> None then Inl AlreadyKnown
      else Inr (insert_device S now device_id public_key name PENDING))"

definition touch_last_seen :: "TrustStore \<Rightarrow> time \<Rightarrow> pystr \<Rightarrow> TrustStore" where
  "touch_last_seen S now device_id = update_device S device_id (\<lambda>d. d\<lparr>td_last_seen := now\<rparr>)"

definition approve :: "TrustStore \<Rightarrow> pystr \<Rightarrow> trust_error + TrustStore" where
  "approve S device_id =
     (case get_device S device_id of
        None \<Rightarrow> Inl UnknownDevice
      | Some device \<Rightarrow>
          if td_status device = REVOKED then Inl DeviceRevoked
          else Inr (update_device S device_id (\<lambda>d. d\<lparr>td_status := TRUSTED\<rparr>)))"

definition set_revoked :: "TrustStore \<Rightarrow> time \<Rightarrow> pystr \<Rightarrow> pystr \<Rightarrow> pystr option \<Rightarrow> trust_error + TrustStore" where
  "set_revoked S now device_id revoked_by reason =
     (if get_device S device_id = None then Inl UnknownDevice
      else Inr (update_device S device_id
        (\<lambda>d. d\<lparr>td_status := REVOKED, td_revoked_by := Some revoked_by, td_revoked_at := Some now,
             td_revoke_reason := reason\<rparr>)))"

definition revoke_device :: "TrustStore \<Rightarrow> time \<Rightarrow> pystr \<Rightarrow> pystr \<Rightarrow> pystr option \<Rightarrow> trust_error + TrustStore" where
  "revoke_device S now device_id revoked_by reason =
     (case get_device S device_id of
        None \<Rightarrow> Inl UnknownDevice
      | Some device \<Rightarrow>
          if td_status device = REVOKED then Inl AlreadyRevoked
          else set_revoked S now device_id revoked_by reason)"

definition is_revoked :: "TrustStore \<Rightarrow> pystr \<Rightarrow> bool" where
  "is_revoked S device_id =
     (case get_device S device_id of None \<Rightarrow> False | Some d \<Rightarrow> td_status d = REVOKED)"

section \<open>Rotation\<close>

text \<open>
  SQLite stores a NaN as NULL, which the table refuses. A double is a NaN when its exponent
  bits are all set and its fraction is not zero.
\<close>

definition is_nan :: "double \<Rightarrow> bool" where
  "is_nan d \<longleftrightarrow> unat d mod 2 ^ 63 > 0x7FF * 2 ^ 52"

text \<open>\<open>INSERT OR REPLACE\<close> deletes the row with the same key and appends the new one.\<close>

definition insert_transition :: "TrustStore \<Rightarrow> time \<Rightarrow> TransitionCertificate \<Rightarrow> TrustStore" where
  "insert_transition S now cert =
     S\<lparr>identity_transitions :=
        dict_pop (identity_transitions S) (tc_old_device_id cert, tc_new_device_id cert)
        @ [((tc_old_device_id cert, tc_new_device_id cert),
            \<lparr>tr_old_public_key = tc_old_public_key cert, tr_new_public_key = tc_new_public_key cert,
             tr_timestamp = tc_timestamp cert, tr_signature = tc_signature cert,
             tr_recorded_at = now\<rparr>)]\<rparr>"

definition carry_trust :: "TrustStore \<Rightarrow> time \<Rightarrow> TransitionCertificate \<Rightarrow> TrustedDevice option \<Rightarrow> TrustStore" where
  "carry_trust S now cert old_device =
     (case old_device of
        None \<Rightarrow> S
      | Some old \<Rightarrow>
          if td_status old \<noteq> TRUSTED then S
          else case get_device S (tc_new_device_id cert) of
            None \<Rightarrow> insert_device S now (tc_new_device_id cert) (tc_new_public_key cert) (td_name old) TRUSTED
          | Some new \<Rightarrow>
              if td_status new \<noteq> TRUSTED \<and> td_status new \<noteq> REVOKED
              then update_device S (tc_new_device_id cert) (\<lambda>d. d\<lparr>td_status := TRUSTED, td_last_seen := now\<rparr>)
              else S)"

definition record_rotation ::
  "'x ed25519_scheme \<Rightarrow> TrustStore \<Rightarrow> time \<Rightarrow> TransitionCertificate
     \<Rightarrow> (trust_error + TrustStore) \<times> notice list" where
  "record_rotation C S now cert =
     (let (valid, notices) = verify_transition_certificate C cert;
          old_device = get_device S (tc_old_device_id cert) in
      if \<not> valid
      then (Inl InvalidCertificate, notices @ [(INVALID_ROTATION, WARNING, Some (tc_old_device_id cert))])
      else if old_device \<noteq> None \<and> td_status (the old_device) = REVOKED
      then (Inl OldDeviceRevoked, [(REVOKED_DEVICE_ATTEMPT, HIGH, Some (tc_old_device_id cert))])
      else if is_nan (tc_timestamp cert) then (Inl IntegrityError, [])
      else (Inr (carry_trust (insert_transition S now cert) now cert old_device),
            [(KEY_ROTATION, INFO, Some (tc_new_device_id cert))]))"

definition successors :: "(pystr \<times> pystr) list \<Rightarrow> pystr \<Rightarrow> pystr list" where
  "successors es d = map snd (filter (\<lambda>e. fst e = d) es)"

definition predecessors :: "(pystr \<times> pystr) list \<Rightarrow> pystr \<Rightarrow> pystr list" where
  "predecessors es d = map fst (filter (\<lambda>e. snd e = d) es)"

definition nodes :: "(pystr \<times> pystr) list \<Rightarrow> pystr set" where
  "nodes es = fst ` set es \<union> snd ` set es"

lemma finite_nodes [simp]: "finite (nodes es)"
  by (simp add: nodes_def)

lemma outside_nodes: "d \<notin> nodes es \<Longrightarrow> successors es d = [] \<and> predecessors es d = []"
  by (force simp: nodes_def successors_def predecessors_def filter_empty_conv)

text \<open>The loop of \<^verbatim>\<open>get_rotation_chain\<close>: the queue is popped at its end.\<close>

function chain_loop :: "(pystr \<times> pystr) list \<Rightarrow> pystr list \<Rightarrow> pystr list \<Rightarrow> pystr list" where
  "chain_loop es visited queue =
     (if queue = [] then visited
      else
        let current = last queue; queue = butlast queue in
        if current \<in> set visited then chain_loop es visited queue
        else chain_loop es (visited @ [current])
          (queue @ successors es current @ predecessors es current))"
  by pat_completeness auto
termination
proof (relation "measures [\<lambda>(es, visited, queue). card (nodes es - set visited), \<lambda>(es, visited, queue). length queue]",
    goal_cases)
  case 1
  then show ?case by simp
next
  case (2 es visited queue)
  then show ?case by simp
next
  case (3 es visited queue current q)
  show ?case
  proof (cases "current \<in> nodes es")
    case True
    then have "nodes es - set (visited @ [current]) \<subset> nodes es - set visited" using 3 by auto
    then have "card (nodes es - set (visited @ [current])) < card (nodes es - set visited)"
      by (intro psubset_card_mono) auto
    then show ?thesis by simp
  next
    case False
    then have "nodes es - set (visited @ [current]) = nodes es - set visited" by auto
    with False 3 show ?thesis by (simp add: outside_nodes)
  qed
qed

declare chain_loop.simps [simp del]

definition edges :: "TrustStore \<Rightarrow> (pystr \<times> pystr) list" where
  "edges S = map fst (identity_transitions S)"

text \<open>The order of doubles: sign and magnitude.\<close>

definition double_key :: "double \<Rightarrow> int" where
  "double_key d =
     (if unat d \<ge> 2 ^ 63 then - int (unat d - 2 ^ 63) else int (unat d))"

definition order_key :: "TrustStore \<Rightarrow> pystr \<Rightarrow> int" where
  "order_key S did =
     (case filter (\<lambda>(k, row). snd k = did) (identity_transitions S) of
        [] \<Rightarrow> 0
      | (k, row) # _ \<Rightarrow> double_key (tr_timestamp row))"

definition get_rotation_chain :: "(pystr list \<Rightarrow> pystr list) \<Rightarrow> TrustStore \<Rightarrow> pystr \<Rightarrow> pystr list" where
  "get_rotation_chain iter S device_id =
     sort_key (order_key S) (iter (chain_loop (edges S) [] [device_id]))"

fun scan_chain :: "TrustStore \<Rightarrow> pystr list \<Rightarrow> bool \<Rightarrow> pystr option \<times> bool" where
  "scan_chain S [] trusted = (None, trusted)"
| "scan_chain S (c # chain) trusted =
     (case get_device S c of
        None \<Rightarrow> scan_chain S chain trusted
      | Some node \<Rightarrow>
          if td_status node = REVOKED then (Some c, trusted)
          else scan_chain S chain (trusted \<or> td_status node = TRUSTED))"

definition check_with_rotation ::
  "(pystr list \<Rightarrow> pystr list) \<Rightarrow> TrustStore \<Rightarrow> pystr \<Rightarrow> pystr \<Rightarrow> TrustDecision \<times> notice list" where
  "check_with_rotation iter S device_id public_key =
     (let (direct, notices) = check S device_id public_key in
      if direct = D_KEY_CHANGED then (direct, notices)
      else case scan_chain S (get_rotation_chain iter S device_id) False of
        (Some tainted_by, _) \<Rightarrow>
          (D_REVOKED, notices @
             (if direct \<noteq> D_REVOKED then [(REVOKED_DEVICE_ATTEMPT, HIGH, Some device_id)] else []))
      | (None, True) \<Rightarrow> (D_TRUSTED, notices)
      | (None, False) \<Rightarrow> (direct, notices))"

section \<open>The store as a keyed table\<close>

definition store_ok :: "TrustStore \<Rightarrow> bool" where
  "store_ok S \<longleftrightarrow>
     dict_ok (trusted_devices S) \<and> dict_ok (identity_transitions S) \<and>
     (\<forall>d dev. get_device S d = Some dev \<longrightarrow> td_device_id dev = d)"

lemma get_update_device [simp]:
  "get_device (update_device S d f) d' =
     (if d' = d then map_option f (get_device S d) else get_device S d')"
  by (auto simp: update_device_def get_device_def split: option.splits)

lemma get_insert_device [simp]:
  "get_device (insert_device S now d pk name st) d' =
     (if d' = d then
        Some \<lparr>td_device_id = d, td_public_key = pk, td_name = name, td_first_seen = now,
          td_last_seen = now, td_status = st, td_revoked_by = None, td_revoked_at = None,
          td_revoke_reason = None\<rparr>
      else get_device S d')"
  by (simp add: insert_device_def get_device_def)

lemma get_insert_transition [simp]: "get_device (insert_transition S now cert) d = get_device S d"
  by (simp add: insert_transition_def get_device_def)

section \<open>Runs of operations\<close>

text \<open>
  The operations that change the store, each with its clock reading. An operation that
  raises leaves the store as it was.
\<close>

datatype trust_op =
    FirstSeen time pystr pystr pystr
  | Touch time pystr
  | Approve pystr
  | Revoke time pystr pystr "pystr option"
  | Rotate time TransitionCertificate

definition keep :: "TrustStore \<Rightarrow> trust_error + TrustStore \<Rightarrow> TrustStore" where
  "keep S r = (case r of Inr S' \<Rightarrow> S' | Inl _ \<Rightarrow> S)"

definition trust_step :: "'x ed25519_scheme \<Rightarrow> TrustStore \<Rightarrow> trust_op \<Rightarrow> TrustStore" where
  "trust_step C S op =
     (case op of
        FirstSeen now d pk name \<Rightarrow> keep S (record_first_seen S now d pk name)
      | Touch now d \<Rightarrow> touch_last_seen S now d
      | Approve d \<Rightarrow> keep S (approve S d)
      | Revoke now d by_whom reason \<Rightarrow> keep S (revoke_device S now d by_whom reason)
      | Rotate now cert \<Rightarrow> keep S (fst (record_rotation C S now cert)))"

lemmas trust_defs =
  trust_step_def keep_def record_first_seen_def touch_last_seen_def approve_def revoke_device_def
  set_revoked_def

lemma dict_ok_append: "dict_ok d \<Longrightarrow> k \<notin> fst ` set d \<Longrightarrow> dict_ok (d @ [(k, v)])"
  by (auto simp: dict_ok_def)

lemma store_ok_update_device:
  "store_ok S \<Longrightarrow> (\<And>x. td_device_id (f x) = td_device_id x) \<Longrightarrow> store_ok (update_device S d f)"
  by (auto simp: store_ok_def) (auto simp: update_device_def split: option.splits)

lemma store_ok_insert_device: "store_ok S \<Longrightarrow> store_ok (insert_device S now d pk name st)"
  by (auto simp: store_ok_def) (auto simp: insert_device_def)

lemma store_ok_insert_transition: "store_ok S \<Longrightarrow> store_ok (insert_transition S now cert)"
  by (auto simp: store_ok_def) (auto simp: insert_transition_def dict_pop_def intro!: dict_ok_append)

lemma store_ok_carry_trust: "store_ok S \<Longrightarrow> store_ok (carry_trust S now cert old)"
  by (auto simp: carry_trust_def store_ok_insert_device store_ok_update_device split: option.splits)

lemma record_rotation_Inr:
  "fst (record_rotation C S now cert) = Inr S' \<longleftrightarrow>
     certificate_valid C cert \<and>
     (\<forall>old. get_device S (tc_old_device_id cert) = Some old \<longrightarrow> td_status old \<noteq> REVOKED) \<and>
     \<not> is_nan (tc_timestamp cert) \<and>
     S' = carry_trust (insert_transition S now cert) now cert (get_device S (tc_old_device_id cert))"
  by (auto simp: record_rotation_def verify_transition_certificate_def Let_def)

lemma keep_rotation_cases:
  "keep S (fst (record_rotation C S now cert)) = S \<or>
   keep S (fst (record_rotation C S now cert))
     = carry_trust (insert_transition S now cert) now cert (get_device S (tc_old_device_id cert))"
proof (cases "fst (record_rotation C S now cert)")
  case (Inr S')
  then have "S' = carry_trust (insert_transition S now cert) now cert (get_device S (tc_old_device_id cert))"
    by (simp add: record_rotation_Inr)
  with Inr show ?thesis by (simp add: keep_def)
qed (simp add: keep_def)

lemma store_ok_trust_step: "store_ok S \<Longrightarrow> store_ok (trust_step C S op)"
proof (cases op)
  case (Rotate now cert)
  assume "store_ok S"
  with Rotate show ?thesis
    using keep_rotation_cases [of S C now cert] store_ok_carry_trust store_ok_insert_transition
    by (auto simp: trust_step_def)
qed (auto simp: trust_defs store_ok_insert_device store_ok_update_device split: option.splits)

interpretation store_inv: step_system "trust_step C" store_ok for C
  by unfold_locales (rule store_ok_trust_step)

lemma carry_trust_keeps:
  assumes "get_device S d = Some dev"
  shows "\<exists>dev'. get_device (carry_trust S now cert old) d = Some dev' \<and>
    td_public_key dev' = td_public_key dev \<and> (td_status dev = REVOKED \<longrightarrow> td_status dev' = REVOKED) \<and>
    (td_status dev = TRUSTED \<longrightarrow> td_status dev' = TRUSTED)"
  using assms by (auto simp: carry_trust_def split: option.splits)

text \<open>What every operation keeps of a device that is in the store.\<close>

definition pinned :: "pystr \<Rightarrow> pystr \<Rightarrow> TrustStore \<Rightarrow> bool" where
  "pinned d pk S \<longleftrightarrow> (\<exists>dev. get_device S d = Some dev \<and> td_public_key dev = pk)"

lemma pinned_trust_step: "pinned d pk S \<Longrightarrow> pinned d pk (trust_step C S op)"
proof (cases op)
  case (Rotate now cert)
  assume "pinned d pk S"
  with Rotate show ?thesis
    using keep_rotation_cases [of S C now cert]
      carry_trust_keeps [of "insert_transition S now cert" d]
    by (fastforce simp: trust_step_def pinned_def)
qed (auto simp: trust_defs pinned_def split: option.splits)

interpretation tofu: step_system "trust_step C" "pinned d pk" for C d pk
  by unfold_locales (rule pinned_trust_step)

lemma is_revoked_iff: "is_revoked S d \<longleftrightarrow> (\<exists>dev. get_device S d = Some dev \<and> td_status dev = REVOKED)"
  by (auto simp: is_revoked_def split: option.splits)

lemma revoked_trust_step: "is_revoked S d \<Longrightarrow> is_revoked (trust_step C S op) d"
proof (cases op)
  case (Rotate now cert)
  assume "is_revoked S d"
  with Rotate show ?thesis
    using keep_rotation_cases [of S C now cert]
      carry_trust_keeps [of "insert_transition S now cert" d]
    by (fastforce simp: trust_step_def is_revoked_iff)
qed (auto simp: trust_defs is_revoked_iff split: option.splits)

interpretation revocation: step_system "trust_step C" "\<lambda>S. is_revoked S d" for C d
  by unfold_locales (rule revoked_trust_step)

text \<open>
  Claim C10. Revocation is final: whatever operations follow, in whatever order,
  the device stays revoked and no public key makes the store call it trusted, pending or
  unknown.
\<close>

theorem revoked_is_terminal:
  assumes "is_revoked S d"
  shows "is_revoked (foldl (trust_step C) S ops) d \<and>
    fst (check (foldl (trust_step C) S ops) d pk) \<in> {D_REVOKED, D_KEY_CHANGED}"
proof -
  have "is_revoked (foldl (trust_step C) S ops) d"
    using assms by (rule revocation.run_stays)
  then show ?thesis
    by (auto simp: is_revoked_def check_def split: option.splits)
qed

text \<open>
  Claim C28. The key recorded for a device at first sight is never replaced: after
  any operations the store holds that key, and another key for the device is reported as
  changed and emits a warning.
\<close>

theorem stored_key_is_pinned:
  assumes "get_device S d = Some dev" and "pk \<noteq> td_public_key dev"
  shows "check (foldl (trust_step C) S ops) d pk = (D_KEY_CHANGED, [(IDENTITY_CHANGED, WARNING, Some d)])"
proof -
  have "pinned d (td_public_key dev) (foldl (trust_step C) S ops)"
    by (rule tofu.run_stays) (simp add: pinned_def assms(1))
  with assms(2) show ?thesis by (auto simp: pinned_def check_def)
qed

section \<open>Where trust comes from\<close>

definition is_trusted :: "TrustStore \<Rightarrow> pystr \<Rightarrow> bool" where
  "is_trusted S d \<longleftrightarrow> (\<exists>dev. get_device S d = Some dev \<and> td_status dev = TRUSTED)"

text \<open>
  A device is vouched for by a run when the user approved it in the run, or a valid
  certificate in the run rotates to it from a device that is vouched for.
\<close>

inductive vouched :: "'x ed25519_scheme \<Rightarrow> trust_op list \<Rightarrow> pystr \<Rightarrow> bool"
  for C :: "'x ed25519_scheme" and ops :: "trust_op list" where
  approved: "Approve d \<in> set ops \<Longrightarrow> vouched C ops d"
| rotated: "Rotate now cert \<in> set ops \<Longrightarrow> certificate_valid C cert \<Longrightarrow>
    vouched C ops (tc_old_device_id cert) \<Longrightarrow> vouched C ops (tc_new_device_id cert)"

lemma vouched_mono: "vouched C ops d \<Longrightarrow> set ops \<subseteq> set ops' \<Longrightarrow> vouched C ops' d"
  by (induction rule: vouched.induct) (auto intro: vouched.intros)

lemma trusted_carry:
  assumes "is_trusted (carry_trust S now cert old) d" and "\<not> is_trusted S d"
  shows "d = tc_new_device_id cert \<and> (\<exists>dv. old = Some dv \<and> td_status dv = TRUSTED)"
  using assms by (auto simp: carry_trust_def is_trusted_def split: option.splits if_splits)

lemma trusted_step_cause:
  assumes "is_trusted (trust_step C S op) d" and "\<not> is_trusted S d"
  shows "op = Approve d \<or> (\<exists>now cert. op = Rotate now cert \<and> certificate_valid C cert \<and>
    tc_new_device_id cert = d \<and> is_trusted S (tc_old_device_id cert))"
proof (cases op)
  case (Rotate now cert)
  let ?r = "fst (record_rotation C S now cert)"
  obtain S' where S': "?r = Inr S'"
    using assms Rotate by (cases ?r) (auto simp: trust_step_def keep_def)
  then have eq: "S' = carry_trust (insert_transition S now cert) now cert
      (get_device S (tc_old_device_id cert))"
    and valid: "certificate_valid C cert"
    by (simp_all add: record_rotation_Inr)
  have tr: "is_trusted (carry_trust (insert_transition S now cert) now cert
      (get_device S (tc_old_device_id cert))) d"
    using assms(1) Rotate S' unfolding eq by (simp add: trust_step_def keep_def)
  have "\<not> is_trusted (insert_transition S now cert) d"
    using assms(2) by (simp add: is_trusted_def)
  from trusted_carry [OF tr this] have "d = tc_new_device_id cert" "is_trusted S (tc_old_device_id cert)"
    by (auto simp: is_trusted_def)
  with Rotate valid show ?thesis by blast
qed (use assms in \<open>auto simp: trust_defs is_trusted_def split: option.splits if_splits\<close>)

text \<open>
  Claim C11. In a store that starts empty, every device that is trusted after a run
  of operations was approved by the user in the run, or is the end of a chain of valid
  rotation certificates that starts at a device the user approved.
\<close>

theorem trust_has_a_cause:
  assumes "is_trusted (foldl (trust_step C) empty_store ops) d"
  shows "vouched C ops d"
  using assms
proof (induction ops arbitrary: d rule: rev_induct)
  case Nil
  then show ?case by (simp add: is_trusted_def empty_store_def get_device_def)
next
  case (snoc op ops)
  let ?S = "foldl (trust_step C) empty_store ops"
  have mono: "vouched C ops x \<Longrightarrow> vouched C (ops @ [op]) x" for x
    by (erule vouched_mono) auto
  show ?case
  proof (cases "is_trusted ?S d")
    case True
    then show ?thesis using snoc.IH mono by blast
  next
    case False
    have "is_trusted (trust_step C ?S op) d" using snoc.prems by simp
    from trusted_step_cause [OF this False] show ?thesis
    proof
      assume "op = Approve d"
      then show ?thesis by (simp add: vouched.approved)
    next
      assume "\<exists>now cert. op = Rotate now cert \<and> certificate_valid C cert \<and>
        tc_new_device_id cert = d \<and> is_trusted ?S (tc_old_device_id cert)"
      then show ?thesis using snoc.IH mono vouched.rotated by (metis in_set_conv_decomp)
    qed
  qed
qed

section \<open>Rotation chains\<close>

definition linked :: "(pystr \<times> pystr) list \<Rightarrow> (pystr \<times> pystr) set" where
  "linked es = (set es \<union> (set es)\<inverse>)\<^sup>*"

lemma neighbours: "set (successors es d @ predecessors es d) = (set es \<union> (set es)\<inverse>) `` {d}"
  by (force simp: successors_def predecessors_def)

lemma chain_loop_Nil: "chain_loop es visited [] = visited"
  by (subst chain_loop.simps) simp

lemma chain_loop_seen:
  "queue \<noteq> [] \<Longrightarrow> last queue \<in> set visited \<Longrightarrow>
     chain_loop es visited queue = chain_loop es visited (butlast queue)"
  by (subst chain_loop.simps) (simp add: Let_def)

lemma chain_loop_unseen:
  "queue \<noteq> [] \<Longrightarrow> last queue \<notin> set visited \<Longrightarrow>
     chain_loop es visited queue = chain_loop es (visited @ [last queue])
       (butlast queue @ successors es (last queue) @ predecessors es (last queue))"
  by (subst chain_loop.simps) (simp add: Let_def)

lemma set_last_butlast: "queue \<noteq> [] \<Longrightarrow> set queue = insert (last queue) (set (butlast queue))"
  by (metis append_butlast_last_id list.set(1,2) set_append Un_insert_right sup_bot_right)

lemma chain_loop_sound: "set (chain_loop es visited queue) \<subseteq> set visited \<union> linked es `` set queue"
proof (induction es visited queue rule: chain_loop.induct)
  case (1 es visited queue)
  let ?c = "last queue" and ?q = "butlast queue"
  show ?case
  proof (cases "queue = []")
    case True
    then show ?thesis by (simp add: chain_loop_Nil)
  next
    case False
    note q = set_last_butlast [OF False]
    have sub: "linked es `` set ?q \<subseteq> linked es `` set queue" unfolding q by blast
    show ?thesis
    proof (cases "?c \<in> set visited")
      case True
      with "1.IH"(1) [OF False refl refl True] sub show ?thesis
        unfolding chain_loop_seen [OF False True] by blast
    next
      case unseen: False
      have self: "?c \<in> linked es `` set queue" unfolding q linked_def by blast
      have "(?c, y) \<in> linked es" if "(?c, x) \<in> set es \<union> (set es)\<inverse>" "(x, y) \<in> linked es" for x y
        using that unfolding linked_def by (rule converse_rtrancl_into_rtrancl)
      then have nb: "linked es `` ((set es \<union> (set es)\<inverse>) `` {?c}) \<subseteq> linked es `` set queue"
        unfolding q by blast
      have "set (chain_loop es (visited @ [?c]) (?q @ successors es ?c @ predecessors es ?c))
          \<subseteq> set (visited @ [?c]) \<union> linked es `` set (?q @ successors es ?c @ predecessors es ?c)"
        by (rule "1.IH"(2) [OF False refl refl unseen])
      also have "\<dots> \<subseteq> set visited \<union> linked es `` set queue"
        unfolding set_append [of ?q] neighbours Image_Un using self nb sub by auto
      finally show ?thesis unfolding chain_loop_unseen [OF False unseen] .
    qed
  qed
qed

definition closed_under :: "(pystr \<times> pystr) list \<Rightarrow> pystr set \<Rightarrow> pystr set \<Rightarrow> bool" where
  "closed_under es A B \<longleftrightarrow> (\<forall>x \<in> A. \<forall>y. (x, y) \<in> set es \<union> (set es)\<inverse> \<longrightarrow> y \<in> B)"

lemma closed_underD: "closed_under es A B \<Longrightarrow> x \<in> A \<Longrightarrow> (x, y) \<in> set es \<union> (set es)\<inverse> \<Longrightarrow> y \<in> B"
  unfolding closed_under_def by blast

lemma closed_under_mono: "closed_under es A B \<Longrightarrow> B \<subseteq> B' \<Longrightarrow> closed_under es A B'"
  by (auto simp: closed_under_def)

lemma closed_under_insert:
  "closed_under es (insert x A) B \<longleftrightarrow> (set es \<union> (set es)\<inverse>) `` {x} \<subseteq> B \<and> closed_under es A B"
  by (auto simp: closed_under_def)

lemma chain_loop_closed:
  assumes "closed_under es (set visited) (set visited \<union> set queue)"
  shows "set visited \<union> set queue \<subseteq> set (chain_loop es visited queue) \<and>
    closed_under es (set (chain_loop es visited queue)) (set (chain_loop es visited queue))"
  using assms
proof (induction es visited queue rule: chain_loop.induct)
  case (1 es visited queue)
  let ?c = "last queue" and ?q = "butlast queue"
  show ?case
  proof (cases "queue = []")
    case True
    with "1.prems" show ?thesis by (simp add: chain_loop_Nil)
  next
    case False
    show ?thesis
    proof (cases "?c \<in> set visited")
      case True
      have same: "set visited \<union> set queue = set visited \<union> set ?q"
        unfolding set_last_butlast [OF False] using True by blast
      with "1.prems" have "closed_under es (set visited) (set visited \<union> set ?q)" by (simp only:)
      from "1.IH"(1) [OF False refl refl True this] show ?thesis
        unfolding chain_loop_seen [OF False True] same .
    next
      case unseen: False
      let ?n = "?q @ successors es ?c @ predecessors es ?c"
      have sub: "set visited \<union> set queue \<subseteq> set (visited @ [?c]) \<union> set ?n"
        unfolding set_last_butlast [OF False] by auto
      have nb: "(set es \<union> (set es)\<inverse>) `` {?c} \<subseteq> set (visited @ [?c]) \<union> set ?n"
        unfolding set_append [of ?q] neighbours by blast
      have "closed_under es (insert ?c (set visited)) (set (visited @ [?c]) \<union> set ?n)"
        unfolding closed_under_insert
        using nb closed_under_mono [OF "1.prems" sub] by (rule conjI)
      then have "closed_under es (set (visited @ [?c])) (set (visited @ [?c]) \<union> set ?n)"
        by simp
      from "1.IH"(2) [OF False refl refl unseen this] sub show ?thesis
        unfolding chain_loop_unseen [OF False unseen] by (meson order_trans)
    qed
  qed
qed

lemma chain_loop_set: "set (chain_loop es [] [d]) = linked es `` {d}"
proof
  let ?R = "set (chain_loop es [] [d])"
  show "?R \<subseteq> linked es `` {d}"
    using chain_loop_sound [of es "[]" "[d]"] by simp
  have "closed_under es (set []) (set [] \<union> set [d])"
    by (simp add: closed_under_def)
  note loop = chain_loop_closed [OF this]
  then have base: "d \<in> ?R" and closed: "closed_under es ?R ?R" by simp_all
  have "y \<in> ?R" if "(d, y) \<in> (set es \<union> (set es)\<inverse>)\<^sup>*" for y
    using that
  proof (induction rule: rtrancl_induct)
    case base
    show ?case by (rule \<open>d \<in> ?R\<close>)
  next
    case (step y z)
    show ?case by (rule closed_underD [OF closed step.IH step.hyps(2)])
  qed
  then show "linked es `` {d} \<subseteq> ?R" unfolding linked_def by blast
qed

definition set_order :: "(pystr list \<Rightarrow> pystr list) \<Rightarrow> bool" where
  "set_order iter \<longleftrightarrow> (\<forall>xs. set (iter xs) = set xs)"

text \<open>
  The rotation chain of a device is exactly the set of devices
  linked to it by recorded rotations, followed in either direction, whatever order the
  interpreter iterates over a set in; the search always ends.
\<close>

theorem rotation_chain_is_component:
  assumes "set_order iter"
  shows "set (get_rotation_chain iter S d) = linked (edges S) `` {d}"
  using assms by (simp add: get_rotation_chain_def set_order_def chain_loop_set)

lemma is_revoked_status: "get_device S c = Some node \<Longrightarrow> is_revoked S c \<longleftrightarrow> td_status node = REVOKED"
  by (simp add: is_revoked_iff)

lemma is_trusted_status: "get_device S c = Some node \<Longrightarrow> is_trusted S c \<longleftrightarrow> td_status node = TRUSTED"
  by (simp add: is_trusted_def)

lemma status_None: "get_device S c = None \<Longrightarrow> \<not> is_revoked S c" "get_device S c = None \<Longrightarrow> \<not> is_trusted S c"
  by (simp_all add: is_revoked_iff is_trusted_def)

lemma scan_chain_revoked: "fst (scan_chain S chain t) = None \<longleftrightarrow> list_all (\<lambda>c. \<not> is_revoked S c) chain"
  by (induction chain arbitrary: t)
    (simp_all add: is_revoked_status status_None split: option.split)

lemma scan_chain_trusted:
  "fst (scan_chain S chain t) = None \<Longrightarrow>
     snd (scan_chain S chain t) \<longleftrightarrow> t \<or> list_ex (is_trusted S) chain"
  by (induction chain arbitrary: t)
    (auto simp: is_trusted_status status_None split: option.splits if_splits)


section \<open>What a certificate does not prove\<close>

definition forged_certificate ::
  "'x ed25519_scheme \<Rightarrow> DeviceKeypair \<Rightarrow> pystr \<Rightarrow> pystr \<Rightarrow> TransitionCertificate" where
  "forged_certificate C attacker victim new_id =
     (let pk = b64encode (kp_public attacker) in
      \<lparr>tc_old_device_id = victim, tc_old_public_key = pk, tc_new_device_id = new_id,
       tc_new_public_key = pk, tc_timestamp = 0,
       tc_signature = b64encode (sign C attacker (the (build_payload victim new_id pk pk 0)))\<rparr>)"

text \<open>
  Claim C35. The verification of a certificate does not check that the old
  key is the key of the old device: anyone with a keypair of their own can sign a
  certificate that names a trusted device as the old one, and the store then trusts the new
  device, with the attacker's key.
\<close>

theorem forged_rotation_accepted:
  assumes "ed25519_ok C" "wf_keypair C attacker"
    and "get_device S victim = Some dev" "td_status dev = TRUSTED" "get_device S new_id = None"
    and "list_all is_ascii victim" "list_all is_ascii new_id"
  shows "\<exists>S'. record_rotation C S now (forged_certificate C attacker victim new_id)
      = (Inr S', [(KEY_ROTATION, INFO, Some new_id)]) \<and>
    fst (check S' new_id (b64encode (kp_public attacker))) = D_TRUSTED"
proof -
  let ?pk = "b64encode (kp_public attacker)" and ?c = "forged_certificate C attacker victim new_id"
  obtain p where p: "build_payload victim new_id ?pk ?pk 0 = Some p"
    using build_payload_ascii [OF assms(6,7) b64encode_ascii b64encode_ascii] by blast
  have fields: "tc_old_device_id ?c = victim" "tc_new_device_id ?c = new_id" "tc_new_public_key ?c = ?pk"
    "\<not> is_nan (tc_timestamp ?c)"
    by (simp_all add: forged_certificate_def Let_def is_nan_def)
  have valid: "certificate_valid C ?c"
    by (rule signed_certificate_valid [OF assms(1,2)])
      (simp_all add: forged_certificate_def Let_def cert_payload_def p)
  let ?S = "carry_trust (insert_transition S now ?c) now ?c (Some dev)"
  have "record_rotation C S now ?c = (Inr ?S, [(KEY_ROTATION, INFO, Some new_id)])"
    using valid assms(3,4) fields by (simp add: record_rotation_def verify_transition_certificate_def)
  moreover have "?S = insert_device (insert_transition S now ?c) now new_id ?pk (td_name dev) TRUSTED"
    using assms(4,5) fields by (simp add: carry_trust_def)
  then have "fst (check ?S new_id ?pk) = D_TRUSTED"
    by (simp add: check_def)
  ultimately show ?thesis by blast
qed

section \<open>Witnesses\<close>

definition two_devices :: TrustStore where
  "two_devices =
     insert_device (insert_device empty_store 1 (lit ''aa'') (lit ''k1'') (lit ''ann'') TRUSTED)
       2 (lit ''bb'') (lit ''k2'') (lit ''bob'') REVOKED"

lemma two_devices_get:
  "get_device two_devices (lit ''aa'') = Some \<lparr>td_device_id = lit ''aa'', td_public_key = lit ''k1'',
     td_name = lit ''ann'', td_first_seen = 1, td_last_seen = 1, td_status = TRUSTED, td_revoked_by = None,
     td_revoked_at = None, td_revoke_reason = None\<rparr>"
  "is_revoked two_devices (lit ''bb'')"
  "get_device two_devices (lit ''cc'') = None"
  by (simp_all add: two_devices_def is_revoked_iff) (simp add: empty_store_def get_device_def)

theorem revoked_is_terminal_witness:
  "is_revoked (foldl (trust_step toy_ed25519) two_devices [Approve (lit ''bb''), Touch 3 (lit ''bb'')]) (lit ''bb'') \<and>
   fst (check (foldl (trust_step toy_ed25519) two_devices [Approve (lit ''bb''), Touch 3 (lit ''bb'')])
     (lit ''bb'') (lit ''k2'')) \<in> {D_REVOKED, D_KEY_CHANGED}"
  by (rule revoked_is_terminal) (simp add: two_devices_get)

theorem stored_key_is_pinned_witness:
  "check (foldl (trust_step toy_ed25519) two_devices [FirstSeen 5 (lit ''aa'') (lit ''kx'') (lit ''eve'')])
     (lit ''aa'') (lit ''kx'') = (D_KEY_CHANGED, [(IDENTITY_CHANGED, WARNING, Some (lit ''aa''))])"
  by (rule stored_key_is_pinned [OF two_devices_get(1)]) simp

theorem trust_has_a_cause_witness:
  "vouched toy_ed25519 [FirstSeen 1 (lit ''aa'') (lit ''k1'') (lit ''ann''), Approve (lit ''aa'')] (lit ''aa'')"
  by (rule trust_has_a_cause)
    (simp add: is_trusted_def trust_step_def keep_def record_first_seen_def approve_def
      get_device_def empty_store_def insert_device_def update_device_def)

theorem rotation_chain_is_component_witness:
  "set (get_rotation_chain id two_devices (lit ''aa'')) = linked (edges two_devices) `` {lit ''aa''}"
  by (rule rotation_chain_is_component) (simp add: set_order_def)


theorem forged_rotation_accepted_witness:
  "\<exists>S'. record_rotation toy_ed25519 two_devices 9
      (forged_certificate toy_ed25519 (generate_keypair toy_ed25519 [6]) (lit ''aa'') (lit ''cc''))
      = (Inr S', [(KEY_ROTATION, INFO, Some (lit ''cc''))]) \<and>
    fst (check S' (lit ''cc'') (b64encode (kp_public (generate_keypair toy_ed25519 [6])))) = D_TRUSTED"
  by (rule forged_rotation_accepted [OF toy_ed25519_ok _ two_devices_get(1)])
    (simp_all add: two_devices_get generate_keypair_def, simp_all add: lit_def is_ascii_def)

end
