(* ===== verification/Channel.thy ===== *)
theory Channel
  imports Identity
begin

text \<open>
  Session keys and the encrypted channel: \<^verbatim>\<open>core/crypto/key_exchange.py\<close>,
  \<^verbatim>\<open>core/crypto/kdf.py\<close> and \<^verbatim>\<open>core/crypto/encryption.py\<close>. X25519, HKDF-SHA256 and
  ChaCha20-Poly1305 come from the \<^verbatim>\<open>cryptography\<close> package and are further fields of the
  record of primitives; \<open>x25519_ok\<close>, \<open>hkdf_ok\<close> and \<open>aead_ok\<close> state what is relied on.
\<close>

record crypto = ed25519 +
  x_public :: "bytes \<Rightarrow> bytes"
  x_exchange :: "bytes \<Rightarrow> bytes \<Rightarrow> bytes option"
  hkdf :: "bytes \<Rightarrow> bytes \<Rightarrow> bytes \<Rightarrow> nat \<Rightarrow> bytes"
  aead_encrypt :: "bytes \<Rightarrow> bytes \<Rightarrow> bytes \<Rightarrow> bytes option \<Rightarrow> bytes"
  aead_decrypt :: "bytes \<Rightarrow> bytes \<Rightarrow> bytes \<Rightarrow> bytes option \<Rightarrow> bytes option"

text \<open>
  Diffie-Hellman: both sides compute the same 32-byte secret from honest keys. \<open>None\<close> is the
  \<^verbatim>\<open>ValueError\<close> that \<^verbatim>\<open>exchange\<close> raises on a low-order public key.
\<close>

definition x25519_ok :: "'x crypto_scheme \<Rightarrow> bool" where
  "x25519_ok C \<longleftrightarrow>
     (\<forall>a. length (x_public C a) = 32) \<and>
     (\<forall>a b. \<exists>s. length s = 32 \<and> x_exchange C a (x_public C b) = Some s
        \<and> x_exchange C b (x_public C a) = Some s)"

definition hkdf_ok :: "'x crypto_scheme \<Rightarrow> bool" where
  "hkdf_ok C \<longleftrightarrow> (\<forall>ikm salt info n. length (hkdf C ikm salt info n) = n)"

text \<open>
  The AEAD: decryption inverts encryption, a ciphertext is the 16-byte tag longer than its
  plaintext, and a ciphertext that decrypts is the encryption of what it decrypts to.
\<close>

definition aead_ok :: "'x crypto_scheme \<Rightarrow> bool" where
  "aead_ok C \<longleftrightarrow>
     (\<forall>k n m ad. aead_decrypt C k n (aead_encrypt C k n m ad) ad = Some m) \<and>
     (\<forall>k n m ad. length (aead_encrypt C k n m ad) = length m + 16) \<and>
     (\<forall>k n c m ad. aead_decrypt C k n c ad = Some m \<longrightarrow> c = aead_encrypt C k n m ad)"

section \<open>Ephemeral keys\<close>

definition X25519_KEY_SIZE :: nat where
  "X25519_KEY_SIZE = 32"

record EphemeralKeypair =
  eph_private :: bytes
  eph_public :: bytes

definition generate_ephemeral_keypair :: "'x crypto_scheme \<Rightarrow> bytes \<Rightarrow> EphemeralKeypair" where
  "generate_ephemeral_keypair C fresh = \<lparr>eph_private = fresh, eph_public = x_public C fresh\<rparr>"

definition public_key_hex :: "EphemeralKeypair \<Rightarrow> pystr" where
  "public_key_hex e = bytes_hex (eph_public e)"

definition ephemeral_public_from_bytes :: "bytes \<Rightarrow> bytes option" where
  "ephemeral_public_from_bytes data = (if length data \<noteq> X25519_KEY_SIZE then None else Some data)"

definition ephemeral_public_from_hex :: "pystr \<Rightarrow> bytes option" where
  "ephemeral_public_from_hex hex_str =
     (case bytes_fromhex hex_str of None \<Rightarrow> None | Some raw \<Rightarrow> ephemeral_public_from_bytes raw)"

definition compute_shared_secret :: "'x crypto_scheme \<Rightarrow> bytes \<Rightarrow> bytes \<Rightarrow> bytes option" where
  "compute_shared_secret C private_key peer_public_key = x_exchange C private_key peer_public_key"

section \<open>Session keys\<close>

definition KEY_LEN :: nat where
  "KEY_LEN = 32"

definition SESSION_ID_LEN :: nat where
  "SESSION_ID_LEN = 16"

definition INFO_INIT_TO_RESP :: bytes where
  "INFO_INIT_TO_RESP = blit ''peerc-v2:initiator-to-responder''"

definition INFO_RESP_TO_INIT :: bytes where
  "INFO_RESP_TO_INIT = blit ''peerc-v2:responder-to-initiator''"

definition INFO_SESSION_ID :: bytes where
  "INFO_SESSION_ID = blit ''peerc-v2:session-id''"

record SessionKeys =
  send_key :: bytes
  recv_key :: bytes
  session_id :: pystr

datatype kdf_error = SecretLength nat | SaltLength nat

definition derive_session_keys ::
  "'x crypto_scheme \<Rightarrow> bytes \<Rightarrow> bytes \<Rightarrow> bool \<Rightarrow> kdf_error + SessionKeys" where
  "derive_session_keys C shared_secret salt is_initiator =
     (if length shared_secret \<noteq> 32 then Inl (SecretLength (length shared_secret))
      else if length salt \<noteq> 32 then Inl (SaltLength (length salt))
      else
        let init_to_resp = hkdf C shared_secret salt INFO_INIT_TO_RESP KEY_LEN;
            resp_to_init = hkdf C shared_secret salt INFO_RESP_TO_INIT KEY_LEN;
            sid = bytes_hex (hkdf C shared_secret salt INFO_SESSION_ID SESSION_ID_LEN) in
        Inr (if is_initiator
             then \<lparr>send_key = init_to_resp, recv_key = resp_to_init, session_id = sid\<rparr>
             else \<lparr>send_key = resp_to_init, recv_key = init_to_resp, session_id = sid\<rparr>))"

section \<open>The secure channel\<close>

definition NONCE_LEN :: nat where
  "NONCE_LEN = 12"

definition MAX_SEQUENCE :: int where
  "MAX_SEQUENCE = 2 ^ (NONCE_LEN * 8) - 1"

datatype encryption_error =
    DecryptionError
  | ReplayOrReorderError int int
  | SequenceExhaustedError int
  | BadKeyLength

definition construct_nonce :: "int \<Rightarrow> encryption_error + bytes" where
  "construct_nonce sequence =
     (if sequence < 0 \<or> sequence > MAX_SEQUENCE then Inl (SequenceExhaustedError sequence)
      else Inr (be_bytes NONCE_LEN (nat sequence)))"

record EncryptedFrame =
  ef_sequence :: int
  ef_ciphertext :: bytes

record SecureChannel =
  ch_keys :: SessionKeys
  ch_send_sequence :: int
  ch_expected_recv :: int

definition open_channel :: "SessionKeys \<Rightarrow> encryption_error + SecureChannel" where
  "open_channel keys =
     (if length (send_key keys) \<noteq> KEY_LEN \<or> length (recv_key keys) \<noteq> KEY_LEN then Inl BadKeyLength
      else Inr \<lparr>ch_keys = keys, ch_send_sequence = 0, ch_expected_recv = 0\<rparr>)"

text \<open>\<^verbatim>\<open>associated_data or None\<close>\<close>

definition ad_or_none :: "bytes \<Rightarrow> bytes option" where
  "ad_or_none ad = (if ad = [] then None else Some ad)"

definition encrypt ::
  "'x crypto_scheme \<Rightarrow> SecureChannel \<Rightarrow> bytes \<Rightarrow> bytes \<Rightarrow> encryption_error + EncryptedFrame \<times> SecureChannel" where
  "encrypt C ch plaintext ad =
     res_bind (construct_nonce (ch_send_sequence ch)) (\<lambda>nonce.
       Inr (\<lparr>ef_sequence = ch_send_sequence ch,
             ef_ciphertext = aead_encrypt C (send_key (ch_keys ch)) nonce plaintext (ad_or_none ad)\<rparr>,
            ch\<lparr>ch_send_sequence := ch_send_sequence ch + 1\<rparr>))"

definition decrypt ::
  "'x crypto_scheme \<Rightarrow> SecureChannel \<Rightarrow> int \<Rightarrow> bytes \<Rightarrow> bytes \<Rightarrow> encryption_error + bytes \<times> SecureChannel" where
  "decrypt C ch sequence ciphertext ad =
     (if sequence \<noteq> ch_expected_recv ch
      then Inl (ReplayOrReorderError (ch_expected_recv ch) sequence)
      else res_bind (construct_nonce sequence) (\<lambda>nonce.
        case aead_decrypt C (recv_key (ch_keys ch)) nonce ciphertext (ad_or_none ad) of
          None \<Rightarrow> Inl DecryptionError
        | Some plaintext \<Rightarrow>
            Inr (plaintext, ch\<lparr>ch_expected_recv := ch_expected_recv ch + 1\<rparr>)))"

section \<open>Key agreement\<close>

text \<open>
  From the same secret and transcript the two roles derive crossed
  keys and one session identifier: what one side sends with is what the other receives with.
\<close>

theorem directional_keys_match:
  assumes "derive_session_keys C secret salt True = Inr ki" and "derive_session_keys C secret salt False = Inr kr"
  shows "send_key ki = recv_key kr \<and> recv_key ki = send_key kr \<and> session_id ki = session_id kr"
  using assms by (auto simp: derive_session_keys_def Let_def split: if_splits)

lemma derive_session_keys_Inr:
  "(\<exists>k. derive_session_keys C secret salt role = Inr k) \<longleftrightarrow> length secret = 32 \<and> length salt = 32"
  by (simp add: derive_session_keys_def Let_def)

lemma derived_key_lengths:
  assumes "hkdf_ok C" "derive_session_keys C secret salt role = Inr k"
  shows "length (send_key k) = 32 \<and> length (recv_key k) = 32 \<and> length (session_id k) = 32"
  using assms by (auto simp: derive_session_keys_def hkdf_ok_def Let_def KEY_LEN_def SESSION_ID_LEN_def
      split: if_splits)

section \<open>Streams over the channel\<close>

primrec encrypt_all ::
  "'x crypto_scheme \<Rightarrow> SecureChannel \<Rightarrow> bytes list \<Rightarrow> encryption_error + EncryptedFrame list \<times> SecureChannel" where
  "encrypt_all C ch [] = Inr ([], ch)"
| "encrypt_all C ch (m # ms) =
     res_bind (encrypt C ch m []) (\<lambda>(f, ch').
       res_bind (encrypt_all C ch' ms) (\<lambda>(fs, ch''). Inr (f # fs, ch'')))"

primrec decrypt_all ::
  "'x crypto_scheme \<Rightarrow> SecureChannel \<Rightarrow> EncryptedFrame list \<Rightarrow> encryption_error + bytes list \<times> SecureChannel" where
  "decrypt_all C ch [] = Inr ([], ch)"
| "decrypt_all C ch (f # fs) =
     res_bind (decrypt C ch (ef_sequence f) (ef_ciphertext f) []) (\<lambda>(m, ch').
       res_bind (decrypt_all C ch' fs) (\<lambda>(ms, ch''). Inr (m # ms, ch'')))"

lemma construct_nonce_Inr: "0 \<le> n \<Longrightarrow> n \<le> MAX_SEQUENCE \<Longrightarrow> construct_nonce n = Inr (be_bytes 12 (nat n))"
  by (simp add: construct_nonce_def NONCE_LEN_def)

lemma construct_nonce_inj:
  assumes "construct_nonce m = Inr b" "construct_nonce n = Inr b"
  shows "m = n"
proof -
  have range: "0 \<le> m" "m \<le> MAX_SEQUENCE" "0 \<le> n" "n \<le> MAX_SEQUENCE"
    and eq: "be_bytes 12 (nat m) = be_bytes 12 (nat n)"
    using assms by (auto simp: construct_nonce_def NONCE_LEN_def split: if_splits)
  have "nat k < 256 ^ 12" if "0 \<le> k" "k \<le> MAX_SEQUENCE" for k
    using that by (simp add: MAX_SEQUENCE_def NONCE_LEN_def nat_less_iff)
  then have "nat m = nat n" using eq range by (simp add: be_bytes_inj)
  with range show ?thesis by simp
qed

lemma encrypt_all_sequences:
  "encrypt_all C ch ms = Inr (fs, ch') \<Longrightarrow>
     map ef_sequence fs = map (\<lambda>i. ch_send_sequence ch + int i) [0..<length ms] \<and>
     (\<forall>f \<in> set fs. \<exists>nonce. construct_nonce (ef_sequence f) = Inr nonce)"
proof (induction ms arbitrary: ch fs)
  case (Cons m ms)
  from Cons.prems obtain nonce fs' c where n: "construct_nonce (ch_send_sequence ch) = Inr nonce"
    and fs: "fs = \<lparr>ef_sequence = ch_send_sequence ch, ef_ciphertext = c\<rparr> # fs'"
    and rest: "encrypt_all C (ch\<lparr>ch_send_sequence := ch_send_sequence ch + 1\<rparr>) ms = Inr (fs', ch')"
    by (auto simp: encrypt_def res_simps)
  have "map ef_sequence fs' = map (\<lambda>i. ch_send_sequence ch + int (Suc i)) [0..<length ms]"
    using Cons.IH [OF rest] by (simp add: algebra_simps)
  then have "map ef_sequence fs = map (\<lambda>i. ch_send_sequence ch + int i) [0..<Suc (length ms)]"
    unfolding map_upt_Suc fs by simp
  with Cons.IH [OF rest] n fs show ?case by simp
qed simp

lemma aead_ok_decrypt: "aead_ok C \<Longrightarrow> aead_decrypt C k n (aead_encrypt C k n m ad) ad = Some m"
  unfolding aead_ok_def by blast

lemma aead_ok_length: "aead_ok C \<Longrightarrow> length (aead_encrypt C k n m ad) = length m + 16"
  unfolding aead_ok_def by blast

lemma aead_ok_tight: "aead_ok C \<Longrightarrow> aead_decrypt C k n c ad = Some m \<Longrightarrow> c = aead_encrypt C k n m ad"
  unfolding aead_ok_def by blast

lemma decrypt_encrypted:
  assumes "aead_ok C" "0 \<le> n" "n \<le> MAX_SEQUENCE" "ch_expected_recv ch = n"
  shows "decrypt C ch n (aead_encrypt C (recv_key (ch_keys ch)) (be_bytes 12 (nat n)) m None) []
    = Inr (m, ch\<lparr>ch_expected_recv := n + 1\<rparr>)"
  using assms(2-4) by (simp add: decrypt_def construct_nonce_Inr ad_or_none_def aead_ok_decrypt [OF assms(1)])

text \<open>
  Every sequence of messages sent over one direction of a fresh channel
  arrives: the receiver with the matching key decrypts the frames, in the order sent, to
  exactly the messages.
\<close>

theorem channel_delivers:
  assumes "aead_ok C" and "send_key (ch_keys a) = recv_key (ch_keys b)"
    and "ch_send_sequence a = ch_expected_recv b" "0 \<le> ch_send_sequence a"
    and "ch_send_sequence a + int (length ms) \<le> MAX_SEQUENCE + 1"
  shows "\<exists>fs a' b'. encrypt_all C a ms = Inr (fs, a') \<and> decrypt_all C b fs = Inr (ms, b')"
  using assms(2-5)
proof (induction ms arbitrary: a b)
  case (Cons m ms)
  let ?n = "ch_send_sequence a"
  let ?a = "a\<lparr>ch_send_sequence := ?n + 1\<rparr>" and ?b = "b\<lparr>ch_expected_recv := ?n + 1\<rparr>"
  let ?c = "aead_encrypt C (recv_key (ch_keys b)) (be_bytes 12 (nat ?n)) m None"
  have "encrypt C a m [] = Inr (\<lparr>ef_sequence = ?n, ef_ciphertext = ?c\<rparr>, ?a)"
    using Cons.prems by (simp add: encrypt_def construct_nonce_Inr ad_or_none_def)
  moreover have "decrypt C b ?n ?c [] = Inr (m, ?b)"
    using Cons.prems by (intro decrypt_encrypted [OF assms(1)]) simp_all
  moreover obtain fs a' b' where "encrypt_all C ?a ms = Inr (fs, a')" "decrypt_all C ?b fs = Inr (ms, b')"
    using Cons.IH [of ?a ?b] Cons.prems by auto
  ultimately show ?case by auto
qed simp


text \<open>
  The receiver takes frames only in order: once it has accepted a
  frame, the same frame, or any other frame with a sequence number already used or skipped
  ahead, is refused with \<^verbatim>\<open>ReplayOrReorderError\<close>; and an accepted ciphertext is exactly the
  encryption of the returned plaintext under the expected nonce.
\<close>

theorem channel_rejects_replay:
  assumes "aead_ok C" and "decrypt C ch seq ct ad = Inr (m, ch')"
  shows "ch_expected_recv ch' = seq + 1 \<and>
    (\<forall>seq' ct' ad'. seq' \<noteq> seq + 1 \<longrightarrow> decrypt C ch' seq' ct' ad' = Inl (ReplayOrReorderError (seq + 1) seq')) \<and>
    (\<exists>nonce. construct_nonce (ch_expected_recv ch) = Inr nonce \<and>
       ct = aead_encrypt C (recv_key (ch_keys ch)) nonce m (ad_or_none ad))"
proof -
  from assms(2) obtain nonce where n: "construct_nonce seq = Inr nonce" "seq = ch_expected_recv ch"
    and m: "aead_decrypt C (recv_key (ch_keys ch)) nonce ct (ad_or_none ad) = Some m"
    and ch': "ch' = ch\<lparr>ch_expected_recv := ch_expected_recv ch + 1\<rparr>"
    by (auto simp: decrypt_def res_simps split: if_splits option.splits)
  have "ct = aead_encrypt C (recv_key (ch_keys ch)) nonce m (ad_or_none ad)"
    using aead_ok_tight [OF assms(1) m] .
  with n ch' show ?thesis by (simp add: decrypt_def)
qed

section \<open>Witnesses\<close>

definition pad_to :: "nat \<Rightarrow> bytes \<Rightarrow> bytes" where
  "pad_to n xs = take n (xs @ replicate n 0)"

lemma length_pad_to [simp]: "length (pad_to n xs) = n"
  by (simp add: pad_to_def min_def)

definition toy_crypto :: crypto where
  "toy_crypto = ed25519.extend toy_ed25519
     \<lparr>x_public = pad_to 32,
      x_exchange = (\<lambda>a b. Some (map2 (+) (pad_to 32 a) (pad_to 32 b))),
      hkdf = (\<lambda>ikm salt info n. pad_to n info),
      aead_encrypt = (\<lambda>k n m ad. m @ replicate 16 0),
      aead_decrypt = (\<lambda>k n c ad. if length c \<ge> 16 \<and> drop (length c - 16) c = replicate 16 0
        then Some (take (length c - 16) c) else None)\<rparr>"

lemma pad_to_pad_to [simp]: "pad_to n (pad_to n xs) = pad_to n xs"
  by (simp add: pad_to_def min_def)

lemma toy_crypto_sel [simp]:
  "ed_public toy_crypto = ed_public toy_ed25519" "ed_sign toy_crypto = ed_sign toy_ed25519"
  "ed_verify toy_crypto = ed_verify toy_ed25519" "pem_dump toy_crypto = pem_dump toy_ed25519"
  "pem_load toy_crypto = pem_load toy_ed25519"
  by (simp_all add: toy_crypto_def ed25519.extend_def)

lemma toy_crypto_ok:
  "ed25519_ok toy_crypto" "x25519_ok toy_crypto" "hkdf_ok toy_crypto" "aead_ok toy_crypto"
proof -
  show "ed25519_ok toy_crypto"
    using toy_ed25519_ok unfolding ed25519_ok_def toy_crypto_sel .
  have "map2 (+) xs ys = map2 (+) ys xs" if "length xs = length ys" for xs ys :: bytes
    using that by (induction rule: list_induct2) (simp_all add: add.commute)
  then show "x25519_ok toy_crypto"
    unfolding x25519_ok_def by (simp add: toy_crypto_def ed25519.extend_def)
  show "hkdf_ok toy_crypto"
    by (simp add: hkdf_ok_def toy_crypto_def ed25519.extend_def)
  have "c = take (length c - 16) c @ replicate 16 0"
    if "drop (length c - 16) c = replicate 16 0" for c :: bytes
    using that append_take_drop_id [of "length c - 16" c] by simp
  then show "aead_ok toy_crypto"
    by (auto simp: aead_ok_def toy_crypto_def ed25519.extend_def)
qed

definition toy_keys :: "bool \<Rightarrow> SessionKeys" where
  "toy_keys role =
     (let a = pad_to 32 INFO_INIT_TO_RESP; b = pad_to 32 INFO_RESP_TO_INIT;
          sid = bytes_hex (pad_to 16 INFO_SESSION_ID) in
      if role then \<lparr>send_key = a, recv_key = b, session_id = sid\<rparr>
      else \<lparr>send_key = b, recv_key = a, session_id = sid\<rparr>)"

lemma toy_derive: "derive_session_keys toy_crypto (replicate 32 1) (replicate 32 2) role = Inr (toy_keys role)"
  by (simp add: derive_session_keys_def toy_crypto_def ed25519.extend_def toy_keys_def Let_def
      KEY_LEN_def SESSION_ID_LEN_def)

theorem directional_keys_match_witness:
  "derive_session_keys toy_crypto (replicate 32 1) (replicate 32 2) True = Inr (toy_keys True) \<and>
   derive_session_keys toy_crypto (replicate 32 1) (replicate 32 2) False = Inr (toy_keys False) \<and>
   send_key (toy_keys True) = recv_key (toy_keys False) \<and> recv_key (toy_keys True) = send_key (toy_keys False) \<and>
   session_id (toy_keys True) = session_id (toy_keys False)"
  using directional_keys_match [OF toy_derive toy_derive] toy_derive by blast

definition toy_channel :: "bool \<Rightarrow> SecureChannel" where
  "toy_channel role = \<lparr>ch_keys = toy_keys role, ch_send_sequence = 0, ch_expected_recv = 0\<rparr>"

theorem channel_delivers_witness:
  "\<exists>fs a' b'. encrypt_all toy_crypto (toy_channel True) [[1, 2], [], [3]] = Inr (fs, a') \<and>
     decrypt_all toy_crypto (toy_channel False) fs = Inr ([[1, 2], [], [3]], b')"
  by (rule channel_delivers)
    (simp_all add: toy_crypto_ok toy_channel_def toy_keys_def Let_def MAX_SEQUENCE_def NONCE_LEN_def)

lemma toy_encrypt:
  "encrypt_all toy_crypto (toy_channel True) [[1], [1]] =
     Inr ([\<lparr>ef_sequence = 0, ef_ciphertext = 1 # replicate 16 0\<rparr>,
           \<lparr>ef_sequence = 1, ef_ciphertext = 1 # replicate 16 0\<rparr>],
          (toy_channel True)\<lparr>ch_send_sequence := 2\<rparr>)"
  by (simp add: encrypt_def toy_channel_def construct_nonce_Inr MAX_SEQUENCE_def NONCE_LEN_def
      toy_crypto_def ed25519.extend_def)


lemma toy_decrypt:
  "decrypt toy_crypto (toy_channel False) 0 (1 # replicate 16 0) []
     = Inr ([1], (toy_channel False)\<lparr>ch_expected_recv := 1\<rparr>)"
  by (simp add: decrypt_def toy_channel_def construct_nonce_Inr MAX_SEQUENCE_def NONCE_LEN_def
      toy_crypto_def ed25519.extend_def)

theorem channel_rejects_replay_witness:
  "decrypt toy_crypto (toy_channel False) 0 (1 # replicate 16 0) []
     = Inr ([1], (toy_channel False)\<lparr>ch_expected_recv := 1\<rparr>) \<and>
   decrypt toy_crypto ((toy_channel False)\<lparr>ch_expected_recv := 1\<rparr>) 0 (1 # replicate 16 0) []
     = Inl (ReplayOrReorderError 1 0)"
  using channel_rejects_replay [OF toy_crypto_ok(4) toy_decrypt] toy_decrypt by simp

end
