(* ===== verification/Handshake.thy ===== *)
theory Handshake
  imports Messages Trust Channel
begin

text \<open>
  The three-message authenticated handshake of \<^verbatim>\<open>core/crypto/handshake.py\<close>. What a side reads
  from its connection is an argument: the outcome of \<^verbatim>\<open>wait_for(read_frame(...))\<close>, which is a
  timeout, a failed read or a decoded JSON value. Fresh randomness (the ephemeral private
  key, the nonce), the clock and the text of the time stamp are arguments too. A run carries
  the nonce cache, the trust store, the messages written and the notices emitted; an
  exception keeps what was changed before it.
\<close>

section \<open>Errors, results, state\<close>

datatype handshake_error =
    HandshakeTimeout
  | ReadFailed
  | InvalidMessage message_error
  | UnexpectedType
  | ReplayedNonce
  | InvalidKeyHex
  | DeviceIdMismatch
  | PeerRevoked
  | PeerKeyChanged
  | InvalidSignature
  | InvalidEphemeralKey
  | UncaughtValueError
  | UncaughtKeyError pystr
  | UncaughtEncodeError
  | WriteFailed frame_error
  | StoreError trust_error

record HandshakeResult =
  hr_peer_device_id :: pystr
  hr_peer_public_key :: pystr
  hr_peer_name :: pystr
  hr_shared_secret :: bytes
  hr_transcript_hash :: bytes
  hr_trust_decision :: TrustDecision

record NonceCache =
  nc_ttl :: time
  nc_seen :: "(pystr, time) dict"

definition new_nonce_cache :: NonceCache where
  "new_nonce_cache = \<lparr>nc_ttl = 300, nc_seen = []\<rparr>"

definition check_and_add :: "NonceCache \<Rightarrow> time \<Rightarrow> pystr \<Rightarrow> bool \<times> NonceCache" where
  "check_and_add cache now nonce =
     (let seen = filter (\<lambda>(k, t). \<not> now - t > nc_ttl cache) (nc_seen cache) in
      if map_of seen nonce \<noteq> None then (False, cache\<lparr>nc_seen := seen\<rparr>)
      else (True, cache\<lparr>nc_seen := dict_set seen nonce now\<rparr>))"

record hs_state =
  hs_cache :: NonceCache
  hs_trust :: "TrustStore option"
  hs_written :: "json list"
  hs_notices :: "notice list"

type_synonym 'a hs = "hs_state \<Rightarrow> (handshake_error + 'a) \<times> hs_state"

definition hs_return :: "'a \<Rightarrow> 'a hs" where
  "hs_return x = (\<lambda>s. (Inr x, s))"

definition hs_raise :: "handshake_error \<Rightarrow> 'a hs" where
  "hs_raise e = (\<lambda>s. (Inl e, s))"

definition hs_bind :: "'a hs \<Rightarrow> ('a \<Rightarrow> 'b hs) \<Rightarrow> 'b hs" where
  "hs_bind m f = (\<lambda>s. case m s of (Inl e, s') \<Rightarrow> (Inl e, s') | (Inr x, s') \<Rightarrow> f x s')"

definition hs_lift :: "handshake_error + 'a \<Rightarrow> 'a hs" where
  "hs_lift r = (\<lambda>s. (r, s))"

definition hs_emit :: "notice list \<Rightarrow> unit hs" where
  "hs_emit ns = (\<lambda>s. (Inr (), s\<lparr>hs_notices := hs_notices s @ ns\<rparr>))"

section \<open>Transcripts\<close>

definition canonical_json_bytes :: "json \<Rightarrow> bytes option" where
  "canonical_json_bytes v = utf8_encode (dump (lit '','') (lit '':'') (sort_keys v))"

definition transcript_fields :: "pystr list" where
  "transcript_fields =
     map lit [''type'', ''device_id'', ''public_key'', ''ephemeral_key'', ''nonce'', ''sender_name'']"

fun project :: "json \<Rightarrow> pystr list \<Rightarrow> handshake_error + (pystr \<times> json) list" where
  "project m [] = Inr []"
| "project m (f # fs) =
     (case jget m f of
        None \<Rightarrow> Inl (UncaughtKeyError f)
      | Some v \<Rightarrow> res_bind (project m fs) (\<lambda>kvs. Inr ((f, v) # kvs)))"

definition message_bytes :: "json \<Rightarrow> handshake_error + bytes" where
  "message_bytes m =
     res_bind (project m transcript_fields) (\<lambda>kvs.
       case canonical_json_bytes (JObj kvs) of Some b \<Rightarrow> Inr b | None \<Rightarrow> Inl UncaughtEncodeError)"

definition RESPONDER_DOMAIN :: bytes where
  "RESPONDER_DOMAIN = blit ''peerc-v2-handshake-responder'' @ [10]"

definition INITIATOR_DOMAIN :: bytes where
  "INITIATOR_DOMAIN = blit ''peerc-v2-handshake-initiator'' @ [10]"

definition compute_responder_transcript :: "json \<Rightarrow> json \<Rightarrow> handshake_error + bytes" where
  "compute_responder_transcript init_msg resp_msg =
     res_bind (message_bytes init_msg) (\<lambda>init_bytes.
     res_bind (message_bytes resp_msg) (\<lambda>resp_bytes.
       Inr (RESPONDER_DOMAIN @ init_bytes @ [10] @ resp_bytes)))"

definition ascii_encode :: "pystr \<Rightarrow> handshake_error + bytes" where
  "ascii_encode s = (if list_all is_ascii s then Inr (ascii_bytes s) else Inl UncaughtEncodeError)"

definition compute_initiator_transcript :: "bytes \<Rightarrow> pystr \<Rightarrow> handshake_error + bytes" where
  "compute_initiator_transcript responder_transcript responder_signature_hex =
     res_bind (ascii_encode responder_signature_hex) (\<lambda>sig.
       Inr (INITIATOR_DOMAIN @ responder_transcript @ [10] @ sig))"

definition compute_final_transcript_hash :: "bytes \<Rightarrow> pystr \<Rightarrow> handshake_error + bytes" where
  "compute_final_transcript_hash initiator_transcript initiator_signature_hex =
     res_bind (ascii_encode initiator_signature_hex) (\<lambda>sig.
       Inr (sha256 (initiator_transcript @ [10] @ sig)))"

section \<open>The checks\<close>

definition write_msg :: "json \<Rightarrow> unit hs" where
  "write_msg m =
     (case encode_frame m of
        Inl e \<Rightarrow> hs_raise (WriteFailed e)
      | Inr _ \<Rightarrow> (\<lambda>s. (Inr (), s\<lparr>hs_written := hs_written s @ [m]\<rparr>)))"

datatype read_outcome = RTimeout | RFail | RMsg json

definition receive_message :: "string \<Rightarrow> read_outcome \<Rightarrow> json hs" where
  "receive_message expected outcome =
     (case outcome of
        RTimeout \<Rightarrow> hs_raise HandshakeTimeout
      | RFail \<Rightarrow> hs_raise ReadFailed
      | RMsg m \<Rightarrow>
          (case validate_message m of
             Inl e \<Rightarrow> hs_raise (InvalidMessage e)
           | Inr _ \<Rightarrow>
               if jget m (lit ''type'') \<noteq> Some (JStr (lit expected)) then hs_raise UnexpectedType
               else hs_return m))"

text \<open>\<^verbatim>\<open>message[name]\<close> for a field the validator has found to be a string.\<close>

definition field :: "json \<Rightarrow> string \<Rightarrow> pystr hs" where
  "field m name =
     (case jget m (lit name) of
        Some (JStr s) \<Rightarrow> hs_return s
      | _ \<Rightarrow> hs_raise (UncaughtKeyError (lit name)))"

definition check_nonce :: "time \<Rightarrow> pystr \<Rightarrow> pystr \<Rightarrow> unit hs" where
  "check_nonce now nonce device_id =
     hs_bind (\<lambda>s. let (fresh, cache) = check_and_add (hs_cache s) now nonce in
         (Inr fresh, s\<lparr>hs_cache := cache\<rparr>))
       (\<lambda>fresh. if fresh then hs_return ()
          else hs_bind (hs_emit [(REPLAY_DETECTED, HIGH, Some device_id)]) (\<lambda>_. hs_raise ReplayedNonce))"

definition verify_device_identity :: "pystr \<Rightarrow> pystr \<Rightarrow> bytes hs" where
  "verify_device_identity device_id pk_hex =
     (case bytes_fromhex pk_hex of
        None \<Rightarrow> hs_raise InvalidKeyHex
      | Some pub_bytes \<Rightarrow>
          if compute_device_id pub_bytes \<noteq> device_id
          then hs_bind (hs_emit [(AUTH_FAILED, WARNING, Some device_id)]) (\<lambda>_. hs_raise DeviceIdMismatch)
          else hs_return pub_bytes)"

definition check_and_update_trust :: "time \<Rightarrow> pystr \<Rightarrow> pystr \<Rightarrow> pystr \<Rightarrow> TrustDecision hs" where
  "check_and_update_trust now device_id pk_hex peer_name = (\<lambda>s.
     case hs_trust s of
       None \<Rightarrow> (Inr D_UNKNOWN, s)
     | Some store \<Rightarrow>
         let (decision, notices) = check store device_id pk_hex;
             s = s\<lparr>hs_notices := hs_notices s @ notices\<rparr> in
         (case decision of
            D_REVOKED \<Rightarrow> (Inl PeerRevoked, s)
          | D_KEY_CHANGED \<Rightarrow> (Inl PeerKeyChanged, s)
          | D_UNKNOWN \<Rightarrow>
              (case record_first_seen store now device_id pk_hex peer_name of
                 Inl e \<Rightarrow> (Inl (StoreError e), s)
               | Inr store' \<Rightarrow> (Inr D_PENDING, s\<lparr>hs_trust := Some store'\<rparr>))
          | _ \<Rightarrow> (Inr decision, s\<lparr>hs_trust := Some (touch_last_seen store now device_id)\<rparr>)))"

definition verify_signature ::
  "'x ed25519_scheme \<Rightarrow> bytes \<Rightarrow> pystr \<Rightarrow> bytes \<Rightarrow> pystr \<Rightarrow> unit hs" where
  "verify_signature C pub_bytes signature_hex transcript device_id =
     (case public_key_from_bytes pub_bytes of
        None \<Rightarrow> hs_raise UncaughtValueError
      | Some key \<Rightarrow>
          (case bytes_fromhex signature_hex of
             Some sig \<Rightarrow>
               if ed_verify C key sig transcript then hs_return ()
               else hs_bind (hs_emit [(AUTH_FAILED, WARNING, Some device_id)]) (\<lambda>_. hs_raise InvalidSignature)
           | None \<Rightarrow>
               hs_bind (hs_emit [(AUTH_FAILED, WARNING, Some device_id)]) (\<lambda>_. hs_raise InvalidSignature)))"

definition shared_secret_with :: "'x crypto_scheme \<Rightarrow> EphemeralKeypair \<Rightarrow> pystr \<Rightarrow> bytes hs" where
  "shared_secret_with C my_ephemeral peer_ephemeral_hex =
     (case ephemeral_public_from_hex peer_ephemeral_hex of
        None \<Rightarrow> hs_raise InvalidEphemeralKey
      | Some peer_pub \<Rightarrow>
          (case compute_shared_secret C (eph_private my_ephemeral) peer_pub of
             None \<Rightarrow> hs_raise UncaughtValueError
           | Some secret \<Rightarrow> hs_return secret))"

section \<open>The initiator\<close>

record local_party =
  lp_identity :: DeviceKeypair
  lp_name :: pystr
  lp_ephemeral :: EphemeralKeypair
  lp_nonce :: pystr
  lp_now :: time
  lp_stamp :: pystr

definition initiator_message :: "local_party \<Rightarrow> json" where
  "initiator_message me =
     make_handshake_init (lp_stamp me) (kp_device_id (lp_identity me))
       (bytes_hex (kp_public (lp_identity me))) (public_key_hex (lp_ephemeral me)) (lp_nonce me) (lp_name me)"

text \<open>
  What both sides do with a peer's message: the replay check on its nonce, the check that
  the device identifier is the hash of the key, and the trust store. The result is the raw
  public key and the trust decision.
\<close>

definition admit_peer :: "local_party \<Rightarrow> json \<Rightarrow> (bytes \<times> TrustDecision) hs" where
  "admit_peer me msg =
     hs_bind (field msg ''nonce'') (\<lambda>nonce.
     hs_bind (field msg ''device_id'') (\<lambda>dev.
     hs_bind (field msg ''public_key'') (\<lambda>pk.
     hs_bind (field msg ''sender_name'') (\<lambda>name.
     hs_bind (check_nonce (lp_now me) nonce dev) (\<lambda>_.
     hs_bind (verify_device_identity dev pk) (\<lambda>pub.
     hs_bind (check_and_update_trust (lp_now me) dev pk name) (\<lambda>decision.
       hs_return (pub, decision))))))))"

definition finish_result ::
  "'x crypto_scheme \<Rightarrow> local_party \<Rightarrow> json \<Rightarrow> TrustDecision \<Rightarrow> bytes \<Rightarrow> pystr \<Rightarrow> HandshakeResult hs" where
  "finish_result C me peer_msg decision initiator_transcript initiator_signature =
     hs_bind (field peer_msg ''ephemeral_key'') (\<lambda>eph.
     hs_bind (field peer_msg ''device_id'') (\<lambda>dev.
     hs_bind (field peer_msg ''public_key'') (\<lambda>pk.
     hs_bind (field peer_msg ''sender_name'') (\<lambda>name.
     hs_bind (shared_secret_with C (lp_ephemeral me) eph) (\<lambda>secret.
     hs_bind (hs_lift (compute_final_transcript_hash initiator_transcript initiator_signature)) (\<lambda>hash.
       hs_return \<lparr>hr_peer_device_id = dev, hr_peer_public_key = pk, hr_peer_name = name,
         hr_shared_secret = secret, hr_transcript_hash = hash, hr_trust_decision = decision\<rparr>))))))"

definition initiator_finish ::
  "'x crypto_scheme \<Rightarrow> local_party \<Rightarrow> json \<Rightarrow> json \<Rightarrow> HandshakeResult hs" where
  "initiator_finish C me init_msg resp_msg =
     hs_bind (admit_peer me resp_msg) (\<lambda>(pub, decision).
     hs_bind (field resp_msg ''signature'') (\<lambda>resp_sig.
     hs_bind (field resp_msg ''device_id'') (\<lambda>dev.
     hs_bind (hs_lift (compute_responder_transcript init_msg resp_msg)) (\<lambda>resp_transcript.
     hs_bind (verify_signature C pub resp_sig resp_transcript dev) (\<lambda>_.
     hs_bind (hs_lift (compute_initiator_transcript resp_transcript resp_sig)) (\<lambda>init_transcript.
     let my_signature = bytes_hex (sign C (lp_identity me) init_transcript) in
     hs_bind (write_msg (make_handshake_finish (lp_stamp me) my_signature)) (\<lambda>_.
       finish_result C me resp_msg decision init_transcript my_signature)))))))"

definition perform_handshake_initiator ::
  "'x crypto_scheme \<Rightarrow> local_party \<Rightarrow> (json \<Rightarrow> read_outcome) \<Rightarrow> HandshakeResult hs" where
  "perform_handshake_initiator C me peer =
     (let init_msg = initiator_message me in
      hs_bind (write_msg init_msg) (\<lambda>_.
      hs_bind (receive_message ''handshake_response'' (peer init_msg)) (\<lambda>resp_msg.
        initiator_finish C me init_msg resp_msg)))"

section \<open>The responder\<close>

definition response_without_sig :: "local_party \<Rightarrow> json" where
  "response_without_sig me =
     JObj [(lit ''type'', JStr (lit ''handshake_response'')),
           (lit ''device_id'', JStr (kp_device_id (lp_identity me))),
           (lit ''public_key'', JStr (bytes_hex (kp_public (lp_identity me)))),
           (lit ''ephemeral_key'', JStr (public_key_hex (lp_ephemeral me))),
           (lit ''nonce'', JStr (lp_nonce me)),
           (lit ''sender_name'', JStr (lp_name me))]"

definition responder_message :: "local_party \<Rightarrow> pystr \<Rightarrow> json" where
  "responder_message me my_signature =
     make_handshake_response (lp_stamp me) (kp_device_id (lp_identity me))
       (bytes_hex (kp_public (lp_identity me))) (public_key_hex (lp_ephemeral me)) (lp_nonce me)
       (lp_name me) my_signature"

text \<open>
  The first half of the responder ends with its response written; the second half starts
  from what the first one keeps in local variables.
\<close>

record responder_locals =
  rl_init_msg :: json
  rl_peer_pub :: bytes
  rl_decision :: TrustDecision
  rl_transcript :: bytes
  rl_signature :: pystr
  rl_response :: json

definition responder_start ::
  "'x crypto_scheme \<Rightarrow> local_party \<Rightarrow> read_outcome \<Rightarrow> responder_locals hs" where
  "responder_start C me outcome =
     hs_bind (receive_message ''handshake_init'' outcome) (\<lambda>init_msg.
     hs_bind (admit_peer me init_msg) (\<lambda>(pub, decision).
     hs_bind (hs_lift (compute_responder_transcript init_msg (response_without_sig me))) (\<lambda>transcript.
     let my_signature = bytes_hex (sign C (lp_identity me) transcript);
         resp_msg = responder_message me my_signature in
     hs_bind (write_msg resp_msg) (\<lambda>_.
       hs_return \<lparr>rl_init_msg = init_msg, rl_peer_pub = pub, rl_decision = decision,
         rl_transcript = transcript, rl_signature = my_signature, rl_response = resp_msg\<rparr>))))"

definition responder_finish ::
  "'x crypto_scheme \<Rightarrow> local_party \<Rightarrow> responder_locals \<Rightarrow> read_outcome \<Rightarrow> HandshakeResult hs" where
  "responder_finish C me l outcome =
     hs_bind (receive_message ''handshake_finish'' outcome) (\<lambda>finish_msg.
     hs_bind (hs_lift (compute_initiator_transcript (rl_transcript l) (rl_signature l))) (\<lambda>init_transcript.
     hs_bind (field finish_msg ''signature'') (\<lambda>sig.
     hs_bind (field (rl_init_msg l) ''device_id'') (\<lambda>dev.
     hs_bind (verify_signature C (rl_peer_pub l) sig init_transcript dev) (\<lambda>_.
       finish_result C me (rl_init_msg l) (rl_decision l) init_transcript sig)))))"

definition perform_handshake_responder ::
  "'x crypto_scheme \<Rightarrow> local_party \<Rightarrow> read_outcome \<Rightarrow> (json \<Rightarrow> read_outcome) \<Rightarrow> HandshakeResult hs" where
  "perform_handshake_responder C me first peer =
     hs_bind (responder_start C me first) (\<lambda>l. responder_finish C me l (peer (rl_response l)))"

definition result_session_keys ::
  "'x crypto_scheme \<Rightarrow> HandshakeResult \<Rightarrow> bool \<Rightarrow> kdf_error + SessionKeys" where
  "result_session_keys C res is_initiator =
     derive_session_keys C (hr_shared_secret res) (hr_transcript_hash res) is_initiator"

end
