(* ===== verification/Handshake_Security.thy ===== *)
theory Handshake_Security
  imports Handshake
begin

text \<open>
  What a completed handshake guarantees: whose key signed the transcript, what the transcript
  binds, what the trust store said, and that two honest parties agree on the session keys.
\<close>

named_theorems hs_simps

lemma hs_bind_Inr [hs_simps]:
  "hs_bind m f s = (Inr r, s') \<longleftrightarrow> (\<exists>x s1. m s = (Inr x, s1) \<and> f x s1 = (Inr r, s'))"
  by (auto simp: hs_bind_def split: prod.splits sum.splits)

lemma hs_basic_Inr [hs_simps]:
  "hs_return x s = (Inr y, s') \<longleftrightarrow> y = x \<and> s' = s"
  "hs_raise e s = (Inr y, s') \<longleftrightarrow> False"
  "hs_lift r s = (Inr y, s') \<longleftrightarrow> r = Inr y \<and> s' = s"
  "hs_emit ns s = (Inr u, s') \<longleftrightarrow> s' = s\<lparr>hs_notices := hs_notices s @ ns\<rparr>"
  by (auto simp: hs_return_def hs_raise_def hs_lift_def hs_emit_def)

lemma field_Inr [hs_simps]:
  "field m name s = (Inr x, s') \<longleftrightarrow> jget m (lit name) = Some (JStr x) \<and> s' = s"
  by (auto simp: field_def hs_simps split: option.splits json.splits)

lemma receive_message_Inr [hs_simps]:
  "receive_message ty outcome s = (Inr m, s') \<longleftrightarrow>
     outcome = RMsg m \<and> conforms m \<and> jget m (lit ''type'') = Some (JStr (lit ty)) \<and> s' = s"
proof (cases outcome)
  case (RMsg m0)
  show ?thesis
    using validate_iff_schema [of m0 m0] validate_iff_schema [of m0]
    by (cases "validate_message m0") (auto simp: receive_message_def RMsg hs_basic_Inr)
qed (auto simp: receive_message_def hs_basic_Inr)

lemma write_msg_Inr [hs_simps]:
  "write_msg m s = (Inr u, s') \<longleftrightarrow>
     (\<exists>bs. encode_frame m = Inr bs) \<and> s' = s\<lparr>hs_written := hs_written s @ [m]\<rparr>"
  by (auto simp: write_msg_def hs_simps split: sum.splits)

lemma check_nonce_Inr [hs_simps]:
  "check_nonce now nonce dev s = (Inr u, s') \<longleftrightarrow>
     fst (check_and_add (hs_cache s) now nonce) \<and>
     s' = s\<lparr>hs_cache := snd (check_and_add (hs_cache s) now nonce)\<rparr>"
  by (auto simp: check_nonce_def hs_simps split_def Let_def split: if_splits)

lemma verify_device_identity_Inr [hs_simps]:
  "verify_device_identity dev pk s = (Inr pub, s') \<longleftrightarrow>
     bytes_fromhex pk = Some pub \<and> compute_device_id pub = dev \<and> s' = s"
  by (auto simp: verify_device_identity_def hs_simps split: option.splits if_splits)

definition admitted :: "TrustStore option \<Rightarrow> pystr \<Rightarrow> pystr \<Rightarrow> bool" where
  "admitted T dev pk \<longleftrightarrow>
     (case T of None \<Rightarrow> True | Some S \<Rightarrow> fst (check S dev pk) \<notin> {D_REVOKED, D_KEY_CHANGED})"

definition decision_after :: "TrustStore option \<Rightarrow> pystr \<Rightarrow> pystr \<Rightarrow> TrustDecision" where
  "decision_after T dev pk =
     (case T of
        None \<Rightarrow> D_UNKNOWN
      | Some S \<Rightarrow> if fst (check S dev pk) = D_UNKNOWN then D_PENDING else fst (check S dev pk))"

lemma check_unknown: "check S dev pk = (D_UNKNOWN, ns) \<Longrightarrow> get_device S dev = None"
  by (auto simp: check_def split: option.splits if_splits)

lemma check_and_update_trust_Inr:
  assumes "check_and_update_trust now dev pk name s = (Inr d, s')"
  shows "admitted (hs_trust s) dev pk \<and> d = decision_after (hs_trust s) dev pk \<and>
    hs_cache s' = hs_cache s \<and> hs_written s' = hs_written s"
  using assms
  by (auto simp: check_and_update_trust_def admitted_def decision_after_def Let_def
      split: option.splits prod.splits TrustDecision.splits sum.splits)

lemma check_and_update_trust_ok:
  assumes "admitted (hs_trust s) dev pk"
  shows "\<exists>s'. check_and_update_trust now dev pk name s = (Inr (decision_after (hs_trust s) dev pk), s') \<and>
    hs_cache s' = hs_cache s \<and> hs_written s' = hs_written s"
proof (cases "hs_trust s")
  case None
  then show ?thesis by (simp add: check_and_update_trust_def decision_after_def)
next
  case (Some S)
  obtain d ns where c: "check S dev pk = (d, ns)" by fastforce
  show ?thesis
    using assms check_unknown [of S dev pk ns] Some c
    by (cases d) (auto simp: check_and_update_trust_def admitted_def decision_after_def record_first_seen_def)
qed

lemma verify_signature_Inr [hs_simps]:
  "verify_signature C pub sig t dev s = (Inr u, s') \<longleftrightarrow>
     length pub = 32 \<and> (\<exists>b. bytes_fromhex sig = Some b \<and> ed_verify C pub b t) \<and> s' = s"
  by (auto simp: verify_signature_def public_key_from_bytes_def hs_simps split: option.splits if_splits)

lemma shared_secret_with_Inr [hs_simps]:
  "shared_secret_with C e hex s = (Inr k, s') \<longleftrightarrow>
     (\<exists>p. ephemeral_public_from_hex hex = Some p \<and> x_exchange C (eph_private e) p = Some k) \<and> s' = s"
  by (auto simp: shared_secret_with_def compute_shared_secret_def hs_simps split: option.splits)

section \<open>Authentication\<close>

text \<open>What is known of the peer when its message has been admitted.\<close>

lemma admit_peer_Inr:
  assumes "admit_peer me msg s = (Inr (pub, d), s')"
  shows "\<exists>nonce dev pk name. jget msg (lit ''nonce'') = Some (JStr nonce) \<and>
    jget msg (lit ''device_id'') = Some (JStr dev) \<and> jget msg (lit ''public_key'') = Some (JStr pk) \<and>
    jget msg (lit ''sender_name'') = Some (JStr name) \<and>
    fst (check_and_add (hs_cache s) (lp_now me) nonce) \<and>
    bytes_fromhex pk = Some pub \<and> compute_device_id pub = dev \<and>
    admitted (hs_trust s) dev pk \<and> d = decision_after (hs_trust s) dev pk \<and>
    hs_written s' = hs_written s"
  using assms
  by (auto simp: admit_peer_def hs_simps dest!: check_and_update_trust_Inr)

lemma finish_result_Inr:
  assumes "finish_result C me msg d t sig s = (Inr r, s')"
  shows "jget msg (lit ''device_id'') = Some (JStr (hr_peer_device_id r)) \<and>
    jget msg (lit ''public_key'') = Some (JStr (hr_peer_public_key r)) \<and>
    jget msg (lit ''sender_name'') = Some (JStr (hr_peer_name r)) \<and>
    hr_trust_decision r = d \<and>
    compute_final_transcript_hash t sig = Inr (hr_transcript_hash r) \<and>
    (\<exists>eph p. jget msg (lit ''ephemeral_key'') = Some (JStr eph) \<and> ephemeral_public_from_hex eph = Some p \<and>
       x_exchange C (eph_private (lp_ephemeral me)) p = Some (hr_shared_secret r)) \<and> s' = s"
  using assms by (auto simp: finish_result_def hs_simps)

definition authenticated :: "'x crypto_scheme \<Rightarrow> hs_state \<Rightarrow> HandshakeResult \<Rightarrow> pystr \<Rightarrow> bytes \<Rightarrow> bool" where
  "authenticated C s r sig_hex transcript \<longleftrightarrow>
     (\<exists>pub sig. bytes_fromhex (hr_peer_public_key r) = Some pub \<and> length pub = 32 \<and>
        hr_peer_device_id r = compute_device_id pub \<and>
        bytes_fromhex sig_hex = Some sig \<and> ed_verify C pub sig transcript) \<and>
     admitted (hs_trust s) (hr_peer_device_id r) (hr_peer_public_key r) \<and>
     hr_trust_decision r = decision_after (hs_trust s) (hr_peer_device_id r) (hr_peer_public_key r)"

lemma initiator_authentic:
  assumes "perform_handshake_initiator C me peer s = (Inr r, s')"
  shows "\<exists>resp sig_hex transcript. peer (initiator_message me) = RMsg resp \<and>
    jget resp (lit ''device_id'') = Some (JStr (hr_peer_device_id r)) \<and>
    jget resp (lit ''public_key'') = Some (JStr (hr_peer_public_key r)) \<and>
    jget resp (lit ''signature'') = Some (JStr sig_hex) \<and>
    compute_responder_transcript (initiator_message me) resp = Inr transcript \<and>
    authenticated C s r sig_hex transcript"
proof -
  let ?init = "initiator_message me"
  from assms obtain s1 resp where w: "write_msg ?init s = (Inr (), s1)"
    and recv: "peer ?init = RMsg resp" and fin: "initiator_finish C me ?init resp s1 = (Inr r, s')"
    by (auto simp: perform_handshake_initiator_def Let_def hs_simps)
  from fin obtain pub d s2 sig dev t it s3 where
    adm: "admit_peer me resp s1 = (Inr (pub, d), s2)"
    and sig: "jget resp (lit ''signature'') = Some (JStr sig)"
    and t: "compute_responder_transcript ?init resp = Inr t"
    and ver: "length pub = 32" "\<exists>b. bytes_fromhex sig = Some b \<and> ed_verify C pub b t"
    and res: "finish_result C me resp d it (bytes_hex (sign C (lp_identity me) it)) s3 = (Inr r, s')"
    by (auto simp: initiator_finish_def hs_simps Let_def)
  have "hs_trust s1 = hs_trust s" using w by (auto simp: hs_simps)
  with admit_peer_Inr [OF adm] finish_result_Inr [OF res] recv sig t ver show ?thesis
    by (auto simp: authenticated_def)
qed

text \<open>
  When the initiator's handshake succeeds, the device identifier it
  reports is the SHA-256 of the peer's key, the holder of that key signed the transcript of
  this very session (the initiator's own init message, with its fresh nonce and ephemeral
  key, and the peer's response), and the trust store neither has the device revoked nor with
  another key.
\<close>

theorem initiator_authenticates:
  assumes "perform_handshake_initiator C me peer s = (Inr r, s')"
  shows "\<exists>resp sig_hex transcript. peer (initiator_message me) = RMsg resp \<and>
    jget resp (lit ''device_id'') = Some (JStr (hr_peer_device_id r)) \<and>
    jget resp (lit ''public_key'') = Some (JStr (hr_peer_public_key r)) \<and>
    jget resp (lit ''signature'') = Some (JStr sig_hex) \<and>
    compute_responder_transcript (initiator_message me) resp = Inr transcript \<and>
    authenticated C s r sig_hex transcript"
  by (rule initiator_authentic [OF assms])

lemma responder_authentic:
  assumes "perform_handshake_responder C me first peer s = (Inr r, s')"
  shows "\<exists>init sig_hex t my_sig transcript. first = RMsg init \<and>
    jget init (lit ''device_id'') = Some (JStr (hr_peer_device_id r)) \<and>
    jget init (lit ''public_key'') = Some (JStr (hr_peer_public_key r)) \<and>
    compute_responder_transcript init (response_without_sig me) = Inr t \<and>
    my_sig = bytes_hex (sign C (lp_identity me) t) \<and>
    compute_initiator_transcript t my_sig = Inr transcript \<and>
    (\<exists>finish. peer (responder_message me my_sig) = RMsg finish \<and>
       jget finish (lit ''signature'') = Some (JStr sig_hex)) \<and>
    authenticated C s r sig_hex transcript"
proof -
  from assms obtain l s1 where st: "responder_start C me first s = (Inr l, s1)"
    and fi: "responder_finish C me l (peer (rl_response l)) s1 = (Inr r, s')"
    by (auto simp: perform_handshake_responder_def hs_bind_Inr)
  from st obtain init pub d s2 t where recv: "first = RMsg init"
    and adm: "admit_peer me init s = (Inr (pub, d), s2)"
    and t: "compute_responder_transcript init (response_without_sig me) = Inr t"
    and l: "l = \<lparr>rl_init_msg = init, rl_peer_pub = pub, rl_decision = d, rl_transcript = t,
       rl_signature = bytes_hex (sign C (lp_identity me) t),
       rl_response = responder_message me (bytes_hex (sign C (lp_identity me) t))\<rparr>"
    by (auto simp: responder_start_def hs_simps Let_def)
  from fi obtain finish it sig where
    fin: "peer (responder_message me (bytes_hex (sign C (lp_identity me) t))) = RMsg finish"
    and it: "compute_initiator_transcript t (bytes_hex (sign C (lp_identity me) t)) = Inr it"
    and sig: "jget finish (lit ''signature'') = Some (JStr sig)"
    and ver: "length pub = 32" "\<exists>b. bytes_fromhex sig = Some b \<and> ed_verify C pub b it"
    and res: "finish_result C me init d it sig s1 = (Inr r, s')"
    by (auto simp: responder_finish_def hs_simps l)
  from admit_peer_Inr [OF adm] finish_result_Inr [OF res] recv t it fin sig ver show ?thesis
    by (auto simp: authenticated_def)
qed

text \<open>
  When the responder's handshake succeeds, the device identifier
  it reports is the SHA-256 of the initiator's key, and the holder of that key signed, after
  seeing the responder's own signature, the transcript that has the init message and the
  responder's fresh nonce and ephemeral key; the trust store neither has the device revoked nor
  with another key.
\<close>

theorem responder_authenticates:
  assumes "perform_handshake_responder C me first peer s = (Inr r, s')"
  shows "\<exists>init sig_hex t my_sig transcript. first = RMsg init \<and>
    jget init (lit ''device_id'') = Some (JStr (hr_peer_device_id r)) \<and>
    jget init (lit ''public_key'') = Some (JStr (hr_peer_public_key r)) \<and>
    compute_responder_transcript init (response_without_sig me) = Inr t \<and>
    my_sig = bytes_hex (sign C (lp_identity me) t) \<and>
    compute_initiator_transcript t my_sig = Inr transcript \<and>
    (\<exists>finish. peer (responder_message me my_sig) = RMsg finish \<and>
       jget finish (lit ''signature'') = Some (JStr sig_hex)) \<and>
    authenticated C s r sig_hex transcript"
  by (rule responder_authentic [OF assms])

section \<open>What a transcript binds\<close>

lemma project_Inr:
  "project m fs = Inr kvs \<longleftrightarrow>
     kvs = map (\<lambda>f. (f, the (jget m f))) fs \<and> (\<forall>f \<in> set fs. jget m f \<noteq> None)"
  by (induction fs arbitrary: kvs) (auto simp: res_bind_def split: option.splits sum.splits)

definition wf_fields :: "json \<Rightarrow> bool" where
  "wf_fields m \<longleftrightarrow> (\<forall>f \<in> set transcript_fields. \<exists>s. jget m f = Some (JStr s) \<and> wf_str s)"

definition fields_obj :: "json \<Rightarrow> json" where
  "fields_obj m = JObj (map (\<lambda>f. (f, the (jget m f))) transcript_fields)"

lemma transcript_fields_ok [simp]:
  "distinct transcript_fields" "f \<in> set transcript_fields \<Longrightarrow> wf_str f"
  by (auto simp: transcript_fields_def lit_def intro!: wf_str_ascii) (simp_all add: is_ascii_def)

lemma wf_fields_obj: "wf_fields m \<Longrightarrow> wf_json (fields_obj m)"
  by (auto simp: fields_obj_def wf_fields_def dict_ok_def wf_members_iff comp_def)

lemma message_bytes_wf:
  assumes "wf_fields m"
  shows "message_bytes m =
    Inr (ascii_bytes (dump (lit '','') (lit '':'') (sort_keys (fields_obj m))))"
proof -
  have "\<forall>f \<in> set transcript_fields. jget m f \<noteq> None" using assms by (auto simp: wf_fields_def)
  then have "project m transcript_fields = Inr (map (\<lambda>f. (f, the (jget m f))) transcript_fields)"
    by (simp add: project_Inr)
  moreover have "list_all is_ascii (dump (lit '','') (lit '':'') (sort_keys (fields_obj m)))"
    using dump_ascii wf_sort_keys(1) wf_fields_obj assms sep_ok_compact by blast
  ultimately show ?thesis
    by (simp add: message_bytes_def res_bind_def canonical_json_bytes_def utf8_encode_ascii fields_obj_def)
qed

lemma sort_members_strings:
  "(\<forall>(k, v) \<in> set kvs. \<exists>s. v = JStr s) \<Longrightarrow> sort_members kvs = kvs"
  by (induction kvs) auto

lemma sort_fields_obj_inj:
  assumes "wf_fields m" "wf_fields m'" "sort_keys (fields_obj m) = sort_keys (fields_obj m')"
    and f: "f \<in> set transcript_fields"
  shows "jget m f = jget m' f"
proof -
  have sm: "sort_keys (fields_obj x) = JObj (sort_key fst (map (\<lambda>f. (f, the (jget x f))) transcript_fields))"
    if "wf_fields x" for x
  proof -
    have "sort_members (map (\<lambda>f. (f, the (jget x f))) transcript_fields)
        = map (\<lambda>f. (f, the (jget x f))) transcript_fields"
      using that by (intro sort_members_strings) (auto simp: wf_fields_def)
    then show ?thesis by (simp add: fields_obj_def)
  qed
  have "set (map (\<lambda>f. (f, the (jget m f))) transcript_fields)
      = set (map (\<lambda>f. (f, the (jget m' f))) transcript_fields)"
    using arg_cong [OF assms(3)[unfolded sm [OF assms(1)] sm [OF assms(2)] json.inject], of set]
    by (simp only: set_sort)
  moreover have "(f, the (jget m f)) \<in> set (map (\<lambda>f. (f, the (jget m f))) transcript_fields)"
    using f by simp
  ultimately have "(f, the (jget m f)) \<in> set (map (\<lambda>f. (f, the (jget m' f))) transcript_fields)"
    by (simp only:)
  then have "the (jget m f) = the (jget m' f)" by auto
  moreover obtain s s' where "jget m f = Some (JStr s)" "jget m' f = Some (JStr s')"
    using assms(1,2) f unfolding wf_fields_def by blast
  ultimately show ?thesis by simp
qed

lemma ascii_bytes_inj:
  "list_all is_ascii s \<Longrightarrow> list_all is_ascii t \<Longrightarrow> ascii_bytes s = ascii_bytes t \<longleftrightarrow> s = t"
  using utf8_encode_ascii utf8_encode_inj by metis

lemma num_stop_newline: "num_stop (10 # r)"
  by (simp add: num_stop_def is_digit_def)

lemma message_pair_inj:
  assumes wf: "wf_fields a" "wf_fields b" "wf_fields a'" "wf_fields b'"
    and m: "message_bytes a = Inr x" "message_bytes b = Inr y"
      "message_bytes a' = Inr x'" "message_bytes b' = Inr y'"
    and r: "num_stop r" "num_stop r'" "list_all is_ascii r" "list_all is_ascii r'"
    and eq: "x @ [10] @ y @ ascii_bytes r = x' @ [10] @ y' @ ascii_bytes r'"
  shows "(\<forall>f \<in> set transcript_fields. jget a f = jget a' f \<and> jget b f = jget b' f) \<and> r = r'"
proof -
  let ?d = "\<lambda>m. dump (lit '','') (lit '':'') (sort_keys (fields_obj m))"
  have w: "wf_json (sort_keys (fields_obj m))" if "wf_fields m" for m
    using that wf_fields_obj wf_sort_keys(1) by blast
  then have asc: "list_all is_ascii (?d m)" if "wf_fields m" for m
    using that dump_ascii sep_ok_compact by blast
  have nl: "ascii_bytes s @ [10] @ ascii_bytes t @ ascii_bytes u = ascii_bytes (s @ 10 # t @ u)" for s t u
    by (simp add: ascii_bytes_def byte_of_def)
  have "ascii_bytes (?d a @ 10 # ?d b @ r) = ascii_bytes (?d a' @ 10 # ?d b' @ r')"
    using m eq wf by (simp add: message_bytes_wf nl [symmetric])
  then have "?d a @ 10 # ?d b @ r = ?d a' @ 10 # ?d b' @ r'"
    by (subst (asm) ascii_bytes_inj) (simp_all add: asc wf r is_ascii_def)
  then have "sort_keys (fields_obj a) = sort_keys (fields_obj a')" "?d b @ r = ?d b' @ r'"
    using dump_prefix_free [OF sep_ok_compact w [OF wf(1)] w [OF wf(3)] num_stop_newline num_stop_newline]
    by auto
  moreover from this(2) have "sort_keys (fields_obj b) = sort_keys (fields_obj b') \<and> r = r'"
    using dump_prefix_free [OF sep_ok_compact w [OF wf(2)] w [OF wf(4)] r(1,2)] by blast
  ultimately show ?thesis
    using sort_fields_obj_inj [OF wf(1,3)] sort_fields_obj_inj [OF wf(2,4)] by simp
qed

lemma responder_transcript_Inr:
  "compute_responder_transcript init resp = Inr t \<longleftrightarrow>
     (\<exists>x y. message_bytes init = Inr x \<and> message_bytes resp = Inr y \<and> t = RESPONDER_DOMAIN @ x @ [10] @ y)"
  by (auto simp: compute_responder_transcript_def res_bind_def split: sum.splits)

lemma initiator_transcript_Inr:
  "compute_initiator_transcript t sig = Inr it \<longleftrightarrow>
     list_all is_ascii sig \<and> it = INITIATOR_DOMAIN @ t @ ascii_bytes (10 # sig)"
  by (auto simp: compute_initiator_transcript_def ascii_encode_def res_bind_def ascii_bytes_def byte_of_def)

lemma responder_transcript_inj:
  assumes "compute_responder_transcript init resp = Inr t" "compute_responder_transcript init' resp' = Inr t"
    and "wf_fields init" "wf_fields resp" "wf_fields init'" "wf_fields resp'"
  shows "\<forall>f \<in> set transcript_fields. jget init f = jget init' f \<and> jget resp f = jget resp' f"
proof -
  obtain x y where x: "message_bytes init = Inr x" "message_bytes resp = Inr y"
    and t: "t = RESPONDER_DOMAIN @ x @ [10] @ y" using assms(1) by (auto simp: responder_transcript_Inr)
  obtain x' y' where x': "message_bytes init' = Inr x'" "message_bytes resp' = Inr y'"
    and t': "t = RESPONDER_DOMAIN @ x' @ [10] @ y'" using assms(2) by (auto simp: responder_transcript_Inr)
  show ?thesis
    using message_pair_inj [OF assms(3-6) x x', of "[]" "[]"] t t' by (simp add: ascii_bytes_def)
qed

lemma initiator_transcript_inj:
  assumes "compute_responder_transcript init resp = Inr t" "compute_responder_transcript init' resp' = Inr t'"
    and "compute_initiator_transcript t sig = Inr it" "compute_initiator_transcript t' sig' = Inr it"
    and "wf_fields init" "wf_fields resp" "wf_fields init'" "wf_fields resp'"
  shows "(\<forall>f \<in> set transcript_fields. jget init f = jget init' f \<and> jget resp f = jget resp' f) \<and> sig = sig'"
proof -
  obtain x y where x: "message_bytes init = Inr x" "message_bytes resp = Inr y"
    and t: "t = RESPONDER_DOMAIN @ x @ [10] @ y" using assms(1) by (auto simp: responder_transcript_Inr)
  obtain x' y' where x': "message_bytes init' = Inr x'" "message_bytes resp' = Inr y'"
    and t': "t' = RESPONDER_DOMAIN @ x' @ [10] @ y'" using assms(2) by (auto simp: responder_transcript_Inr)
  have eq: "x @ [10] @ y @ ascii_bytes (10 # sig) = x' @ [10] @ y' @ ascii_bytes (10 # sig')"
    using assms(3,4) by (simp add: initiator_transcript_Inr t t')
  have a: "list_all is_ascii (10 # sig)" "list_all is_ascii (10 # sig')"
    using assms(3,4) by (simp_all add: initiator_transcript_Inr is_ascii_def)
  show ?thesis
    using message_pair_inj [OF assms(5-8) x x' num_stop_newline num_stop_newline a eq] by simp
qed

lemma domains_differ: "INITIATOR_DOMAIN @ x \<noteq> RESPONDER_DOMAIN @ y"
proof -
  have "length INITIATOR_DOMAIN = length RESPONDER_DOMAIN" "INITIATOR_DOMAIN \<noteq> RESPONDER_DOMAIN"
    by code_simp+
  then show ?thesis by (simp add: append_eq_append_conv)
qed

text \<open>
  Equal responder transcripts come from messages that agree on every
  transcript field (type, device identifier, key, ephemeral key, nonce and name) on both
  sides, and an initiator transcript is never a responder transcript, so that a signature
  made in one role or one session is of no use in another.
\<close>

theorem transcript_binds:
  assumes "compute_responder_transcript init resp = Inr t"
    and "compute_responder_transcript init' resp' = Inr t'"
    and "wf_fields init" "wf_fields resp" "wf_fields init'" "wf_fields resp'"
  shows "(t = t' \<longrightarrow> (\<forall>f \<in> set transcript_fields. jget init f = jget init' f \<and> jget resp f = jget resp' f))
    \<and> compute_initiator_transcript t sig \<noteq> Inr t'"
proof
  show "t = t' \<longrightarrow> (\<forall>f \<in> set transcript_fields. jget init f = jget init' f \<and> jget resp f = jget resp' f)"
    using responder_transcript_inj [OF assms(1) _ assms(3-6)] assms(2) by simp
  show "compute_initiator_transcript t sig \<noteq> Inr t'"
    using assms(2) by (auto simp: initiator_transcript_Inr responder_transcript_Inr domains_differ [symmetric])
qed

end
