(* ===== verification/Message_Size.thy ===== *)
theory Message_Size
  imports Messages
begin

text \<open>
  Bounds on the size of the messages the program builds, which stay below the limit of a frame.
\<close>

lemma length_esc_char: "length (esc_char c) \<le> 12"
  by (simp add: esc_char_def u_escape_def)

lemma length_dump_str: "length (dump_str s) \<le> 12 * length s + 2"
proof -
  have "length (concat (map esc_char s)) \<le> 12 * length s"
    using length_esc_char by (induction s) (auto intro!: add_mono)
  then show ?thesis by (simp add: dump_str_def)
qed

lemma wf_str_lit [simp]: "wf_str (lit s)"
proof (induction s)
  case (Cons c s)
  have "(of_char c :: nat) < 1114112" "\<not> (55296 :: nat) \<le> of_char c"
    using nat_of_char_less_256 [of c] by linarith+
  with Cons show ?case
    by (cases "lit s") (simp_all add: lit_def is_high_surrogate_def)
qed (simp add: lit_def)

definition member_size :: "pystr \<times> json \<Rightarrow> nat" where
  "member_size = (\<lambda>(k, v). 12 * length k + 6 + length (json_dumps v))"

lemma length_join_members:
  "length (join_with (lit '', '') (dump_members (lit '', '') (lit '': '') kvs))
     \<le> sum_list (map member_size kvs)"
proof (induction kvs rule: induct_list012)
  case (2 kv)
  then show ?case using length_dump_str [of "fst kv"]
    by (cases kv) (simp add: member_size_def json_dumps_def)
next
  case (3 kv kv' kvs)
  then show ?case using length_dump_str [of "fst kv"]
    by (cases kv; cases kv') (simp add: member_size_def json_dumps_def)
qed simp

lemma length_json_dumps_typed:
  "length (json_dumps (typed t kvs)) \<le> 200 + 12 * length t + sum_list (map member_size kvs)"
proof -
  have "length (json_dumps (JInt PROTOCOL_VERSION)) = 1"
    by (simp add: json_dumps_def PROTOCOL_VERSION_def dec_int_def dec_nat.simps)
  moreover have "length (json_dumps (JStr (lit t))) \<le> 12 * length t + 2"
    using length_dump_str [of "lit t"] by (simp add: json_dumps_def)
  ultimately show ?thesis
    using length_join_members [of "entry ''type'' (JStr (lit t)) # entry ''version'' (JInt PROTOCOL_VERSION) # kvs"]
    by (simp add: typed_def json_dumps_def member_size_def)
qed

lemma json_dumps_leaf:
  "length (json_dumps (JStr s)) \<le> 12 * length s + 2" "length (json_dumps (JFloat l)) = length l"
  using length_dump_str by (simp_all add: json_dumps_def)

end
