(* ===== verification/Handshake_Agreement.thy ===== *)
theory Handshake_Agreement
  imports Handshake_Security Message_Size
begin

text \<open>
  Two honest parties: their messages are well formed and fit in a frame, the run succeeds on
  both sides, and the session keys it ends with are crossed.
\<close>

section \<open>The messages of an honest party\<close>

definition party_ok :: "'x crypto_scheme \<Rightarrow> local_party \<Rightarrow> bool" where
  "party_ok C me \<longleftrightarrow>
     wf_keypair C (lp_identity me) \<and>
     lp_ephemeral me = generate_ephemeral_keypair C (eph_private (lp_ephemeral me)) \<and>
     wf_str (lp_name me) \<and> length (lp_name me) \<le> 1000000 \<and>
     lp_nonce me \<noteq> [] \<and> list_all is_ascii (lp_nonce me) \<and> length (lp_nonce me) \<le> 1000 \<and>
     wf_float (lp_stamp me) \<and> length (lp_stamp me) \<le> 1000"

text \<open>The sizes of keys and signatures, which is all that the format of messages depends on.\<close>

definition ed25519_sizes :: "'x ed25519_scheme \<Rightarrow> bool" where
  "ed25519_sizes C \<longleftrightarrow> (\<forall>sk. length (ed_public C sk) = 32) \<and> (\<forall>sk m. length (ed_sign C sk m) = 64)"

lemma ed25519_ok_sizes: "ed25519_ok C \<Longrightarrow> ed25519_sizes C"
  by (simp add: ed25519_ok_def ed25519_sizes_def)

lemma party_facts:
  assumes "ed25519_sizes C" "x25519_ok C" "party_ok C me"
  shows "length (kp_device_id (lp_identity me)) = 64" "list_all is_ascii (kp_device_id (lp_identity me))"
    "length (kp_public (lp_identity me)) = 32" "length (eph_public (lp_ephemeral me)) = 32"
    "length (sign C (lp_identity me) m) = 64"
proof -
  have wf: "wf_keypair C (lp_identity me)" using assms by (simp add: party_ok_def)
  then show "length (kp_device_id (lp_identity me)) = 64" "list_all is_ascii (kp_device_id (lp_identity me))"
    by (simp_all add: wf_keypair_def compute_device_id_def sha256_hex_def bytes_hex_ascii)
  show "length (kp_public (lp_identity me)) = 32" using assms(1) wf by (simp add: ed25519_sizes_def wf_keypair_def)
  have "eph_public (lp_ephemeral me) = x_public C (eph_private (lp_ephemeral me))"
    using assms(3) by (metis party_ok_def generate_ephemeral_keypair_def EphemeralKeypair.select_convs(2))
  then show "length (eph_public (lp_ephemeral me)) = 32" using assms(2) by (simp add: x25519_ok_def)
  show "length (sign C (lp_identity me) m) = 64" using assms(1) by (simp add: ed25519_sizes_def sign_def)
qed

lemma party_sendable:
  assumes "ed25519_sizes C" "x25519_ok C" "party_ok C me" and sig: "length sig = 64"
  shows "sendable (JsonFrame (initiator_message me))"
    and "sendable (JsonFrame (responder_message me (bytes_hex sig)))"
    and "sendable (JsonFrame (make_handshake_finish (lp_stamp me) (bytes_hex sig)))"
proof -
  note f = party_facts [OF assms(1-3)]
  note p = assms(3)[unfolded party_ok_def]
  have wf: "wf_json (initiator_message me)" "wf_json (responder_message me (bytes_hex sig))"
    "wf_json (make_handshake_finish (lp_stamp me) (bytes_hex sig))"
    using p f
    by (simp_all add: initiator_message_def responder_message_def make_defs typed_def dict_ok_def
        public_key_hex_def wf_str_ascii bytes_hex_ascii)
  note b = json_dumps_leaf(1) [of "kp_device_id (lp_identity me)"]
    json_dumps_leaf(1) [of "bytes_hex (kp_public (lp_identity me))"]
    json_dumps_leaf(1) [of "public_key_hex (lp_ephemeral me)"]
    json_dumps_leaf(1) [of "lp_nonce me"] json_dumps_leaf(1) [of "lp_name me"]
    json_dumps_leaf(1) [of "bytes_hex sig"] json_dumps_leaf(2) [of "lp_stamp me"]
  note t = length_json_dumps_typed [THEN order_trans]
  have sizes: "length (json_dumps (initiator_message me)) \<le> MAX_MESSAGE_SIZE"
    "length (json_dumps (responder_message me (bytes_hex sig))) \<le> MAX_MESSAGE_SIZE"
    "length (json_dumps (make_handshake_finish (lp_stamp me) (bytes_hex sig))) \<le> MAX_MESSAGE_SIZE"
    unfolding initiator_message_def responder_message_def make_defs
    by (rule t; use p f b sig in \<open>simp add: member_size_def MAX_MESSAGE_SIZE_def public_key_hex_def\<close>)+
  from wf sizes show "sendable (JsonFrame (initiator_message me))"
    "sendable (JsonFrame (responder_message me (bytes_hex sig)))"
    "sendable (JsonFrame (make_handshake_finish (lp_stamp me) (bytes_hex sig)))"
    by (simp_all add: sendable_def)
qed

lemma sendable_encodes: "sendable (JsonFrame m) \<Longrightarrow> \<exists>bs. encode_frame m = Inr bs"
  by (simp add: sendable_def encode_frame_Inr)

lemmas party_encodes = party_sendable [THEN sendable_encodes]


section \<open>The honest run\<close>

lemma party_messages:
  "jget (initiator_message me) (lit ''type'') = Some (JStr (lit ''handshake_init''))"
  "jget (responder_message me sig) (lit ''type'') = Some (JStr (lit ''handshake_response''))"
  "jget (responder_message me sig) (lit ''signature'') = Some (JStr sig)"
  "jget (make_handshake_finish now sig) (lit ''signature'') = Some (JStr sig)"
  "jget (make_handshake_finish now sig) (lit ''type'') = Some (JStr (lit ''handshake_finish''))"
  "m = initiator_message me \<or> m = responder_message me sig \<Longrightarrow>
     jget m (lit ''device_id'') = Some (JStr (kp_device_id (lp_identity me))) \<and>
     jget m (lit ''public_key'') = Some (JStr (bytes_hex (kp_public (lp_identity me)))) \<and>
     jget m (lit ''ephemeral_key'') = Some (JStr (public_key_hex (lp_ephemeral me))) \<and>
     jget m (lit ''nonce'') = Some (JStr (lp_nonce me)) \<and>
     jget m (lit ''sender_name'') = Some (JStr (lp_name me))"
  by (auto simp: initiator_message_def responder_message_def make_defs)

lemma response_fields:
  "f \<in> set transcript_fields \<Longrightarrow> jget (response_without_sig me) f = jget (responder_message me sig) f"
  by (auto simp: transcript_fields_def response_without_sig_def responder_message_def make_defs)

lemma party_conforms:
  assumes "ed25519_sizes C" "x25519_ok C" "party_ok C me" and "length sig = 64"
  shows "conforms (initiator_message me)" "conforms (responder_message me (bytes_hex sig))"
    "conforms (make_handshake_finish (lp_stamp me) (bytes_hex sig))"
proof -
  have "kp_device_id (lp_identity me) \<noteq> []" "bytes_hex (kp_public (lp_identity me)) \<noteq> []"
    "public_key_hex (lp_ephemeral me) \<noteq> []" "lp_nonce me \<noteq> []" "bytes_hex sig \<noteq> []"
    using party_facts [OF assms(1-3)] assms(3,4) by (auto simp: public_key_hex_def party_ok_def)
  then show "conforms (initiator_message me)" "conforms (responder_message me (bytes_hex sig))"
    "conforms (make_handshake_finish (lp_stamp me) (bytes_hex sig))"
    by (simp_all add: initiator_message_def responder_message_def handshake_messages_conform)
qed

lemma party_wf_fields:
  assumes "ed25519_sizes C" "x25519_ok C" "party_ok C me"
  shows "wf_fields (initiator_message me)" "wf_fields (responder_message me sig)"
    "wf_fields (response_without_sig me)"
  using party_facts [OF assms] assms(3)
  by (auto simp: wf_fields_def transcript_fields_def initiator_message_def responder_message_def make_defs
      response_without_sig_def party_ok_def public_key_hex_def wf_str_ascii bytes_hex_ascii)

lemma message_bytes_cong:
  assumes "\<And>f. f \<in> set transcript_fields \<Longrightarrow> jget a f = jget b f"
  shows "message_bytes a = message_bytes b"
proof -
  have "set fs \<subseteq> set transcript_fields \<Longrightarrow> project a fs = project b fs" for fs
    by (induction fs) (simp_all add: assms split: option.splits)
  then show ?thesis by (simp add: message_bytes_def)
qed

lemma admit_party:
  assumes "m = initiator_message P \<or> m = responder_message P sig"
    and "wf_keypair C (lp_identity P)"
    and "fst (check_and_add (hs_cache s) (lp_now me) (lp_nonce P))"
    and "admitted (hs_trust s) (kp_device_id (lp_identity P)) (bytes_hex (kp_public (lp_identity P)))"
  shows "\<exists>s'. admit_peer me m s = (Inr (kp_public (lp_identity P),
      decision_after (hs_trust s) (kp_device_id (lp_identity P)) (bytes_hex (kp_public (lp_identity P)))), s')
    \<and> hs_written s' = hs_written s"
proof -
  let ?dev = "kp_device_id (lp_identity P)" and ?pk = "bytes_hex (kp_public (lp_identity P))"
  let ?s = "s\<lparr>hs_cache := snd (check_and_add (hs_cache s) (lp_now me) (lp_nonce P))\<rparr>"
  obtain s' where "check_and_update_trust (lp_now me) ?dev ?pk (lp_name P) ?s
      = (Inr (decision_after (hs_trust s) ?dev ?pk), s')" "hs_written s' = hs_written s"
    using check_and_update_trust_ok [of ?s ?dev ?pk "lp_now me" "lp_name P"] assms(4) by auto
  with party_messages(6) [OF assms(1)] assms(2,3) show ?thesis
    by (intro exI [of _ s']) (simp add: admit_peer_def hs_simps wf_keypair_def)
qed


lemma honest_transcript:
  assumes "ed25519_sizes C" "x25519_ok C" "party_ok C A" "party_ok C B"
  shows "\<exists>t. compute_responder_transcript (initiator_message A) (response_without_sig B) = Inr t \<and>
    compute_responder_transcript (initiator_message A) (responder_message B sig) = Inr t"
proof -
  have "message_bytes (response_without_sig B) = message_bytes (responder_message B sig)"
    by (rule message_bytes_cong) (rule response_fields)
  then show ?thesis
    using party_wf_fields [OF assms(1,2,3)] party_wf_fields [OF assms(1,2,4)]
    by (simp add: compute_responder_transcript_def message_bytes_wf res_bind_def)
qed

definition result_for :: "local_party \<Rightarrow> bytes \<Rightarrow> bytes \<Rightarrow> TrustDecision \<Rightarrow> HandshakeResult" where
  "result_for P secret hash d =
     \<lparr>hr_peer_device_id = kp_device_id (lp_identity P),
      hr_peer_public_key = bytes_hex (kp_public (lp_identity P)), hr_peer_name = lp_name P,
      hr_shared_secret = secret, hr_transcript_hash = hash, hr_trust_decision = d\<rparr>"

lemma finish_result_party:
  assumes "m = initiator_message P \<or> m = responder_message P psig"
    and "length (eph_public (lp_ephemeral P)) = 32"
    and "x_exchange C (eph_private (lp_ephemeral me)) (eph_public (lp_ephemeral P)) = Some secret"
  shows "finish_result C me m d it (bytes_hex sg) s =
    (Inr (result_for P secret (sha256 (it @ [10] @ ascii_bytes (bytes_hex sg))) d), s)"
  using party_messages(6) [OF assms(1)] assms(2,3)
  by (simp add: finish_result_def hs_simps result_for_def compute_final_transcript_hash_def
      ascii_encode_def bytes_hex_ascii res_bind_def public_key_hex_def ephemeral_public_from_hex_def
      ephemeral_public_from_bytes_def X25519_KEY_SIZE_def)

lemma honest_exchange:
  assumes "x25519_ok C" "party_ok C A" "party_ok C B"
  obtains secret where "length secret = 32"
    "x_exchange C (eph_private (lp_ephemeral A)) (eph_public (lp_ephemeral B)) = Some secret"
    "x_exchange C (eph_private (lp_ephemeral B)) (eph_public (lp_ephemeral A)) = Some secret"
proof -
  have "eph_public (lp_ephemeral P) = x_public C (eph_private (lp_ephemeral P))" if "party_ok C P" for P
    using that by (metis party_ok_def generate_ephemeral_keypair_def EphemeralKeypair.select_convs(2))
  then show thesis
    using assms that unfolding x25519_ok_def by metis
qed

definition may_meet :: "local_party \<Rightarrow> hs_state \<Rightarrow> local_party \<Rightarrow> bool" where
  "may_meet me s P \<longleftrightarrow>
     fst (check_and_add (hs_cache s) (lp_now me) (lp_nonce P)) \<and>
     admitted (hs_trust s) (kp_device_id (lp_identity P)) (bytes_hex (kp_public (lp_identity P)))"

lemma responder_start_honest:
  assumes ok: "ed25519_sizes C" "x25519_ok C" "party_ok C A" "party_ok C B" and "may_meet B sb A"
    and t: "compute_responder_transcript (initiator_message A) (response_without_sig B) = Inr t"
  shows "\<exists>d sb1. responder_start C B (RMsg (initiator_message A)) sb =
    (Inr \<lparr>rl_init_msg = initiator_message A, rl_peer_pub = kp_public (lp_identity A), rl_decision = d,
       rl_transcript = t, rl_signature = bytes_hex (sign C (lp_identity B) t),
       rl_response = responder_message B (bytes_hex (sign C (lp_identity B) t))\<rparr>, sb1) \<and>
    hs_written sb1 = hs_written sb @ [responder_message B (bytes_hex (sign C (lp_identity B) t))]"
proof -
  have "wf_keypair C (lp_identity A)" using ok(3) by (simp add: party_ok_def)
  then obtain d s1 where "admit_peer B (initiator_message A) sb = (Inr (kp_public (lp_identity A), d), s1)"
    "hs_written s1 = hs_written sb"
    using admit_party [of "initiator_message A" A _ C sb B] assms(5) by (auto simp: may_meet_def)
  with party_conforms(1) [OF ok(1,2,3), of "replicate 64 0"] party_messages(1) [of A] t
    party_encodes(2) [OF ok(1,2,4) party_facts(5) [OF ok(1,2,4)], of t]
  show ?thesis
    by (intro exI [of _ d]
        exI [of _ "s1\<lparr>hs_written := hs_written s1 @ [responder_message B (bytes_hex (sign C (lp_identity B) t))]\<rparr>"])
      (simp add: responder_start_def hs_simps Let_def)
qed


lemma initiator_honest:
  assumes ok: "ed25519_sizes C" "x25519_ok C" "party_ok C A" "party_ok C B" and "may_meet A sa B"
    and t: "compute_responder_transcript (initiator_message A) (responder_message B bsig) = Inr t"
    and bsig: "bsig = bytes_hex (sign C (lp_identity B) t)"
    and it: "compute_initiator_transcript t bsig = Inr it"
    and ver: "ed_verify C (kp_public (lp_identity B)) (sign C (lp_identity B) t) t"
    and sec: "x_exchange C (eph_private (lp_ephemeral A)) (eph_public (lp_ephemeral B)) = Some secret"
  shows "\<exists>d sa'. perform_handshake_initiator C A (\<lambda>_. RMsg (responder_message B bsig)) sa =
    (Inr (result_for B secret
       (sha256 (it @ [10] @ ascii_bytes (bytes_hex (sign C (lp_identity A) it)))) d), sa') \<and>
    hs_written sa' = hs_written sa @
      [initiator_message A, make_handshake_finish (lp_stamp A) (bytes_hex (sign C (lp_identity A) it))]"
proof -
  let ?m = "responder_message B bsig" and ?s = "sa\<lparr>hs_written := hs_written sa @ [initiator_message A]\<rparr>"
  let ?asig = "bytes_hex (sign C (lp_identity A) it)"
  have wfB: "wf_keypair C (lp_identity B)" using ok(4) by (simp add: party_ok_def)
  then obtain d s2 where adm: "admit_peer A ?m ?s = (Inr (kp_public (lp_identity B), d), s2)"
    and w2: "hs_written s2 = hs_written sa @ [initiator_message A]"
    using admit_party [of ?m B bsig C ?s A] assms(5) by (auto simp: may_meet_def)
  have conf: "conforms ?m"
    unfolding bsig by (rule party_conforms(2) [OF ok(1,2,4) party_facts(5) [OF ok(1,2,4)]])
  have fin: "initiator_finish C A (initiator_message A) ?m ?s =
    (Inr (result_for B secret (sha256 (it @ [10] @ ascii_bytes ?asig)) d),
     s2\<lparr>hs_written := hs_written s2 @ [make_handshake_finish (lp_stamp A) ?asig]\<rparr>)"
    using adm t it party_messages(3) [of B bsig] party_messages(6) [of ?m B bsig]
      party_encodes(3) [OF ok(1,2,3) party_facts(5) [OF ok(1,2,3)], of it]
      ver party_facts(3) [OF ok(1,2,4)]
      finish_result_party [OF _ party_facts(4) [OF ok(1,2,4)] sec, of ?m bsig]
    by (simp add: initiator_finish_def hs_simps Let_def bsig)
  have run: "perform_handshake_initiator C A (\<lambda>_. RMsg ?m) sa = initiator_finish C A (initiator_message A) ?m ?s"
    using party_encodes(1) [OF ok(1,2,3), of "replicate 64 0"] conf party_messages(2) [of B bsig]
      receive_message_Inr [of "''handshake_response''" "RMsg ?m" ?s ?m ?s]
    by (auto simp: perform_handshake_initiator_def Let_def hs_bind_def write_msg_def)
  show ?thesis
    by (rule exI, rule exI, rule conjI, rule trans [OF run fin]) (simp add: w2)
qed


lemma crossed_keys:
  assumes "length secret = 32" "length hash = 32"
  shows "\<exists>ka kb. result_session_keys C (result_for B secret hash da) True = Inr ka \<and>
    result_session_keys C (result_for A secret hash db) False = Inr kb \<and>
    send_key ka = recv_key kb \<and> recv_key ka = send_key kb \<and> session_id ka = session_id kb"
  using assms by (simp add: result_session_keys_def result_for_def derive_session_keys_def Let_def)

definition genuine :: "'x crypto_scheme \<Rightarrow> local_party \<Rightarrow> local_party \<Rightarrow> bool" where
  "genuine C A B \<longleftrightarrow>
     (\<forall>t. compute_responder_transcript (initiator_message A) (response_without_sig B) = Inr t \<longrightarrow>
        ed_verify C (kp_public (lp_identity B)) (sign C (lp_identity B) t) t \<and>
        (\<forall>it. compute_initiator_transcript t (bytes_hex (sign C (lp_identity B) t)) = Inr it \<longrightarrow>
           ed_verify C (kp_public (lp_identity A)) (sign C (lp_identity A) it) it))"

lemma genuine_ok: "ed25519_ok C \<Longrightarrow> party_ok C A \<Longrightarrow> party_ok C B \<Longrightarrow> genuine C A B"
  by (simp add: genuine_def party_ok_def sign_verifies)

lemma honest_run:
  assumes ed: "ed25519_sizes C" "genuine C A B" and x: "x25519_ok C" and p: "party_ok C A" "party_ok C B"
    and meet: "may_meet A sa B" "may_meet B sb A"
  shows "\<exists>l sb1 bsig finish da db secret hash sa' sb2 ka kb.
    responder_start C B (RMsg (initiator_message A)) sb = (Inr l, sb1) \<and>
    rl_response l = responder_message B bsig \<and>
    list_all sendable [JsonFrame (initiator_message A), JsonFrame (rl_response l), JsonFrame finish] \<and>
    perform_handshake_initiator C A (\<lambda>_. RMsg (rl_response l)) sa = (Inr (result_for B secret hash da), sa') \<and>
    hs_written sa' = hs_written sa @ [initiator_message A, finish] \<and>
    perform_handshake_responder C B (RMsg (initiator_message A)) (\<lambda>_. RMsg finish) sb
      = (Inr (result_for A secret hash db), sb2) \<and>
    hs_written sb2 = hs_written sb @ [rl_response l] \<and>
    result_session_keys C (result_for B secret hash da) True = Inr ka \<and>
    result_session_keys C (result_for A secret hash db) False = Inr kb \<and>
    send_key ka = recv_key kb \<and> recv_key ka = send_key kb \<and> session_id ka = session_id kb"
proof -
  note ok = ed(1) x p
  obtain t where t: "compute_responder_transcript (initiator_message A) (response_without_sig B) = Inr t"
    and t': "compute_responder_transcript (initiator_message A)
      (responder_message B (bytes_hex (sign C (lp_identity B) t))) = Inr t"
    using honest_transcript [OF ok] by (metis sum.inject(2))
  define bsig where "bsig = bytes_hex (sign C (lp_identity B) t)"
  obtain it where it: "compute_initiator_transcript t bsig = Inr it"
    by (simp add: compute_initiator_transcript_def ascii_encode_def bsig_def bytes_hex_ascii res_bind_def)
  have ver: "ed_verify C (kp_public (lp_identity B)) (sign C (lp_identity B) t) t"
    "ed_verify C (kp_public (lp_identity A)) (sign C (lp_identity A) it) it"
    using ed(2) t it unfolding genuine_def bsig_def by blast+
  define asig where "asig = sign C (lp_identity A) it"
  define finish where "finish = make_handshake_finish (lp_stamp A) (bytes_hex asig)"
  obtain secret where sec: "length secret = 32"
    "x_exchange C (eph_private (lp_ephemeral A)) (eph_public (lp_ephemeral B)) = Some secret"
    "x_exchange C (eph_private (lp_ephemeral B)) (eph_public (lp_ephemeral A)) = Some secret"
    using honest_exchange [OF ok(2,3,4)] by metis
  define hash where "hash = sha256 (it @ [10] @ ascii_bytes (bytes_hex asig))"
  obtain db sb1 where st: "responder_start C B (RMsg (initiator_message A)) sb =
    (Inr \<lparr>rl_init_msg = initiator_message A, rl_peer_pub = kp_public (lp_identity A), rl_decision = db,
       rl_transcript = t, rl_signature = bsig, rl_response = responder_message B bsig\<rparr>, sb1)" (is "_ = (Inr ?l, _)")
    and wb: "hs_written sb1 = hs_written sb @ [responder_message B bsig]"
    using responder_start_honest [OF ok meet(2) t] unfolding bsig_def by blast
  obtain da sa' where ini: "perform_handshake_initiator C A (\<lambda>_. RMsg (rl_response ?l)) sa
      = (Inr (result_for B secret hash da), sa')" "hs_written sa' = hs_written sa @ [initiator_message A, finish]"
    using initiator_honest [OF ok meet(1) t'[folded bsig_def] bsig_def it ver(1) sec(2)]
    unfolding hash_def asig_def finish_def responder_locals.simps by blast
  have "responder_finish C B ?l (RMsg finish) sb1 = (Inr (result_for A secret hash db), sb1)"
    using party_conforms(3) [OF ok(1,2,3) party_facts(5) [OF ok(1,2,3)], of it]
      party_messages(4,5) [of "lp_stamp A" "bytes_hex asig"] party_messages(6) [of "initiator_message A" A]
      ver(2) party_facts(3) [OF ok(1,2,3)] it
      finish_result_party [OF _ party_facts(4) [OF ok(1,2,3)] sec(3), of "initiator_message A" _ db it asig]
    by (simp add: responder_finish_def hs_simps finish_def asig_def hash_def)
  then have res: "perform_handshake_responder C B (RMsg (initiator_message A)) (\<lambda>_. RMsg finish) sb
      = (Inr (result_for A secret hash db), sb1)"
    using st by (simp add: perform_handshake_responder_def hs_bind_def)
  have "length hash = 32" by (simp add: hash_def)
  from crossed_keys [OF sec(1) this, of C B da A db]
  obtain ka kb where k: "result_session_keys C (result_for B secret hash da) True = Inr ka"
    "result_session_keys C (result_for A secret hash db) False = Inr kb"
    "send_key ka = recv_key kb" "recv_key ka = send_key kb" "session_id ka = session_id kb" by blast
  have wl: "hs_written sb1 = hs_written sb @ [rl_response ?l]" using wb by simp
  have sizes: "list_all sendable [JsonFrame (initiator_message A), JsonFrame (rl_response ?l), JsonFrame finish]"
    using party_sendable [OF ok(1,2,3) party_facts(5) [OF ok(1,2,3)]]
      party_sendable [OF ok(1,2,4) party_facts(5) [OF ok(1,2,4)]]
    by (simp add: bsig_def finish_def asig_def)
  show ?thesis
    by (intro exI conjI) (rule st, rule responder_locals.select_convs, rule sizes, rule ini(1), rule ini(2),
        rule res, rule wl, rule k, rule k, rule k, rule k, rule k)
qed


text \<open>
  Claim C9. When two honest parties exchange their three messages over a
  faithful connection, and neither has seen the other's nonce nor distrusts the other's key,
  every message fits in a frame; both sides finish; each reports the other's identity, key and name; both hold the same
  secret and transcript hash; and the session keys they derive are crossed and share the
  session identifier.
\<close>

theorem honest_handshake_agrees:
  assumes ed: "ed25519_ok C" and x: "x25519_ok C" and p: "party_ok C A" "party_ok C B"
    and meet: "may_meet A sa B" "may_meet B sb A"
  shows "\<exists>l sb1 bsig finish da db secret hash sa' sb2 ka kb.
    responder_start C B (RMsg (initiator_message A)) sb = (Inr l, sb1) \<and>
    rl_response l = responder_message B bsig \<and>
    list_all sendable [JsonFrame (initiator_message A), JsonFrame (rl_response l), JsonFrame finish] \<and>
    perform_handshake_initiator C A (\<lambda>_. RMsg (rl_response l)) sa = (Inr (result_for B secret hash da), sa') \<and>
    hs_written sa' = hs_written sa @ [initiator_message A, finish] \<and>
    perform_handshake_responder C B (RMsg (initiator_message A)) (\<lambda>_. RMsg finish) sb
      = (Inr (result_for A secret hash db), sb2) \<and>
    hs_written sb2 = hs_written sb @ [rl_response l] \<and>
    result_session_keys C (result_for B secret hash da) True = Inr ka \<and>
    result_session_keys C (result_for A secret hash db) False = Inr kb \<and>
    send_key ka = recv_key kb \<and> recv_key ka = send_key kb \<and> session_id ka = session_id kb"
  by (rule honest_run [OF ed25519_ok_sizes [OF ed] genuine_ok [OF ed p] x p meet])


section \<open>Agreement in the presence of an attacker\<close>

text \<open>
  The sessions a device has taken part in: as responder, the init message it received and its
  own parameters; as initiator, its own parameters and the response it received. A device
  signs nothing but the transcripts of its sessions.
\<close>

definition signs_only ::
  "(json \<times> local_party) list \<Rightarrow> (local_party \<times> json) list \<Rightarrow> bytes \<Rightarrow> bool" where
  "signs_only responded initiated m \<longleftrightarrow>
     (\<exists>(init, P) \<in> set responded. wf_fields init \<and> wf_fields (response_without_sig P) \<and>
        compute_responder_transcript init (response_without_sig P) = Inr m) \<or>
     (\<exists>(P, resp) \<in> set initiated. \<exists>t sig. wf_fields (initiator_message P) \<and> wf_fields resp \<and>
        compute_responder_transcript (initiator_message P) resp = Inr t \<and>
        compute_initiator_transcript t sig = Inr m)"

text \<open>
  What the two parties agree on is said by the names of the fields, and not by the list the
  transcript is made from: that the list has all of them is part of what is proved.
\<close>

definition same_fields :: "json \<Rightarrow> json \<Rightarrow> bool" where
  "same_fields a b \<longleftrightarrow>
     list_all (\<lambda>f. jget a (lit f) = jget b (lit f))
       [''type'', ''device_id'', ''public_key'', ''ephemeral_key'', ''nonce'', ''sender_name'']"

lemma same_fields_refl [simp]: "same_fields a a"
  by (simp add: same_fields_def)

lemma same_fields_transcript: "same_fields a b \<longleftrightarrow> (\<forall>f \<in> set transcript_fields. jget a f = jget b f)"
  by (auto simp: same_fields_def transcript_fields_def)

lemma domains_apart:
  "compute_responder_transcript i r = Inr m \<Longrightarrow> compute_initiator_transcript t sig \<noteq> Inr m"
  by (auto simp: initiator_transcript_Inr responder_transcript_Inr domains_differ [symmetric])




section \<open>The nonce cache\<close>

fun nonce_calls :: "NonceCache \<Rightarrow> (time \<times> pystr) list \<Rightarrow> NonceCache" where
  "nonce_calls cache [] = cache"
| "nonce_calls cache ((now, nonce) # qs) = nonce_calls (snd (check_and_add cache now nonce)) qs"

definition remembers :: "NonceCache \<Rightarrow> pystr \<Rightarrow> time \<Rightarrow> bool" where
  "remembers cache nonce t \<longleftrightarrow> dict_ok (nc_seen cache) \<and> map_of (nc_seen cache) nonce = Some t"

lemma map_of_filter_keep:
  "dict_ok d \<Longrightarrow> map_of d k = Some v \<Longrightarrow> p (k, v) \<Longrightarrow> map_of (filter p d) k = Some v"
  using map_of_eq_Some_iff [of "filter p d" k v] dict_ok_filter [of d p]
  by (auto simp: dict_ok_def dest: map_of_SomeD)

lemma check_and_add_ttl [simp]: "nc_ttl (snd (check_and_add cache now nonce)) = nc_ttl cache"
  by (simp add: check_and_add_def Let_def)

lemma check_and_add_ok:
  "dict_ok (nc_seen cache) \<Longrightarrow> dict_ok (nc_seen (snd (check_and_add cache now nonce)))"
  by (simp add: check_and_add_def Let_def )

lemma check_and_add_fresh:
  assumes "dict_ok (nc_seen cache)" "fst (check_and_add cache now nonce)"
  shows "remembers (snd (check_and_add cache now nonce)) nonce now"
  using assms check_and_add_ok [OF assms(1), of now nonce]
  by (auto simp: remembers_def check_and_add_def Let_def split: if_splits)

lemma check_and_add_remembers:
  assumes "remembers cache nonce t" "now - t \<le> nc_ttl cache"
  shows "remembers (snd (check_and_add cache now other)) nonce t"
    and "\<not> fst (check_and_add cache now nonce)"
proof -
  let ?seen = "filter (\<lambda>(k, t). \<not> now - t > nc_ttl cache) (nc_seen cache)"
  have m: "map_of ?seen nonce = Some t"
    using assms by (intro map_of_filter_keep) (auto simp: remembers_def)
  then show "\<not> fst (check_and_add cache now nonce)" by (simp add: check_and_add_def Let_def)
  have "dict_ok (nc_seen (snd (check_and_add cache now other)))"
    using assms(1) by (simp add: remembers_def check_and_add_ok)
  moreover have "map_of (nc_seen (snd (check_and_add cache now other))) nonce = Some t"
    using m by (auto simp: check_and_add_def Let_def)
  ultimately show "remembers (snd (check_and_add cache now other)) nonce t"
    by (simp add: remembers_def)
qed

lemma nonce_calls_remember:
  "remembers cache nonce t \<Longrightarrow> \<forall>(now, n) \<in> set qs. now - t \<le> nc_ttl cache \<Longrightarrow>
     remembers (nonce_calls cache qs) nonce t \<and> nc_ttl (nonce_calls cache qs) = nc_ttl cache"
  by (induction cache qs rule: nonce_calls.induct) (auto simp: check_and_add_remembers(1))

text \<open>
  Claim C22. A nonce that was accepted once is rejected at every later check
  within the expiry window, whatever other nonces were checked in between.
\<close>

theorem nonce_replay_rejected:
  assumes "dict_ok (nc_seen cache)" and "check_and_add cache t nonce = (True, cache')"
    and "\<forall>(now, n) \<in> set qs. now - t \<le> nc_ttl cache" and "now - t \<le> nc_ttl cache"
  shows "\<not> fst (check_and_add (nonce_calls cache' qs) now nonce)"
proof -
  have "remembers cache' nonce t" "nc_ttl cache' = nc_ttl cache"
    using check_and_add_fresh [of cache t nonce] check_and_add_ttl [of cache t nonce] assms(1,2) by simp_all
  with nonce_calls_remember [of cache' nonce t qs] assms(3,4) show ?thesis
    by (intro check_and_add_remembers(2)) simp_all
qed

theorem nonce_replay_rejected_witness:
  "check_and_add new_nonce_cache 5 (lit ''n'') = (True, \<lparr>nc_ttl = 300, nc_seen = [(lit ''n'', 5)]\<rparr>) \<and>
   \<not> fst (check_and_add
     (nonce_calls \<lparr>nc_ttl = 300, nc_seen = [(lit ''n'', 5)]\<rparr> [(100, lit ''m''), (200, lit ''n'')]) 305 (lit ''n''))"
proof -
  have "check_and_add new_nonce_cache 5 (lit ''n'') = (True, \<lparr>nc_ttl = 300, nc_seen = [(lit ''n'', 5)]\<rparr>)"
    by (simp add: check_and_add_def new_nonce_cache_def)
  with nonce_replay_rejected [OF _ this, of "[(100, lit ''m''), (200, lit ''n'')]" 305] show ?thesis
    by (simp add: new_nonce_cache_def dict_ok_def)
qed


section \<open>The trust store is written before the signature is seen\<close>

lemma check_and_update_unknown:
  assumes "hs_trust s = Some S" "fst (check S dev pk) = D_UNKNOWN"
    and "check_and_update_trust now dev pk name s = (Inr d, s')"
  shows "\<exists>S' entry. hs_trust s' = Some S' \<and> get_device S' dev = Some entry \<and>
    td_public_key entry = pk \<and> td_status entry = PENDING"
proof -
  obtain ns where "check S dev pk = (D_UNKNOWN, ns)" using assms(2) by (metis prod.collapse)
  moreover from this have "get_device S dev = None" by (rule check_unknown)
  ultimately show ?thesis
    using assms(1,3) by (auto simp: check_and_update_trust_def record_first_seen_def)
qed

text \<open>
  The trust store is updated from the init message alone: a
  stranger that sends a public key it need not own and then says nothing makes the responder
  fail with a timeout, and leaves that device in the store, waiting for the user's approval.
\<close>

theorem unproven_peer_is_recorded:
  assumes "responder_start C me (RMsg init) s = (Inr l, s1)"
    and "hs_trust s = Some S" "fst (check S dev pk) = D_UNKNOWN"
    and "jget init (lit ''device_id'') = Some (JStr dev)" "jget init (lit ''public_key'') = Some (JStr pk)"
  shows "perform_handshake_responder C me (RMsg init) (\<lambda>_. RTimeout) s = (Inl HandshakeTimeout, s1) \<and>
    (\<exists>S' entry. hs_trust s1 = Some S' \<and> get_device S' dev = Some entry \<and>
       td_public_key entry = pk \<and> td_status entry = PENDING)"
proof
  show "perform_handshake_responder C me (RMsg init) (\<lambda>_. RTimeout) s = (Inl HandshakeTimeout, s1)"
    using assms(1)
    by (simp add: perform_handshake_responder_def responder_finish_def receive_message_def hs_bind_def hs_raise_def)
  obtain name nonce d s2 where tr:
    "check_and_update_trust (lp_now me) dev pk name
       (s\<lparr>hs_cache := snd (check_and_add (hs_cache s) (lp_now me) nonce)\<rparr>) = (Inr d, s2)"
    and s1: "hs_trust s1 = hs_trust s2"
    using assms(1,4,5) by (auto simp: responder_start_def admit_peer_def hs_simps Let_def)
  show "\<exists>S' entry. hs_trust s1 = Some S' \<and> get_device S' dev = Some entry \<and>
       td_public_key entry = pk \<and> td_status entry = PENDING"
    unfolding s1 using assms(2,3) by (intro check_and_update_unknown [OF _ _ tr]) simp_all
qed

section \<open>Witnesses\<close>

definition toy_party :: "byte \<Rightarrow> local_party" where
  "toy_party n =
     \<lparr>lp_identity = keypair_from_private_key toy_crypto (replicate 32 n), lp_name = lit ''ann'',
      lp_ephemeral = generate_ephemeral_keypair toy_crypto (replicate 32 n),
      lp_nonce = bytes_hex [n], lp_now = 0, lp_stamp = lit ''1.5''\<rparr>"

definition toy_state :: "TrustStore option \<Rightarrow> hs_state" where
  "toy_state T = \<lparr>hs_cache = new_nonce_cache, hs_trust = T, hs_written = [], hs_notices = []\<rparr>"

text \<open>The toy primitives with a signature check that accepts the two transcripts of one session only.\<close>

definition toy_transcripts :: "bytes list" where
  "toy_transcripts =
     (case compute_responder_transcript (initiator_message (toy_party 1)) (response_without_sig (toy_party 2)) of
        Inl _ \<Rightarrow> []
      | Inr t \<Rightarrow>
          (case compute_initiator_transcript t (bytes_hex (sign toy_crypto (lp_identity (toy_party 2)) t)) of
             Inl _ \<Rightarrow> []
           | Inr it \<Rightarrow> [t, it]))"

definition strict_crypto :: crypto where
  "strict_crypto = toy_crypto\<lparr>ed_verify := \<lambda>pub sig m. m \<in> set toy_transcripts\<rparr>"

lemma toy_party_ok: "party_ok toy_crypto (toy_party n)" "party_ok strict_crypto (toy_party n)"
proof -
  have "wf_float (lit ''1.5'')" by code_simp
  then show "party_ok toy_crypto (toy_party n)"
    by (simp add: party_ok_def toy_party_def generate_ephemeral_keypair_def hex_byte_def hex_digit_ascii)
  then show "party_ok strict_crypto (toy_party n)"
    by (simp add: party_ok_def strict_crypto_def wf_keypair_def generate_ephemeral_keypair_def)
qed

lemma strict_crypto_ok: "ed25519_sizes strict_crypto" "x25519_ok strict_crypto"
    "genuine strict_crypto (toy_party 1) (toy_party 2)"
proof -
  show "ed25519_sizes strict_crypto" "x25519_ok strict_crypto"
    using ed25519_ok_sizes [OF toy_crypto_ok(1)] toy_crypto_ok(2)
    by (simp_all add: ed25519_sizes_def x25519_ok_def strict_crypto_def)
  show "genuine strict_crypto (toy_party 1) (toy_party 2)"
    by (simp add: genuine_def strict_crypto_def toy_transcripts_def sign_def compute_initiator_transcript_def
        ascii_encode_def bytes_hex_ascii res_bind_def)
qed

lemma toy_may_meet: "may_meet (toy_party n) (toy_state None) (toy_party m)"
  by (simp add: may_meet_def toy_state_def check_and_add_def new_nonce_cache_def admitted_def)

theorem honest_handshake_agrees_witness:
  "\<exists>l sb1 bsig finish da db secret hash sa' sb2 ka kb.
    responder_start toy_crypto (toy_party 2) (RMsg (initiator_message (toy_party 1))) (toy_state None) = (Inr l, sb1) \<and>
    rl_response l = responder_message (toy_party 2) bsig \<and>
    list_all sendable [JsonFrame (initiator_message (toy_party 1)), JsonFrame (rl_response l), JsonFrame finish] \<and>
    perform_handshake_initiator toy_crypto (toy_party 1) (\<lambda>_. RMsg (rl_response l)) (toy_state None)
      = (Inr (result_for (toy_party 2) secret hash da), sa') \<and>
    hs_written sa' = hs_written (toy_state None) @ [initiator_message (toy_party 1), finish] \<and>
    perform_handshake_responder toy_crypto (toy_party 2) (RMsg (initiator_message (toy_party 1))) (\<lambda>_. RMsg finish)
      (toy_state None) = (Inr (result_for (toy_party 1) secret hash db), sb2) \<and>
    hs_written sb2 = hs_written (toy_state None) @ [rl_response l] \<and>
    result_session_keys toy_crypto (result_for (toy_party 2) secret hash da) True = Inr ka \<and>
    result_session_keys toy_crypto (result_for (toy_party 1) secret hash db) False = Inr kb \<and>
    send_key ka = recv_key kb \<and> recv_key ka = send_key kb \<and> session_id ka = session_id kb"
  by (rule honest_handshake_agrees [OF toy_crypto_ok(1,2) toy_party_ok(1,1) toy_may_meet toy_may_meet])

lemma toy_run:
  "\<exists>bsig finish ra rb sa' sb'.
    perform_handshake_initiator strict_crypto (toy_party 1) (\<lambda>_. RMsg (responder_message (toy_party 2) bsig))
      (toy_state None) = (Inr ra, sa') \<and>
    perform_handshake_responder strict_crypto (toy_party 2) (RMsg (initiator_message (toy_party 1)))
      (\<lambda>_. RMsg finish) (toy_state None) = (Inr rb, sb')"
  using honest_run [OF strict_crypto_ok(1,3,2) toy_party_ok(2,2) toy_may_meet toy_may_meet] by (elim exE conjE) metis

lemma toy_wf_fields [simp]: "wf_fields (initiator_message (toy_party n))"
    "wf_fields (responder_message (toy_party n) sig)" "wf_fields (response_without_sig (toy_party n))"
  by (rule party_wf_fields [OF strict_crypto_ok(1,2) toy_party_ok(2)])+

lemma toy_signs:
  assumes "m \<in> set toy_transcripts"
  shows "signs_only [(initiator_message (toy_party 1), toy_party 2)] [(toy_party 1, response_without_sig (toy_party 2))] m"
proof (cases "compute_responder_transcript (initiator_message (toy_party 1)) (response_without_sig (toy_party 2))")
  case (Inr t)
  note t = this
  show ?thesis
  proof (cases "compute_initiator_transcript t (bytes_hex (sign toy_crypto (lp_identity (toy_party 2)) t))")
    case (Inr it)
    with assms t have "m = t \<or> m = it" by (simp add: toy_transcripts_def)
    with t Inr show ?thesis by (auto simp: signs_only_def)
  qed (use assms t in \<open>simp add: toy_transcripts_def\<close>)
qed (use assms in \<open>simp add: toy_transcripts_def\<close>)

theorem initiator_authenticates_witness:
  "\<exists>bsig r s' resp sig_hex transcript.
    perform_handshake_initiator strict_crypto (toy_party 1) (\<lambda>_. RMsg (responder_message (toy_party 2) bsig))
      (toy_state None) = (Inr r, s') \<and>
    compute_responder_transcript (initiator_message (toy_party 1)) resp = Inr transcript \<and>
    authenticated strict_crypto (toy_state None) r sig_hex transcript"
  using toy_run initiator_authenticates by fast

theorem responder_authenticates_witness:
  "\<exists>finish r s' init sig_hex t transcript.
    perform_handshake_responder strict_crypto (toy_party 2) (RMsg (initiator_message (toy_party 1)))
      (\<lambda>_. RMsg finish) (toy_state None) = (Inr r, s') \<and>
    compute_responder_transcript init (response_without_sig (toy_party 2)) = Inr t \<and>
    authenticated strict_crypto (toy_state None) r sig_hex transcript"
  using toy_run responder_authenticates by fast

theorem transcript_binds_witness:
  "\<exists>t. compute_responder_transcript (initiator_message (toy_party 1)) (response_without_sig (toy_party 2)) = Inr t \<and>
     compute_initiator_transcript t [] \<noteq> Inr t"
proof -
  obtain t where t:
    "compute_responder_transcript (initiator_message (toy_party 1)) (response_without_sig (toy_party 2)) = Inr t"
    by (simp add: compute_responder_transcript_def message_bytes_wf res_bind_def)
  with transcript_binds [OF t t] show ?thesis by simp
qed



theorem unproven_peer_is_recorded_witness:
  "\<exists>s1. perform_handshake_responder toy_crypto (toy_party 2) (RMsg (initiator_message (toy_party 1)))
      (\<lambda>_. RTimeout) (toy_state (Some empty_store)) = (Inl HandshakeTimeout, s1) \<and>
    (\<exists>S' entry. hs_trust s1 = Some S' \<and>
       get_device S' (kp_device_id (lp_identity (toy_party 1))) = Some entry \<and> td_status entry = PENDING)"
proof -
  let ?dev = "kp_device_id (lp_identity (toy_party 1))" and ?pk = "bytes_hex (kp_public (lp_identity (toy_party 1)))"
  have unk: "fst (check empty_store ?dev ?pk) = D_UNKNOWN"
    by (simp add: check_def empty_store_def get_device_def)
  then have "may_meet (toy_party 2) (toy_state (Some empty_store)) (toy_party 1)"
    by (simp add: may_meet_def toy_state_def check_and_add_def new_nonce_cache_def admitted_def)
  note run = honest_run [OF ed25519_ok_sizes [OF toy_crypto_ok(1)] genuine_ok [OF toy_crypto_ok(1) toy_party_ok(1,1)]
    toy_crypto_ok(2) toy_party_ok(1,1) toy_may_meet this]
  then obtain l s1 where st: "responder_start toy_crypto (toy_party 2) (RMsg (initiator_message (toy_party 1)))
      (toy_state (Some empty_store)) = (Inr l, s1)" by blast
  have t: "hs_trust (toy_state (Some empty_store)) = Some empty_store" by (simp add: toy_state_def)
  note f = party_messages(6) [of "initiator_message (toy_party 1)" "toy_party 1"]
  from unproven_peer_is_recorded [OF st t unk] f show ?thesis by blast
qed

end
