(* ===== verification/Transport.thy ===== *)
theory Transport
  imports Channel Frame
begin

text \<open>
  The byte transports of \<^verbatim>\<open>core/transport/tcp.py\<close>, \<^verbatim>\<open>core/transport/timeout.py\<close> and
  \<^verbatim>\<open>core/transport/secure.py\<close>. A connection holds the bytes its peer has still to deliver
  before the end of the stream, the bytes written so far, and whether the network has reset
  it. Every operation returns its result or exception together with the state it leaves.
\<close>

section \<open>Errors and timeouts\<close>

datatype transport_reason =
    ReadError frame_error
  | WriteError frame_error
  | ConnectFailed
  | NotADict
  | SequenceExhausted
  | EncryptFailed
  | ExpectedBinary
  | TooShort
  | EmptyPayload
  | MalformedInner

datatype transport_error =
    TransportError transport_reason
  | ConnectTimeoutError
  | ConnectionClosedError
  | ChannelError encryption_error
  | StructError
  | InnerEncodeError

section \<open>TCP connections\<close>

record TCPConnection =
  tcp_reader :: bytes
  tcp_writer :: bytes
  tcp_closed :: bool
  tcp_writer_closing :: bool
  tcp_reset :: bool
  tcp_peername :: "(pystr \<times> int) option"

definition peer_addr :: "TCPConnection \<Rightarrow> pystr \<times> int" where
  "peer_addr t = (case tcp_peername t of None \<Rightarrow> (lit ''0.0.0.0'', 0) | Some p \<Rightarrow> p)"

definition tcp_addr_key :: "TCPConnection \<Rightarrow> pystr" where
  "tcp_addr_key t = fst (peer_addr t) @ lit '':'' @ dec_int (snd (peer_addr t))"

definition is_closing :: "TCPConnection \<Rightarrow> bool" where
  "is_closing t \<longleftrightarrow> tcp_closed t \<or> tcp_writer_closing t"

text \<open>
  What is left on the stream after a read that failed with anything but the end of the
  stream: the payload has been consumed if the failure was in decoding it, else only the
  length.
\<close>

definition after_failed_read :: "bytes \<Rightarrow> bytes" where
  "after_failed_read reader =
     (case read_raw reader of
        Inr (_, rest) \<Rightarrow> rest
      | Inl _ \<Rightarrow> drop LENGTH_PREFIX_SIZE reader)"

definition tcp_read_frame :: "TCPConnection \<Rightarrow> (transport_error + any_frame) \<times> TCPConnection" where
  "tcp_read_frame t =
     (if is_closing t then (Inl ConnectionClosedError, t)
      else if tcp_reset t then (Inl ConnectionClosedError, t\<lparr>tcp_closed := True\<rparr>)
      else case read_any_frame (tcp_reader t) of
        Inr (frame, rest) \<Rightarrow> (Inr frame, t\<lparr>tcp_reader := rest\<rparr>)
      | Inl IncompleteReadError \<Rightarrow> (Inl ConnectionClosedError, t\<lparr>tcp_reader := [], tcp_closed := True\<rparr>)
      | Inl e \<Rightarrow> (Inl (TransportError (ReadError e)), t\<lparr>tcp_reader := after_failed_read (tcp_reader t)\<rparr>))"

text \<open>\<^verbatim>\<open>drain\<close> raises once the network has reset the connection.\<close>

definition tcp_drain :: "TCPConnection \<Rightarrow> frame_error + bytes \<Rightarrow> (transport_error + unit) \<times> TCPConnection" where
  "tcp_drain t written =
     (case written of
        Inl e \<Rightarrow> (Inl (TransportError (WriteError e)), t)
      | Inr w \<Rightarrow>
          if tcp_reset t then (Inl ConnectionClosedError, t\<lparr>tcp_writer := w, tcp_closed := True\<rparr>)
          else (Inr (), t\<lparr>tcp_writer := w\<rparr>))"

definition tcp_write_frame :: "TCPConnection \<Rightarrow> json \<Rightarrow> (transport_error + unit) \<times> TCPConnection" where
  "tcp_write_frame t message =
     (if is_closing t then (Inl ConnectionClosedError, t)
      else tcp_drain t (write_frame (tcp_writer t) message))"

definition tcp_write_binary_frame :: "TCPConnection \<Rightarrow> bytes \<Rightarrow> (transport_error + unit) \<times> TCPConnection" where
  "tcp_write_binary_frame t payload =
     (if is_closing t then (Inl ConnectionClosedError, t)
      else tcp_drain t (write_binary_frame (tcp_writer t) payload))"

definition tcp_close :: "TCPConnection \<Rightarrow> TCPConnection" where
  "tcp_close t = (if tcp_closed t then t else t\<lparr>tcp_closed := True, tcp_writer_closing := True\<rparr>)"

datatype connect_outcome = Connected bytes "(pystr \<times> int) option" | ConnectTimedOut | ConnectRefused

definition open_tcp_connection :: "connect_outcome \<Rightarrow> transport_error + TCPConnection" where
  "open_tcp_connection outcome =
     (case outcome of
        Connected stream peername \<Rightarrow>
          Inr \<lparr>tcp_reader = stream, tcp_writer = [], tcp_closed = False, tcp_writer_closing = False,
               tcp_reset = False, tcp_peername = peername\<rparr>
      | ConnectTimedOut \<Rightarrow> Inl ConnectTimeoutError
      | ConnectRefused \<Rightarrow> Inl (TransportError ConnectFailed))"

section \<open>The encrypted transport\<close>

definition TYPE_JSON :: byte where
  "TYPE_JSON = 74"

definition TYPE_BINARY :: byte where
  "TYPE_BINARY = 66"

definition SEQUENCE_SIZE :: nat where
  "SEQUENCE_SIZE = 8"

definition MIN_ENCRYPTED_PAYLOAD_LEN :: nat where
  "MIN_ENCRYPTED_PAYLOAD_LEN = SEQUENCE_SIZE + 16"

record EncryptedTransport =
  et_tcp :: TCPConnection
  et_channel :: SecureChannel

text \<open>
  The channel counts in 96 bits, the header in 64: \<^verbatim>\<open>struct.pack\<close> raises on a larger number,
  which nothing catches.
\<close>

definition send_encrypted ::
  "'x crypto_scheme \<Rightarrow> EncryptedTransport \<Rightarrow> bytes \<Rightarrow> bytes \<Rightarrow> (transport_error + unit) \<times> EncryptedTransport" where
  "send_encrypted C et inner_payload ad =
     (case encrypt C (et_channel et) inner_payload ad of
        Inl (SequenceExhaustedError n) \<Rightarrow>
          (Inl (TransportError SequenceExhausted), et\<lparr>et_tcp := tcp_close (et_tcp et)\<rparr>)
      | Inl e \<Rightarrow> (Inl (TransportError EncryptFailed), et)
      | Inr (frame, ch) \<Rightarrow>
          if ef_sequence frame \<ge> 2 ^ 64 then (Inl StructError, et\<lparr>et_channel := ch\<rparr>)
          else
            let (r, tcp) = tcp_write_binary_frame (et_tcp et)
                  (be_bytes SEQUENCE_SIZE (nat (ef_sequence frame)) @ ef_ciphertext frame) in
            (r, et\<lparr>et_channel := ch, et_tcp := tcp\<rparr>))"

definition send_message ::
  "'x crypto_scheme \<Rightarrow> EncryptedTransport \<Rightarrow> json \<Rightarrow> bytes \<Rightarrow> (transport_error + unit) \<times> EncryptedTransport" where
  "send_message C et message ad =
     (case message of
        JObj _ \<Rightarrow>
          (case utf8_encode (json_dumps message) of
             None \<Rightarrow> (Inl InnerEncodeError, et)
           | Some raw_json \<Rightarrow> send_encrypted C et (TYPE_JSON # raw_json) ad)
      | _ \<Rightarrow> (Inl (TransportError NotADict), et))"

definition send_binary ::
  "'x crypto_scheme \<Rightarrow> EncryptedTransport \<Rightarrow> bytes \<Rightarrow> bytes \<Rightarrow> (transport_error + unit) \<times> EncryptedTransport" where
  "send_binary C et payload ad = send_encrypted C et (TYPE_BINARY # payload) ad"

datatype received = RecvJson json | RecvBinary bytes | RecvRaw bytes

definition unwrap_plaintext :: "bytes \<Rightarrow> transport_error + received" where
  "unwrap_plaintext plaintext =
     (case plaintext of
        [] \<Rightarrow> Inl (TransportError EmptyPayload)
      | marker # body \<Rightarrow>
          if marker = TYPE_JSON then
            (case utf8_decode body of
               None \<Rightarrow> Inl (TransportError MalformedInner)
             | Some s \<Rightarrow>
                 (case json_loads s of
                    None \<Rightarrow> Inl (TransportError MalformedInner)
                  | Some message \<Rightarrow> Inr (RecvJson message)))
          else if marker = TYPE_BINARY then Inr (RecvBinary body)
          else Inr (RecvRaw plaintext))"

definition receive_frame ::
  "'x crypto_scheme \<Rightarrow> EncryptedTransport \<Rightarrow> bytes \<Rightarrow> (transport_error + received) \<times> EncryptedTransport" where
  "receive_frame C et ad =
     (let (r, tcp) = tcp_read_frame (et_tcp et); et = et\<lparr>et_tcp := tcp\<rparr> in
      case r of
        Inl e \<Rightarrow> (Inl e, et)
      | Inr (JsonFrame _) \<Rightarrow> (Inl (TransportError ExpectedBinary), et)
      | Inr (BinaryFrame wire_payload) \<Rightarrow>
          if length wire_payload < MIN_ENCRYPTED_PAYLOAD_LEN then (Inl (TransportError TooShort), et)
          else
            (case decrypt C (et_channel et) (int (be_nat (take SEQUENCE_SIZE wire_payload)))
                    (drop SEQUENCE_SIZE wire_payload) ad of
               Inl e \<Rightarrow> (Inl (ChannelError e), et)
             | Inr (plaintext, ch) \<Rightarrow> (unwrap_plaintext plaintext, et\<lparr>et_channel := ch\<rparr>)))"

definition et_close :: "EncryptedTransport \<Rightarrow> EncryptedTransport" where
  "et_close et = et\<lparr>et_tcp := tcp_close (et_tcp et)\<rparr>"

section \<open>Delivery\<close>

datatype outgoing = OutJson json | OutBinary bytes

definition send_item ::
  "'x crypto_scheme \<Rightarrow> EncryptedTransport \<Rightarrow> outgoing \<Rightarrow> (transport_error + unit) \<times> EncryptedTransport" where
  "send_item C et item =
     (case item of OutJson m \<Rightarrow> send_message C et m [] | OutBinary b \<Rightarrow> send_binary C et b [])"

fun send_items :: "'x crypto_scheme \<Rightarrow> EncryptedTransport \<Rightarrow> outgoing list \<Rightarrow> (transport_error + unit) \<times> EncryptedTransport" where
  "send_items C et [] = (Inr (), et)"
| "send_items C et (i # is) =
     (case send_item C et i of (Inl e, et') \<Rightarrow> (Inl e, et') | (Inr _, et') \<Rightarrow> send_items C et' is)"

fun receive_items :: "'x crypto_scheme \<Rightarrow> EncryptedTransport \<Rightarrow> nat \<Rightarrow> (transport_error + received list) \<times> EncryptedTransport" where
  "receive_items C et 0 = (Inr [], et)"
| "receive_items C et (Suc n) =
     (case receive_frame C et [] of
        (Inl e, et') \<Rightarrow> (Inl e, et')
      | (Inr x, et') \<Rightarrow>
          (case receive_items C et' n of (Inl e, et'') \<Rightarrow> (Inl e, et'') | (Inr xs, et'') \<Rightarrow> (Inr (x # xs), et'')))"

definition inner_bytes :: "outgoing \<Rightarrow> bytes" where
  "inner_bytes item =
     (case item of OutJson m \<Rightarrow> TYPE_JSON # ascii_bytes (json_dumps m) | OutBinary b \<Rightarrow> TYPE_BINARY # b)"

definition delivered :: "outgoing \<Rightarrow> received" where
  "delivered item = (case item of OutJson m \<Rightarrow> RecvJson m | OutBinary b \<Rightarrow> RecvBinary b)"

text \<open>The payload, its marker, the tag and the sequence number have to fit in one frame.\<close>

definition item_ok :: "outgoing \<Rightarrow> bool" where
  "item_ok item \<longleftrightarrow> length (inner_bytes item) + 24 \<le> MAX_MESSAGE_SIZE \<and>
     (case item of OutJson m \<Rightarrow> wf_json m \<and> (\<exists>kvs. m = JObj kvs) | OutBinary b \<Rightarrow> True)"

definition usable :: "EncryptedTransport \<Rightarrow> bool" where
  "usable et \<longleftrightarrow> \<not> is_closing (et_tcp et) \<and> \<not> tcp_reset (et_tcp et)"

definition sealed :: "'x crypto_scheme \<Rightarrow> SecureChannel \<Rightarrow> bytes \<Rightarrow> bytes" where
  "sealed C ch inner =
     be_bytes 8 (nat (ch_send_sequence ch)) @
     aead_encrypt C (send_key (ch_keys ch)) (be_bytes 12 (nat (ch_send_sequence ch))) inner None"

lemma small_sequence: "n < 2 ^ 64 \<Longrightarrow> n \<le> MAX_SEQUENCE"
  by (simp add: MAX_SEQUENCE_def NONCE_LEN_def)

lemma length_sealed: "aead_ok C \<Longrightarrow> length (sealed C ch inner) = length inner + 24"
  by (simp add: sealed_def aead_ok_length)

lemma send_encrypted_ok:
  assumes "aead_ok C" "usable et" "0 \<le> ch_send_sequence (et_channel et)" "ch_send_sequence (et_channel et) < 2 ^ 64"
    and "length inner + 24 \<le> MAX_MESSAGE_SIZE"
  shows "send_encrypted C et inner [] =
    (Inr (), et\<lparr>et_channel := (et_channel et)\<lparr>ch_send_sequence := ch_send_sequence (et_channel et) + 1\<rparr>,
      et_tcp := (et_tcp et)\<lparr>tcp_writer := tcp_writer (et_tcp et) @
        wire_bytes (BinaryFrame (sealed C (et_channel et) inner))\<rparr>\<rparr>)"
proof -
  have n: "construct_nonce (ch_send_sequence (et_channel et)) = Inr (be_bytes 12 (nat (ch_send_sequence (et_channel et))))"
    using assms(3,4) by (intro construct_nonce_Inr small_sequence)
  have "length (sealed C (et_channel et) inner) \<le> MAX_MESSAGE_SIZE"
    using assms(1,5) by (simp add: length_sealed)
  then have "encode_binary_frame (sealed C (et_channel et) inner)
      = Inr (wire_bytes (BinaryFrame (sealed C (et_channel et) inner)))"
    by (simp add: encode_binary_frame_def wire_bytes_def encode_any_def)
  with n assms(2,4) show ?thesis
    by (simp add: send_encrypted_def encrypt_def ad_or_none_def SEQUENCE_SIZE_def sealed_def [symmetric] usable_def
        tcp_write_binary_frame_def tcp_drain_def write_binary_frame_def)
qed

lemma send_item_encrypted: "item_ok item \<Longrightarrow> send_item C et item = send_encrypted C et (inner_bytes item) []"
  by (auto simp: send_item_def item_ok_def inner_bytes_def send_message_def send_binary_def json_dumps_utf8
      split: outgoing.splits)

lemma unwrap_inner: "item_ok item \<Longrightarrow> unwrap_plaintext (inner_bytes item) = Inr (delivered item)"
  using utf8_decode_encode [OF json_dumps_utf8]
  by (auto simp: unwrap_plaintext_def inner_bytes_def delivered_def item_ok_def json_loads_dumps
      TYPE_JSON_def TYPE_BINARY_def split: outgoing.splits)

lemma receive_sealed:
  assumes "aead_ok C" "usable et" and reader: "tcp_reader (et_tcp et) = wire_bytes (BinaryFrame (sealed C ch inner)) @ rest"
    and "send_key (ch_keys ch) = recv_key (ch_keys (et_channel et))"
    and n: "0 \<le> ch_send_sequence ch" "ch_send_sequence ch < 2 ^ 64"
    and "length inner + 24 \<le> MAX_MESSAGE_SIZE"
  shows "receive_frame C et [] =
    (if ch_send_sequence ch = ch_expected_recv (et_channel et)
     then (unwrap_plaintext inner, et\<lparr>et_tcp := (et_tcp et)\<lparr>tcp_reader := rest\<rparr>,
        et_channel := (et_channel et)\<lparr>ch_expected_recv := ch_send_sequence ch + 1\<rparr>\<rparr>)
     else (Inl (ChannelError (ReplayOrReorderError (ch_expected_recv (et_channel et)) (ch_send_sequence ch))),
        et\<lparr>et_tcp := (et_tcp et)\<lparr>tcp_reader := rest\<rparr>\<rparr>))"
proof -
  let ?s = "sealed C ch inner" and ?seq = "ch_send_sequence ch"
  have "sendable (BinaryFrame ?s)"
    using assms(1,7) length_sealed [OF assms(1), of ch inner] by (auto simp: sendable_def)
  then have "read_any_frame (tcp_reader (et_tcp et)) = Inr (BinaryFrame ?s, rest)"
    unfolding reader by (rule read_any_frame_wire)
  then have read: "tcp_read_frame (et_tcp et) = (Inr (BinaryFrame ?s), (et_tcp et)\<lparr>tcp_reader := rest\<rparr>)"
    using assms(2) by (simp add: tcp_read_frame_def usable_def)
  have take: "int (be_nat (take 8 ?s)) = ?seq"
    using n by (simp add: sealed_def be_nat_be_bytes nat_less_iff)
  have drop: "drop 8 ?s = aead_encrypt C (recv_key (ch_keys (et_channel et))) (be_bytes 12 (nat ?seq)) inner None"
    by (simp add: sealed_def assms(4))
  have "decrypt C (et_channel et) ?seq (drop 8 ?s) [] =
      (if ?seq = ch_expected_recv (et_channel et)
       then Inr (inner, (et_channel et)\<lparr>ch_expected_recv := ?seq + 1\<rparr>)
       else Inl (ReplayOrReorderError (ch_expected_recv (et_channel et)) ?seq))"
  proof (cases "?seq = ch_expected_recv (et_channel et)")
    case True
    then show ?thesis
      using decrypt_encrypted [OF assms(1) n(1) small_sequence [OF n(2)], of "et_channel et" inner]
      by (simp add: drop)
  qed (simp add: decrypt_def)
  with read take show ?thesis
    by (simp add: receive_frame_def SEQUENCE_SIZE_def MIN_ENCRYPTED_PAYLOAD_LEN_def length_sealed [OF assms(1)])
qed

text \<open>
  Two ends of one direction: \<open>a\<close> seals with the key \<open>b\<close> opens with, and \<open>b\<close> expects what \<open>a\<close>
  sends next.
\<close>

definition linked_to :: "EncryptedTransport \<Rightarrow> EncryptedTransport \<Rightarrow> bool" where
  "linked_to a b \<longleftrightarrow>
     send_key (ch_keys (et_channel a)) = recv_key (ch_keys (et_channel b)) \<and>
     ch_send_sequence (et_channel a) = ch_expected_recv (et_channel b) \<and>
     0 \<le> ch_send_sequence (et_channel a)"

definition sent_stream :: "EncryptedTransport \<Rightarrow> EncryptedTransport \<Rightarrow> bytes" where
  "sent_stream a a' = drop (length (tcp_writer (et_tcp a))) (tcp_writer (et_tcp a'))"

lemma transport_stream:
  assumes "aead_ok C"
  shows "usable a \<Longrightarrow> usable b \<Longrightarrow> linked_to a b \<Longrightarrow> list_all item_ok items \<Longrightarrow>
    ch_send_sequence (et_channel a) + int (length items) \<le> 2 ^ 64 \<Longrightarrow>
    \<exists>a' w. send_items C a items = (Inr (), a') \<and> tcp_writer (et_tcp a') = tcp_writer (et_tcp a) @ w \<and>
      (\<forall>rest. tcp_reader (et_tcp b) = w @ rest \<longrightarrow>
        (\<exists>b'. receive_items C b (length items) = (Inr (map delivered items), b') \<and> linked_to a' b' \<and>
          tcp_reader (et_tcp b') = rest))"
proof (induction items arbitrary: a b)
  case Nil
  then show ?case by simp
next
  case (Cons i items)
  let ?n = "ch_send_sequence (et_channel a)" and ?w = "wire_bytes (BinaryFrame (sealed C (et_channel a) (inner_bytes i)))"
  let ?a = "a\<lparr>et_channel := (et_channel a)\<lparr>ch_send_sequence := ?n + 1\<rparr>,
      et_tcp := (et_tcp a)\<lparr>tcp_writer := tcp_writer (et_tcp a) @ ?w\<rparr>\<rparr>"
  let ?b = "\<lambda>r. b\<lparr>et_tcp := (et_tcp b)\<lparr>tcp_reader := r\<rparr>,
      et_channel := (et_channel b)\<lparr>ch_expected_recv := ?n + 1\<rparr>\<rparr>"
  have i: "item_ok i" "length (inner_bytes i) + 24 \<le> MAX_MESSAGE_SIZE" using Cons.prems(4) by (simp_all add: item_ok_def)
  have n: "0 \<le> ?n" "?n < 2 ^ 64" using Cons.prems by (simp_all add: linked_to_def)
  have send: "send_item C a i = (Inr (), ?a)"
    using send_encrypted_ok [OF assms Cons.prems(1) n i(2)] by (simp add: send_item_encrypted [OF i(1)])
  have recv: "receive_frame C b [] = (Inr (delivered i), ?b r)"
    if "tcp_reader (et_tcp b) = ?w @ r" for r
    using receive_sealed [OF assms Cons.prems(2) that _ n i(2)] Cons.prems(3)
    by (simp add: linked_to_def unwrap_inner [OF i(1)])
  have "usable ?a" using Cons.prems(1) by (simp add: usable_def is_closing_def)
  moreover have ub: "usable (?b r)" for r using Cons.prems(2) by (simp add: usable_def is_closing_def)
  moreover have "linked_to ?a (?b r)" for r using Cons.prems(3) by (simp add: linked_to_def)
  moreover have "list_all item_ok items" "ch_send_sequence (et_channel ?a) + int (length items) \<le> 2 ^ 64"
    using Cons.prems(4,5) by simp_all
  ultimately have ih: "\<exists>a' w. send_items C ?a items = (Inr (), a') \<and> tcp_writer (et_tcp a') = tcp_writer (et_tcp ?a) @ w \<and>
      (\<forall>rest. tcp_reader (et_tcp (?b r)) = w @ rest \<longrightarrow>
        (\<exists>b'. receive_items C (?b r) (length items) = (Inr (map delivered items), b') \<and> linked_to a' b' \<and>
          tcp_reader (et_tcp b') = rest))" for r
    by (intro Cons.IH)
  then obtain a' w where a': "send_items C ?a items = (Inr (), a')" "tcp_writer (et_tcp a') = tcp_writer (et_tcp ?a) @ w"
    by blast
  have "\<exists>b'. receive_items C b (Suc (length items)) = (Inr (delivered i # map delivered items), b') \<and> linked_to a' b' \<and>
          tcp_reader (et_tcp b') = rest" if "tcp_reader (et_tcp b) = (?w @ w) @ rest" for rest
  proof -
    from ih [of "w @ rest"] a' obtain b' where
      "receive_items C (?b (w @ rest)) (length items) = (Inr (map delivered items), b')" "linked_to a' b'"
      "tcp_reader (et_tcp b') = rest" by auto
    with recv [of "w @ rest"] that show ?thesis by simp
  qed
  with send a' show ?case by (intro exI [of _ a'] exI [of _ "?w @ w"]) simp
qed

text \<open>
  Claim C12. Whatever JSON objects and binary payloads are sent over an encrypted
  transport, as long as each fits in a frame, the sends succeed, and the peer that reads the
  bytes written gets exactly those objects and payloads, in order, and is ready for more.
\<close>

theorem transport_delivers:
  assumes "aead_ok C" "usable a" "usable b" "linked_to a b" "list_all item_ok items"
    and "ch_send_sequence (et_channel a) + int (length items) \<le> 2 ^ 64"
    and "send_items C a items = (r, a')" and "tcp_reader (et_tcp b) = sent_stream a a' @ rest"
  shows "r = Inr () \<and>
    (\<exists>b'. receive_items C b (length items) = (Inr (map delivered items), b') \<and> linked_to a' b' \<and>
       tcp_reader (et_tcp b') = rest)"
proof -
  from transport_stream [OF assms(1-6)] assms(7) obtain w where
    "r = Inr ()" "tcp_writer (et_tcp a') = tcp_writer (et_tcp a) @ w"
    and "\<forall>rest. tcp_reader (et_tcp b) = w @ rest \<longrightarrow>
        (\<exists>b'. receive_items C b (length items) = (Inr (map delivered items), b') \<and> linked_to a' b' \<and>
          tcp_reader (et_tcp b') = rest)" by auto
  with assms(8) show ?thesis by (simp add: sent_stream_def)
qed



section \<open>Witnesses\<close>

definition toy_tcp :: "bytes \<Rightarrow> TCPConnection" where
  "toy_tcp stream = \<lparr>tcp_reader = stream, tcp_writer = [], tcp_closed = False, tcp_writer_closing = False,
     tcp_reset = False, tcp_peername = None\<rparr>"

definition toy_transport :: "bool \<Rightarrow> bytes \<Rightarrow> EncryptedTransport" where
  "toy_transport role stream = \<lparr>et_tcp = toy_tcp stream, et_channel = toy_channel role\<rparr>"

lemma toy_usable [simp]: "usable (toy_transport role stream)"
  by (simp add: usable_def toy_transport_def toy_tcp_def is_closing_def)

lemma toy_linked [simp]: "linked_to (toy_transport True s) (toy_transport False s')"
  by (simp add: linked_to_def toy_transport_def toy_channel_def toy_keys_def Let_def)

lemma toy_item_ok [simp]: "item_ok (OutBinary [1])" "item_ok (OutJson (JObj []))"
  by (simp_all add: item_ok_def inner_bytes_def MAX_MESSAGE_SIZE_def json_dumps_def)

theorem transport_delivers_witness:
  "\<exists>a' b'. send_items toy_crypto (toy_transport True []) [OutBinary [1], OutJson (JObj [])] = (Inr (), a') \<and>
     receive_items toy_crypto (toy_transport False (sent_stream (toy_transport True []) a')) 2
       = (Inr [RecvBinary [1], RecvJson (JObj [])], b')"
proof -
  let ?a = "toy_transport True []" and ?items = "[OutBinary [1], OutJson (JObj [])]"
  obtain r a' where s: "send_items toy_crypto ?a ?items = (r, a')" by fastforce
  let ?b = "toy_transport False (sent_stream ?a a')"
  have "tcp_reader (et_tcp ?b) = sent_stream ?a a' @ []" by (simp add: toy_transport_def toy_tcp_def)
  from transport_delivers [OF toy_crypto_ok(4) toy_usable toy_usable toy_linked _ _ s this] s show ?thesis
    by (auto simp: toy_transport_def toy_channel_def delivered_def numeral_2_eq_2)
qed


end
