(* ===== verification/Session.thy ===== *)
theory Session
  imports Handshake_Agreement Transport
begin

text \<open>
  Secure sessions, \<^verbatim>\<open>core/transport/session.py\<close>: a session is established by running the
  handshake over a fresh connection and opening the encrypted transport with the keys it
  gives, and the session manager keeps one session per authenticated device. Session objects
  have identity, so the manager works on references into a heap of sessions.
\<close>

section \<open>Sessions\<close>

record SecureSession =
  ss_transport :: EncryptedTransport
  ss_handshake :: HandshakeResult
  ss_session_id :: pystr
  ss_is_initiator :: bool
  ss_created_at :: time
  ss_last_activity :: time

definition peer_device_id :: "SecureSession \<Rightarrow> pystr" where
  "peer_device_id s = hr_peer_device_id (ss_handshake s)"

definition is_alive :: "SecureSession \<Rightarrow> bool" where
  "is_alive s \<longleftrightarrow> \<not> is_closing (et_tcp (ss_transport s))"

definition session_send ::
  "'x crypto_scheme \<Rightarrow> time \<Rightarrow> SecureSession \<Rightarrow> json \<Rightarrow> (transport_error + unit) \<times> SecureSession" where
  "session_send C now s message =
     (let (r, et) = send_message C (ss_transport s) message [] in
      (r, s\<lparr>ss_last_activity := now, ss_transport := et\<rparr>))"

definition session_send_binary ::
  "'x crypto_scheme \<Rightarrow> time \<Rightarrow> SecureSession \<Rightarrow> bytes \<Rightarrow> (transport_error + unit) \<times> SecureSession" where
  "session_send_binary C now s payload =
     (let (r, et) = send_binary C (ss_transport s) payload [] in
      (r, s\<lparr>ss_last_activity := now, ss_transport := et\<rparr>))"

definition session_receive ::
  "'x crypto_scheme \<Rightarrow> time \<Rightarrow> SecureSession \<Rightarrow> (transport_error + received) \<times> SecureSession" where
  "session_receive C now s =
     (case receive_frame C (ss_transport s) [] of
        (Inl e, et) \<Rightarrow> (Inl e, s\<lparr>ss_transport := et\<rparr>)
      | (Inr x, et) \<Rightarrow> (Inr x, s\<lparr>ss_transport := et, ss_last_activity := now\<rparr>))"

definition session_close :: "SecureSession \<Rightarrow> SecureSession" where
  "session_close s = s\<lparr>ss_transport := et_close (ss_transport s)\<rparr>"

section \<open>Establishing a session\<close>

datatype session_error =
    ConnectError transport_error
  | HandshakeFailed handshake_error
  | KeyFailed kdf_error
  | ChannelFailed encryption_error

text \<open>\<^verbatim>\<open>wait_for(read_frame(reader), timeout)\<close> on the connection, and the stream it leaves.\<close>

definition await_message :: "bool \<Rightarrow> bytes \<Rightarrow> read_outcome \<times> bytes" where
  "await_message timed_out stream =
     (if timed_out then (RTimeout, stream)
      else case read_frame stream of
        Inl _ \<Rightarrow> (RFail, after_failed_read stream)
      | Inr (m, rest) \<Rightarrow> (RMsg m, rest))"

definition frames :: "json list \<Rightarrow> bytes" where
  "frames ms = concat (map (\<lambda>m. wire_bytes (JsonFrame m)) ms)"

definition open_session ::
  "'x crypto_scheme \<Rightarrow> time \<Rightarrow> bool \<Rightarrow> TCPConnection \<Rightarrow> handshake_error + HandshakeResult \<Rightarrow> session_error + SecureSession" where
  "open_session C now is_initiator tcp_conn handshake =
     (case handshake of
        Inl e \<Rightarrow> Inl (HandshakeFailed e)
      | Inr handshake_res \<Rightarrow>
          (case result_session_keys C handshake_res is_initiator of
             Inl e \<Rightarrow> Inl (KeyFailed e)
           | Inr session_keys \<Rightarrow>
               (case open_channel session_keys of
                  Inl e \<Rightarrow> Inl (ChannelFailed e)
                | Inr channel \<Rightarrow>
                    Inr \<lparr>ss_transport = \<lparr>et_tcp = tcp_conn, et_channel = channel\<rparr>,
                         ss_handshake = handshake_res, ss_session_id = session_id session_keys,
                         ss_is_initiator = is_initiator, ss_created_at = now, ss_last_activity = now\<rparr>)))"

text \<open>An exception on the way closes the connection.\<close>

definition settle ::
  "TCPConnection \<Rightarrow> session_error + SecureSession \<Rightarrow> (session_error + SecureSession) \<times> TCPConnection" where
  "settle tcp_conn r = (r, case r of Inl _ \<Rightarrow> tcp_close tcp_conn | Inr _ \<Rightarrow> tcp_conn)"

definition initiate_secure_session ::
  "'x crypto_scheme \<Rightarrow> local_party \<Rightarrow> connect_outcome \<Rightarrow> bool \<Rightarrow> hs_state
     \<Rightarrow> ((session_error + SecureSession) \<times> TCPConnection option) \<times> hs_state" where
  "initiate_secure_session C me outcome timed_out s =
     (case open_tcp_connection outcome of
        Inl e \<Rightarrow> ((Inl (ConnectError e), None), s)
      | Inr tcp_conn \<Rightarrow>
          let (reply, rest) = await_message timed_out (tcp_reader tcp_conn);
              (handshake, s') = perform_handshake_initiator C me (\<lambda>_. reply) s;
              tcp_conn = tcp_conn\<lparr>tcp_reader := rest,
                tcp_writer := tcp_writer tcp_conn @ frames (drop (length (hs_written s)) (hs_written s'))\<rparr>;
              (r, tcp_conn) = settle tcp_conn (open_session C (lp_now me) True tcp_conn handshake) in
          ((r, Some tcp_conn), s'))"

definition accept_secure_session ::
  "'x crypto_scheme \<Rightarrow> local_party \<Rightarrow> TCPConnection \<Rightarrow> bool \<Rightarrow> bool \<Rightarrow> hs_state
     \<Rightarrow> ((session_error + SecureSession) \<times> TCPConnection) \<times> hs_state" where
  "accept_secure_session C me tcp_conn first_timed_out second_timed_out s =
     (let (first, rest) = await_message first_timed_out (tcp_reader tcp_conn);
          (second, rest') = await_message second_timed_out rest;
          (handshake, s') = perform_handshake_responder C me first (\<lambda>_. second) s;
          tcp_conn = tcp_conn\<lparr>tcp_reader := rest',
            tcp_writer := tcp_writer tcp_conn @ frames (drop (length (hs_written s)) (hs_written s'))\<rparr> in
      (settle tcp_conn (open_session C (lp_now me) False tcp_conn handshake), s'))"

section \<open>The session manager\<close>

type_synonym ref = nat

text \<open>
  \<open>sm_closing\<close> lists the references whose \<^verbatim>\<open>close()\<close> has been scheduled as a task.
\<close>

record SecureSessionManager =
  sm_heap :: "(ref, SecureSession) dict"
  sm_sessions :: "(pystr, ref) dict"
  sm_closing :: "ref list"

definition ref_alive :: "SecureSessionManager \<Rightarrow> ref \<Rightarrow> bool" where
  "ref_alive m r \<longleftrightarrow> (case map_of (sm_heap m) r of None \<Rightarrow> False | Some s \<Rightarrow> is_alive s)"

definition register :: "SecureSessionManager \<Rightarrow> ref \<Rightarrow> SecureSessionManager" where
  "register m session =
     (case map_of (sm_heap m) session of
        None \<Rightarrow> m
      | Some s \<Rightarrow>
          let dev = peer_device_id s;
              m = (case map_of (sm_sessions m) dev of
                     Some old \<Rightarrow>
                       if ref_alive m old \<and> old \<noteq> session then m\<lparr>sm_closing := sm_closing m @ [old]\<rparr> else m
                   | None \<Rightarrow> m) in
          m\<lparr>sm_sessions := dict_set (sm_sessions m) dev session\<rparr>)"

definition get_session :: "SecureSessionManager \<Rightarrow> pystr \<Rightarrow> ref option \<times> SecureSessionManager" where
  "get_session m device_id =
     (case map_of (sm_sessions m) device_id of
        None \<Rightarrow> (None, m)
      | Some r \<Rightarrow>
          if \<not> ref_alive m r then (None, m\<lparr>sm_sessions := dict_pop (sm_sessions m) device_id\<rparr>) else (Some r, m))"

definition remove_session :: "SecureSessionManager \<Rightarrow> pystr \<Rightarrow> ref option \<times> SecureSessionManager" where
  "remove_session m device_id =
     (map_of (sm_sessions m) device_id, m\<lparr>sm_sessions := dict_pop (sm_sessions m) device_id\<rparr>)"

definition active_device_ids :: "SecureSessionManager \<Rightarrow> pystr list \<times> SecureSessionManager" where
  "active_device_ids m =
     (let live = filter (\<lambda>(k, r). ref_alive m r) (sm_sessions m) in
      (map fst live, m\<lparr>sm_sessions := live\<rparr>))"

definition close_ref :: "SecureSessionManager \<Rightarrow> ref \<Rightarrow> SecureSessionManager" where
  "close_ref m r =
     (case map_of (sm_heap m) r of
        None \<Rightarrow> m
      | Some s \<Rightarrow> m\<lparr>sm_heap := dict_set (sm_heap m) r (session_close s)\<rparr>)"

definition close_all :: "SecureSessionManager \<Rightarrow> SecureSessionManager" where
  "close_all m = foldl close_ref (m\<lparr>sm_sessions := []\<rparr>) (map snd (sm_sessions m))"

section \<open>Honest sessions are linked\<close>

lemma await_sendable:
  "sendable (JsonFrame m) \<Longrightarrow> await_message False (wire_bytes (JsonFrame m) @ rest) = (RMsg m, rest)"
  using read_frame_encode [of m rest]
  by (auto simp: await_message_def sendable_def wire_bytes_def encode_any_def)

lemma open_session_ok:
  assumes "hkdf_ok C" "result_session_keys C res role = Inr keys"
  shows "open_session C now role tcp (Inr res) =
    Inr \<lparr>ss_transport = \<lparr>et_tcp = tcp, et_channel = \<lparr>ch_keys = keys, ch_send_sequence = 0, ch_expected_recv = 0\<rparr>\<rparr>,
      ss_handshake = res, ss_session_id = session_id keys, ss_is_initiator = role,
      ss_created_at = now, ss_last_activity = now\<rparr>"
  using derived_key_lengths [OF assms(1), of _ _ role keys] assms(2)
  by (simp add: open_session_def open_channel_def KEY_LEN_def result_session_keys_def)

definition fresh_conn :: "bytes \<Rightarrow> (pystr \<times> int) option \<Rightarrow> TCPConnection" where
  "fresh_conn stream peername =
     \<lparr>tcp_reader = stream, tcp_writer = [], tcp_closed = False, tcp_writer_closing = False,
      tcp_reset = False, tcp_peername = peername\<rparr>"

lemma fresh_conn_sel [simp]:
  "tcp_reader (fresh_conn s p) = s" "tcp_writer (fresh_conn s p) = []"
  "\<not> tcp_closed (fresh_conn s p)" "\<not> tcp_writer_closing (fresh_conn s p)" "\<not> tcp_reset (fresh_conn s p)"
  by (simp_all add: fresh_conn_def)

lemma sessions_from_run:
  assumes hk: "hkdf_ok C"
    and snd: "list_all sendable [JsonFrame (initiator_message A), JsonFrame (rl_response l), JsonFrame finish]"
    and a: "perform_handshake_initiator C A (\<lambda>_. RMsg (rl_response l)) sa = (Inr (result_for B secret hash da), sa')"
    and wa: "hs_written sa' = hs_written sa @ [initiator_message A, finish]"
    and b: "perform_handshake_responder C B (RMsg (initiator_message A)) (\<lambda>_. RMsg finish) sb
      = (Inr (result_for A secret hash db), sb2)"
    and wb: "hs_written sb2 = hs_written sb @ [rl_response l]"
    and k: "result_session_keys C (result_for B secret hash da) True = Inr ka"
      "result_session_keys C (result_for A secret hash db) False = Inr kb"
      "send_key ka = recv_key kb" "recv_key ka = send_key kb" "session_id ka = session_id kb"
  shows "\<exists>to_a to_b sA sB ca cb sa' sb'.
    initiate_secure_session C A (Connected to_a pa) False sa = ((Inr sA, Some ca), sa') \<and>
    accept_secure_session C B (fresh_conn to_b pb) False False sb = ((Inr sB, cb), sb') \<and>
    tcp_writer (et_tcp (ss_transport sA)) = to_b \<and> tcp_writer (et_tcp (ss_transport sB)) = to_a \<and>
    tcp_reader (et_tcp (ss_transport sA)) = [] \<and> tcp_reader (et_tcp (ss_transport sB)) = [] \<and>
    usable (ss_transport sA) \<and> usable (ss_transport sB) \<and>
    linked_to (ss_transport sA) (ss_transport sB) \<and> linked_to (ss_transport sB) (ss_transport sA) \<and>
    ch_send_sequence (et_channel (ss_transport sA)) = 0 \<and> ch_send_sequence (et_channel (ss_transport sB)) = 0 \<and>
    peer_device_id sA = kp_device_id (lp_identity B) \<and> peer_device_id sB = kp_device_id (lp_identity A) \<and>
    ss_session_id sA = ss_session_id sB"
proof -
  let ?wi = "wire_bytes (JsonFrame (initiator_message A))" and ?wr = "wire_bytes (JsonFrame (rl_response l))"
    and ?wf = "wire_bytes (JsonFrame finish)"
  have ra: "await_message False ?wr = (RMsg (rl_response l), [])"
    using await_sendable [of "rl_response l" "[]"] snd by simp
  have rb: "await_message False (?wi @ ?wf) = (RMsg (initiator_message A), ?wf)" "await_message False ?wf = (RMsg finish, [])"
    using await_sendable [of "initiator_message A" ?wf] await_sendable [of finish "[]"] snd by simp_all
  define tA where "tA = (fresh_conn ?wr pa)\<lparr>tcp_reader := [], tcp_writer := ?wi @ ?wf\<rparr>"
  define tB where "tB = (fresh_conn (?wi @ ?wf) pb)\<lparr>tcp_reader := [], tcp_writer := ?wr\<rparr>"
  define sess where "sess tcp keys res role now =
    \<lparr>ss_transport = \<lparr>et_tcp = tcp, et_channel = \<lparr>ch_keys = keys, ch_send_sequence = 0, ch_expected_recv = 0\<rparr>\<rparr>,
      ss_handshake = res, ss_session_id = session_id keys, ss_is_initiator = role,
      ss_created_at = now, ss_last_activity = now\<rparr>" for tcp keys res role now
  have ia: "initiate_secure_session C A (Connected ?wr pa) False sa =
      ((Inr (sess tA ka (result_for B secret hash da) True (lp_now A)), Some tA), sa')"
    using ra a wa open_session_ok [OF hk k(1)]
    by (simp add: initiate_secure_session_def open_tcp_connection_def settle_def frames_def tA_def fresh_conn_def sess_def Let_def)
  have ib: "accept_secure_session C B (fresh_conn (?wi @ ?wf) pb) False False sb =
      ((Inr (sess tB kb (result_for A secret hash db) False (lp_now B)), tB), sb2)"
    using rb b wb open_session_ok [OF hk k(2)]
    by (simp add: accept_secure_session_def settle_def frames_def tB_def sess_def Let_def)
  show ?thesis
    by (intro exI conjI, rule ia, rule ib)
      (simp_all add: sess_def tA_def tB_def usable_def is_closing_def linked_to_def peer_device_id_def
        result_for_def k)
qed

lemma sessions_linked:
  assumes ed: "ed25519_ok C" and x: "x25519_ok C" and hk: "hkdf_ok C" and p: "party_ok C A" "party_ok C B"
    and meet: "may_meet A sa B" "may_meet B sb A"
  shows "\<exists>to_a to_b sA sB ca cb sa' sb'.
    initiate_secure_session C A (Connected to_a pa) False sa = ((Inr sA, Some ca), sa') \<and>
    accept_secure_session C B (fresh_conn to_b pb) False False sb = ((Inr sB, cb), sb') \<and>
    tcp_writer (et_tcp (ss_transport sA)) = to_b \<and> tcp_writer (et_tcp (ss_transport sB)) = to_a \<and>
    tcp_reader (et_tcp (ss_transport sA)) = [] \<and> tcp_reader (et_tcp (ss_transport sB)) = [] \<and>
    usable (ss_transport sA) \<and> usable (ss_transport sB) \<and>
    linked_to (ss_transport sA) (ss_transport sB) \<and> linked_to (ss_transport sB) (ss_transport sA) \<and>
    ch_send_sequence (et_channel (ss_transport sA)) = 0 \<and> ch_send_sequence (et_channel (ss_transport sB)) = 0 \<and>
    peer_device_id sA = kp_device_id (lp_identity B) \<and> peer_device_id sB = kp_device_id (lp_identity A) \<and>
    ss_session_id sA = ss_session_id sB"
  using honest_run [OF ed25519_ok_sizes [OF ed] genuine_ok [OF ed p] x p meet]
  by (elim exE conjE) (rule sessions_from_run [OF hk], assumption+)


definition feed :: "EncryptedTransport \<Rightarrow> bytes \<Rightarrow> EncryptedTransport" where
  "feed et stream = et\<lparr>et_tcp := (et_tcp et)\<lparr>tcp_reader := stream\<rparr>\<rparr>"


section \<open>The manager never confuses devices\<close>

datatype sm_op =
    SmCreate SecureSession
  | SmRegister ref
  | SmGet pystr
  | SmRemove pystr
  | SmActive
  | SmCloseAll
  | SmClose ref
  | SmSend ref json time
  | SmReceive ref time

definition on_session ::
  "(SecureSession \<Rightarrow> SecureSession) \<Rightarrow> SecureSessionManager \<Rightarrow> ref \<Rightarrow> SecureSessionManager" where
  "on_session f m r =
     (case map_of (sm_heap m) r of None \<Rightarrow> m | Some s \<Rightarrow> m\<lparr>sm_heap := dict_set (sm_heap m) r (f s)\<rparr>)"

text \<open>
  Everything that happens to a manager and its sessions: sessions are created and used,
  scheduled closings run, and the manager's own operations are called, in any order.
\<close>

definition sm_step :: "'x crypto_scheme \<Rightarrow> SecureSessionManager \<Rightarrow> sm_op \<Rightarrow> SecureSessionManager" where
  "sm_step C m op =
     (case op of
        SmCreate s \<Rightarrow> m\<lparr>sm_heap := sm_heap m @ [(Suc (sum_list (map fst (sm_heap m))), s)]\<rparr>
      | SmRegister r \<Rightarrow> register m r
      | SmGet d \<Rightarrow> snd (get_session m d)
      | SmRemove d \<Rightarrow> snd (remove_session m d)
      | SmActive \<Rightarrow> snd (active_device_ids m)
      | SmCloseAll \<Rightarrow> close_all m
      | SmClose r \<Rightarrow> close_ref m r
      | SmSend r message now \<Rightarrow> on_session (\<lambda>s. snd (session_send C now s message)) m r
      | SmReceive r now \<Rightarrow> on_session (\<lambda>s. snd (session_receive C now s)) m r)"

definition sm_ok :: "SecureSessionManager \<Rightarrow> bool" where
  "sm_ok m \<longleftrightarrow> dict_ok (sm_sessions m) \<and>
     (\<forall>d r. map_of (sm_sessions m) d = Some r \<longrightarrow>
        (\<exists>s. map_of (sm_heap m) r = Some s \<and> peer_device_id s = d))"


lemma sm_okD: "sm_ok m \<Longrightarrow> map_of (sm_sessions m) d = Some r \<Longrightarrow> \<exists>s. map_of (sm_heap m) r = Some s \<and> peer_device_id s = d"
  by (simp add: sm_ok_def)

lemma sm_ok_shrink:
  "sm_ok m \<Longrightarrow> dict_ok ss \<Longrightarrow> (\<And>d r. map_of ss d = Some r \<Longrightarrow> map_of (sm_sessions m) d = Some r) \<Longrightarrow>
     sm_ok (m\<lparr>sm_sessions := ss\<rparr>)"
  by (simp add: sm_ok_def)

lemma sm_ok_on_session:
  "(\<And>s. peer_device_id (f s) = peer_device_id s) \<Longrightarrow> sm_ok m \<Longrightarrow> sm_ok (on_session f m r)"
  by (auto simp: sm_ok_def on_session_def split: option.splits) (metis option.inject)

lemma close_ref_on_session: "close_ref = on_session session_close"
  by (intro ext) (simp add: close_ref_def on_session_def)

lemma session_ops_peer [simp]:
  "peer_device_id (session_close s) = peer_device_id s"
  "peer_device_id (snd (session_send C now s message)) = peer_device_id s"
  "peer_device_id (snd (session_receive C now s)) = peer_device_id s"
  by (simp_all add: peer_device_id_def session_close_def session_send_def session_receive_def split: prod.splits sum.splits)

lemma sm_ok_register: "sm_ok m \<Longrightarrow> sm_ok (register m r)"
  by (auto simp: sm_ok_def register_def Let_def split: option.splits)

lemma sm_ok_close_all: "sm_ok m \<Longrightarrow> sm_ok (close_all m)"
proof -
  have "sm_ok m \<Longrightarrow> sm_ok (foldl close_ref m rs)" for m rs
    by (induction rs arbitrary: m) (simp_all add: close_ref_on_session sm_ok_on_session)
  moreover assume "sm_ok m"
  then have "sm_ok (m\<lparr>sm_sessions := []\<rparr>)" by (simp add: sm_ok_def)
  ultimately show ?thesis by (simp add: close_all_def)
qed

lemma sm_ok_step: "sm_ok m \<Longrightarrow> sm_ok (sm_step C m op)"
proof (cases op)
  case (SmCreate s)
  assume "sm_ok m"
  then show ?thesis
    by (simp add: sm_step_def SmCreate sm_ok_def) (meson map_add_find_right)
next
  case (SmGet d)
  assume "sm_ok m"
  then show ?thesis
    by (auto simp: sm_step_def SmGet get_session_def sm_ok_def split: option.splits)
next
  case SmActive
  assume "sm_ok m"
  then show ?thesis
    by (auto simp: sm_step_def SmActive active_device_ids_def Let_def sm_ok_def map_of_filter_dict split: option.splits if_splits)
next
  case (SmRemove d)
  assume "sm_ok m"
  then show ?thesis
    by (auto simp: sm_step_def SmRemove remove_session_def sm_ok_def)
qed (simp_all add: sm_step_def sm_ok_register sm_ok_close_all close_ref_on_session sm_ok_on_session)

interpretation session_table: step_system "sm_step C" sm_ok
  by unfold_locales (rule sm_ok_step)

text \<open>
  Claim C24. However sessions come and go, a session the manager hands out for
  a device identifier is alive, and its authenticated peer is that device.
\<close>

theorem manager_binds_identity:
  assumes "get_session (foldl (sm_step C) \<lparr>sm_heap = [], sm_sessions = [], sm_closing = []\<rparr> ops) d = (Some r, m')"
  shows "\<exists>s. map_of (sm_heap m') r = Some s \<and> is_alive s \<and> peer_device_id s = d"
proof -
  let ?m = "foldl (sm_step C) \<lparr>sm_heap = [], sm_sessions = [], sm_closing = []\<rparr> ops"
  have "sm_ok ?m" by (rule session_table.run_stays) (simp add: sm_ok_def)
  moreover from assms have "map_of (sm_sessions ?m) d = Some r" "ref_alive ?m r" "m' = ?m"
    by (auto simp: get_session_def split: option.splits if_splits)
  ultimately show ?thesis
    using sm_okD [of ?m d r] by (auto simp: ref_alive_def split: option.splits)
qed


section \<open>Witnesses\<close>


definition toy_session :: SecureSession where
  "toy_session = \<lparr>ss_transport = toy_transport True [], ss_handshake = result_for (toy_party 1) [] [] D_TRUSTED,
     ss_session_id = [], ss_is_initiator = True, ss_created_at = 0, ss_last_activity = 0\<rparr>"

theorem manager_binds_identity_witness:
  "\<exists>m'. get_session (foldl (sm_step toy_crypto) \<lparr>sm_heap = [], sm_sessions = [], sm_closing = []\<rparr>
      [SmCreate toy_session, SmRegister 1]) (peer_device_id toy_session) = (Some 1, m') \<and>
    (\<exists>s. map_of (sm_heap m') 1 = Some s \<and> is_alive s \<and> peer_device_id s = peer_device_id toy_session)"
proof -
  have "is_alive toy_session"
    by (simp add: is_alive_def toy_session_def toy_transport_def toy_tcp_def is_closing_def)
  then have "get_session (foldl (sm_step toy_crypto) \<lparr>sm_heap = [], sm_sessions = [], sm_closing = []\<rparr>
      [SmCreate toy_session, SmRegister 1]) (peer_device_id toy_session)
    = (Some 1, \<lparr>sm_heap = [(1, toy_session)], sm_sessions = [(peer_device_id toy_session, 1)], sm_closing = []\<rparr>)"
    by (simp add: get_session_def sm_step_def register_def ref_alive_def)
  from manager_binds_identity [OF this] this show ?thesis by blast
qed

end
