(* ===== verification/Event_Bus.thy ===== *)
theory Event_Bus
  imports Security_Events
begin

text \<open>
  The event bus of \<^verbatim>\<open>core/events.py\<close>. Handlers are opaque values with a decidable equality;
  what a handler does when it is called (return, raise, or hand back a coroutine that returns
  or raises when awaited) is an argument. The result of publishing is the list of calls made,
  in order, with what came of each.
\<close>

section \<open>Events\<close>

datatype event_class =
    C_Event | C_ChatReceived | C_ChatMessageStatusChanged | C_FileOffered | C_FileProgress
  | C_TransferCompleted | C_PeerConnected | C_PeerDisconnected | C_TrustRequired
  | C_SecurityWarning | C_NetworkMessageReceived

datatype event_body =
    ChatReceived pystr pystr pystr pystr pystr json
  | ChatMessageStatusChanged pystr pystr pystr
  | FileOffered pystr pystr pystr int pystr pystr pystr
  | FileProgress pystr int int bool
  | TransferCompleted pystr bool "pystr option" "pystr option"
  | PeerConnected pystr "pystr option" bool
  | PeerDisconnected pystr "pystr option" "pystr option"
  | TrustRequired pystr pystr pystr "pystr option" pystr
  | SecurityWarning pystr pystr json "pystr option"
  | NetworkMessageReceived pystr json pystr
  | PlainEvent

record event =
  evt_timestamp :: double
  evt_body :: event_body

fun body_class :: "event_body \<Rightarrow> event_class" where
  "body_class (ChatReceived _ _ _ _ _ _) = C_ChatReceived"
| "body_class (ChatMessageStatusChanged _ _ _) = C_ChatMessageStatusChanged"
| "body_class (FileOffered _ _ _ _ _ _ _) = C_FileOffered"
| "body_class (FileProgress _ _ _ _) = C_FileProgress"
| "body_class (TransferCompleted _ _ _ _) = C_TransferCompleted"
| "body_class (PeerConnected _ _ _) = C_PeerConnected"
| "body_class (PeerDisconnected _ _ _) = C_PeerDisconnected"
| "body_class (TrustRequired _ _ _ _ _) = C_TrustRequired"
| "body_class (SecurityWarning _ _ _ _) = C_SecurityWarning"
| "body_class (NetworkMessageReceived _ _ _) = C_NetworkMessageReceived"
| "body_class PlainEvent = C_Event"

definition event_class_of :: "event \<Rightarrow> event_class" where
  "event_class_of e = body_class (evt_body e)"

text \<open>Every event class derives directly from \<^verbatim>\<open>Event\<close>.\<close>

definition issubclass :: "event_class \<Rightarrow> event_class \<Rightarrow> bool" where
  "issubclass c d \<longleftrightarrow> c = d \<or> d = C_Event"

section \<open>The bus\<close>

record 'h EventBus =
  eb_subscribers :: "(event_class, 'h list) dict"
  eb_wildcard :: "'h list"

definition new_bus :: "'h EventBus" where
  "new_bus = \<lparr>eb_subscribers = [], eb_wildcard = []\<rparr>"

definition subscribe :: "'h EventBus \<Rightarrow> event_class \<Rightarrow> 'h \<Rightarrow> 'h EventBus" where
  "subscribe bus event_type handler =
     (let handlers = (case map_of (eb_subscribers bus) event_type of Some hs \<Rightarrow> hs | None \<Rightarrow> []) in
      bus\<lparr>eb_subscribers := dict_set (eb_subscribers bus) event_type
        (if handler \<in> set handlers then handlers else handlers @ [handler])\<rparr>)"

definition unsubscribe :: "'h EventBus \<Rightarrow> event_class \<Rightarrow> 'h \<Rightarrow> bool \<times> 'h EventBus" where
  "unsubscribe bus event_type handler =
     (case map_of (eb_subscribers bus) event_type of
        None \<Rightarrow> (False, bus)
      | Some handlers \<Rightarrow>
          if handler \<in> set handlers
          then let handlers = remove1 handler handlers in
            (True, bus\<lparr>eb_subscribers :=
               if handlers = [] then dict_pop (eb_subscribers bus) event_type
               else dict_set (eb_subscribers bus) event_type handlers\<rparr>)
          else (False, bus))"

definition subscribe_all :: "'h EventBus \<Rightarrow> 'h \<Rightarrow> 'h EventBus" where
  "subscribe_all bus handler =
     (if handler \<in> set (eb_wildcard bus) then bus
      else bus\<lparr>eb_wildcard := eb_wildcard bus @ [handler]\<rparr>)"

definition unsubscribe_all :: "'h EventBus \<Rightarrow> 'h \<Rightarrow> bool \<times> 'h EventBus" where
  "unsubscribe_all bus handler =
     (if handler \<in> set (eb_wildcard bus)
      then (True, bus\<lparr>eb_wildcard := remove1 handler (eb_wildcard bus)\<rparr>)
      else (False, bus))"

definition clear_bus :: "'h EventBus \<Rightarrow> 'h EventBus" where
  "clear_bus bus = bus\<lparr>eb_subscribers := [], eb_wildcard := []\<rparr>"

definition add_unseen :: "'h list \<Rightarrow> 'h list \<Rightarrow> 'h list" where
  "add_unseen matched handlers = foldl (\<lambda>m h. if h \<in> set m then m else m @ [h]) matched handlers"

definition collect_handlers :: "'h EventBus \<Rightarrow> event \<Rightarrow> 'h list" where
  "collect_handlers bus event =
     (let matched = foldl (\<lambda>m (registered_type, handlers).
            if issubclass (event_class_of event) registered_type then add_unseen m handlers else m)
          [] (eb_subscribers bus) in
      add_unseen matched (eb_wildcard bus))"

text \<open>What calling a handler does; a coroutine is awaited by \<^verbatim>\<open>publish\<close>.\<close>

datatype handler_result = Returns | Raises | CoroutineReturns | CoroutineRaises

datatype call_outcome = Completed | LoggedError | LoggedWarning

definition publish_one :: "handler_result \<Rightarrow> call_outcome" where
  "publish_one r =
     (case r of Returns \<Rightarrow> Completed | CoroutineReturns \<Rightarrow> Completed
      | Raises \<Rightarrow> LoggedError | CoroutineRaises \<Rightarrow> LoggedError)"

fun publish_loop :: "('h \<Rightarrow> event \<Rightarrow> handler_result) \<Rightarrow> event \<Rightarrow> 'h list \<Rightarrow> ('h \<times> call_outcome) list" where
  "publish_loop act event [] = []"
| "publish_loop act event (handler # handlers) =
     (handler, publish_one (act handler event)) # publish_loop act event handlers"

definition publish :: "('h \<Rightarrow> event \<Rightarrow> handler_result) \<Rightarrow> 'h EventBus \<Rightarrow> event \<Rightarrow> ('h \<times> call_outcome) list" where
  "publish act bus event = publish_loop act event (collect_handlers bus event)"

text \<open>Without a running loop a coroutine is never awaited.\<close>

definition post_one :: "handler_result \<Rightarrow> call_outcome" where
  "post_one r =
     (case r of Returns \<Rightarrow> Completed | Raises \<Rightarrow> LoggedError
      | CoroutineReturns \<Rightarrow> LoggedWarning | CoroutineRaises \<Rightarrow> LoggedWarning)"

datatype 'h posted = Scheduled event | Ran "('h \<times> call_outcome) list"

definition post :: "bool \<Rightarrow> ('h \<Rightarrow> event \<Rightarrow> handler_result) \<Rightarrow> 'h EventBus \<Rightarrow> event \<Rightarrow> 'h posted" where
  "post loop_running act bus event =
     (if loop_running then Scheduled event
      else Ran (map (\<lambda>h. (h, post_one (act h event))) (collect_handlers bus event)))"

section \<open>The bridge from security events\<close>

definition security_warning :: "SecurityEvent \<Rightarrow> event" where
  "security_warning sec_evt =
     \<lparr>evt_timestamp = ev_timestamp sec_evt,
      evt_body = SecurityWarning (ev_type sec_evt) (severity_value (ev_severity sec_evt))
        (ev_details sec_evt) (ev_device_id sec_evt)\<rparr>"

definition on_security_event :: "SecuritySeverity \<Rightarrow> SecurityEvent \<Rightarrow> event option" where
  "on_security_event target_sev sec_evt =
     (if target_sev \<le> ev_severity sec_evt then Some (security_warning sec_evt) else None)"

text \<open>
  \<open>hook\<close> is the listener the bridge registers with the security events; \<open>None\<close> is the
  \<^verbatim>\<open>ValueError\<close> of a name that is no severity. The list of listeners is shared by the whole program.
\<close>

definition severity_named :: "pystr \<Rightarrow> SecuritySeverity option" where
  "severity_named name = List.find (\<lambda>s. severity_value s = name) [INFO, WARNING, HIGH, CRITICAL]"

definition bridge_security_events :: "'l list \<Rightarrow> 'l \<Rightarrow> pystr \<Rightarrow> ('l list \<times> SecuritySeverity) option" where
  "bridge_security_events listeners hook min_severity_name =
     map_option (\<lambda>target_sev. (add_listener listeners hook, target_sev)) (severity_named min_severity_name)"

definition unhook :: "'l list \<Rightarrow> 'l \<Rightarrow> 'l list" where
  "unhook listeners hook = remove_listener listeners hook"

text \<open>What \<^verbatim>\<open>emit\<close> posts to the bus through the hook.\<close>

definition emit_bridged ::
    "('l \<Rightarrow> SecurityEvent \<Rightarrow> bool) \<Rightarrow> 'l list \<Rightarrow> 'l \<Rightarrow> SecuritySeverity \<Rightarrow> (event \<Rightarrow> 'h posted) \<Rightarrow> SecurityEvent \<Rightarrow> 'h posted list" where
  "emit_bridged raises listeners hook target_sev post_to_bus sec_evt =
     concat (map (\<lambda>x. case x of
         Called l e \<Rightarrow>
           if l = hook then (case on_security_event target_sev e of None \<Rightarrow> [] | Some w \<Rightarrow> [post_to_bus w]) else []
       | _ \<Rightarrow> []) (emit raises listeners sec_evt))"

section \<open>Capturing events\<close>

text \<open>
  What the code inside a \<^verbatim>\<open>capture\<close> block does with the bus. The collector is a handler like the
  others: it keeps an event it is called with if the event is of one of the classes asked for, or
  if none were.
\<close>

datatype 'h bus_op =
    Subscribe event_class 'h
  | Unsubscribe event_class 'h
  | SubscribeAll 'h
  | UnsubscribeAll 'h
  | ClearBus
  | Publish event

fun run_bus_op :: "'h EventBus \<Rightarrow> 'h bus_op \<Rightarrow> 'h EventBus" where
  "run_bus_op bus (Subscribe c h) = subscribe bus c h"
| "run_bus_op bus (Unsubscribe c h) = snd (unsubscribe bus c h)"
| "run_bus_op bus (SubscribeAll h) = subscribe_all bus h"
| "run_bus_op bus (UnsubscribeAll h) = snd (unsubscribe_all bus h)"
| "run_bus_op bus ClearBus = clear_bus bus"
| "run_bus_op bus (Publish e) = bus"

definition collects :: "event_class list \<Rightarrow> event \<Rightarrow> bool" where
  "collects event_types e \<longleftrightarrow> event_types = [] \<or> list_ex (issubclass (event_class_of e)) event_types"

fun capture_block :: "'h \<Rightarrow> event_class list \<Rightarrow> 'h EventBus \<Rightarrow> 'h bus_op list \<Rightarrow> event list \<times> 'h EventBus" where
  "capture_block collector event_types bus [] = ([], bus)"
| "capture_block collector event_types bus (op # ops) =
     (let got = (case op of
            Publish e \<Rightarrow> if collector \<in> set (collect_handlers bus e) \<and> collects event_types e then [e] else []
          | _ \<Rightarrow> []);
        (captured, bus') = capture_block collector event_types (run_bus_op bus op) ops in
      (got @ captured, bus'))"

definition capture :: "'h EventBus \<Rightarrow> 'h \<Rightarrow> event_class list \<Rightarrow> 'h bus_op list \<Rightarrow> event list \<times> 'h EventBus" where
  "capture bus collector event_types block =
     (let (captured, bus') = capture_block collector event_types (subscribe_all bus collector) block in
      (captured, snd (unsubscribe_all bus' collector)))"


section \<open>Who is called\<close>

lemma add_unseen_spec:
  "distinct m \<Longrightarrow> distinct (add_unseen m hs) \<and> set (add_unseen m hs) = set m \<union> set hs"
  unfolding add_unseen_def by (induction hs arbitrary: m) auto

lemma collect_handlers_spec:
  "distinct (collect_handlers bus e) \<and>
   set (collect_handlers bus e) =
     {h. (\<exists>c hs. (c, hs) \<in> set (eb_subscribers bus) \<and> issubclass (event_class_of e) c \<and> h \<in> set hs)
       \<or> h \<in> set (eb_wildcard bus)}"
proof -
  let ?f = "\<lambda>m (c, hs). if issubclass (event_class_of e) c then add_unseen m hs else m"
  have "distinct m \<Longrightarrow> distinct (foldl ?f m subs) \<and> set (foldl ?f m subs) =
      set m \<union> {h. \<exists>c hs. (c, hs) \<in> set subs \<and> issubclass (event_class_of e) c \<and> h \<in> set hs}" for m subs
  proof (induction subs arbitrary: m)
    case (Cons s subs)
    obtain c hs where s: "s = (c, hs)" by fastforce
    show ?case
      using Cons.IH [of "?f m s"] Cons.prems add_unseen_spec [OF Cons.prems, of hs] by (auto simp: s)
  qed simp
  from this [of "[]" "eb_subscribers bus"] show ?thesis
    using add_unseen_spec [of "foldl ?f [] (eb_subscribers bus)" "eb_wildcard bus"]
    by (auto simp: collect_handlers_def Let_def)
qed

lemma publish_handlers: "map fst (publish act bus e) = collect_handlers bus e"
proof -
  have "map fst (publish_loop act e hs) = hs" for hs by (induction hs) simp_all
  then show ?thesis by (simp add: publish_def)
qed

text \<open>
  Publishing an event calls every handler subscribed to the event's
  class, to a base class of it or to everything, and no other, exactly once each, also when
  handlers raise.
\<close>

theorem publish_calls_each_once:
  "distinct (map fst (publish act bus e)) \<and>
   set (map fst (publish act bus e)) =
     {h. (\<exists>c hs. (c, hs) \<in> set (eb_subscribers bus) \<and> issubclass (event_class_of e) c \<and> h \<in> set hs)
       \<or> h \<in> set (eb_wildcard bus)}"
  using collect_handlers_spec [of bus e] by (simp only: publish_handlers)

text \<open>The bus keeps its tables free of duplicates, and a subscription is undone exactly.\<close>

definition bus_ok :: "'h EventBus \<Rightarrow> bool" where
  "bus_ok bus \<longleftrightarrow> dict_ok (eb_subscribers bus) \<and> distinct (eb_wildcard bus) \<and>
     (\<forall>c hs. map_of (eb_subscribers bus) c = Some hs \<longrightarrow> hs \<noteq> [] \<and> distinct hs)"

lemma bus_ok_subscribe: "bus_ok bus \<Longrightarrow> bus_ok (subscribe bus c h)"
  by (auto simp: bus_ok_def subscribe_def Let_def split: option.splits if_splits)

lemma bus_ok_unsubscribe: "bus_ok bus \<Longrightarrow> bus_ok (snd (unsubscribe bus c h))"
  by (auto simp: bus_ok_def unsubscribe_def Let_def split: option.splits if_splits)

lemma bus_ok_wildcard: "bus_ok bus \<Longrightarrow> bus_ok (subscribe_all bus h)" "bus_ok bus \<Longrightarrow> bus_ok (snd (unsubscribe_all bus h))"
  by (auto simp: bus_ok_def subscribe_all_def unsubscribe_all_def)

lemma unsubscribe_subscribe:
  assumes "bus_ok bus" "\<forall>hs. map_of (eb_subscribers bus) c = Some hs \<longrightarrow> h \<notin> set hs"
  shows "fst (unsubscribe (subscribe bus c h) c h)"
    and "map_of (eb_subscribers (snd (unsubscribe (subscribe bus c h) c h))) = map_of (eb_subscribers bus)"
  using assms
  by (auto simp: subscribe_def unsubscribe_def Let_def bus_ok_def remove1_append fun_eq_iff split: option.splits if_splits)

lemma emit_calls_hook:
  "emit_bridged raises ls hook target_sev post_to_bus e =
     concat (map (\<lambda>l. if l = hook then map post_to_bus (case on_security_event target_sev e of None \<Rightarrow> [] | Some w \<Rightarrow> [w]) else []) ls)"
  by (induction ls) (auto simp: emit_bridged_def emit_def split: option.splits)



text \<open>
  A capture that is not interfered with sees every event published in the block that is of a class asked
  for, in order.
\<close>

definition leaves_alone :: "'h \<Rightarrow> 'h bus_op \<Rightarrow> bool" where
  "leaves_alone h op \<longleftrightarrow> op \<noteq> ClearBus \<and> op \<noteq> UnsubscribeAll h"

fun published :: "'h bus_op \<Rightarrow> event list" where
  "published (Publish e) = [e]"
| "published _ = []"

lemma run_bus_op_wildcard:
  "h \<in> set (eb_wildcard bus) \<Longrightarrow> leaves_alone h op \<Longrightarrow> h \<in> set (eb_wildcard (run_bus_op bus op))"
  by (cases op) (auto simp: leaves_alone_def subscribe_def unsubscribe_def subscribe_all_def unsubscribe_all_def Let_def
      split: option.splits)

lemma capture_block_exact:
  assumes "h \<in> set (eb_wildcard bus)" "list_all (leaves_alone h) ops"
  shows "fst (capture_block h types bus ops) = filter (collects types) (concat (map published ops))"
  using assms
proof (induction ops arbitrary: bus)
  case (Cons op ops)
  then have "fst (capture_block h types (run_bus_op bus op) ops) = filter (collects types) (concat (map published ops))"
    using run_bus_op_wildcard [of h bus op] by simp
  then show ?case
    using Cons.prems collect_handlers_spec [of bus] by (cases op) (auto simp: Let_def case_prod_beta)
qed simp

lemma capture_exact:
  assumes "list_all (leaves_alone h) ops"
  shows "fst (capture bus h types ops) = filter (collects types) (concat (map published ops))"
  using capture_block_exact [of h "subscribe_all bus h"] assms
  by (simp add: capture_def case_prod_beta subscribe_all_def)

end
