(* ===== verification/Peer.thy ===== *)
theory Peer
  imports Messages Event_Bus
begin

text \<open>
  The connection manager of \<^verbatim>\<open>peer.py\<close>. A connection object has an identity; the table maps the
  text address of the remote end to it. \<^verbatim>\<open>connect_to\<close> is split at its \<^verbatim>\<open>await\<close>, so that other
  calls can come between the check of the limit and the new entry. Published bus events are
  recorded in order.
\<close>

definition MAX_CONNECTIONS :: nat where
  "MAX_CONNECTIONS = 64"

record Connection =
  cn_addr_key :: pystr
  cn_written :: bytes
  cn_closed :: bool
  cn_broken :: bool

record ConnectionManager =
  cm_max :: nat
  cm_connections :: "(pystr, nat) dict"
  cm_objects :: "nat \<Rightarrow> Connection"
  cm_next :: nat
  cm_connecting :: "pystr list"
  cm_server :: bool
  cm_published :: "event_body list"

definition new_manager :: "nat \<Rightarrow> ConnectionManager" where
  "new_manager max_connections =
     \<lparr>cm_max = max_connections, cm_connections = [],
      cm_objects = (\<lambda>_. \<lparr>cn_addr_key = [], cn_written = [], cn_closed = True, cn_broken = False\<rparr>),
      cm_next = 0, cm_connecting = [], cm_server = False, cm_published = []\<rparr>"

definition start_server :: "ConnectionManager \<Rightarrow> ConnectionManager" where
  "start_server m = m\<lparr>cm_server := True\<rparr>"

definition add_connection :: "ConnectionManager \<Rightarrow> pystr \<Rightarrow> bool \<Rightarrow> ConnectionManager" where
  "add_connection m addr_key incoming =
     m\<lparr>cm_connections := dict_set (cm_connections m) addr_key (cm_next m),
       cm_objects := (cm_objects m)(cm_next m :=
         \<lparr>cn_addr_key = addr_key, cn_written = [], cn_closed = False, cn_broken = False\<rparr>),
       cm_next := Suc (cm_next m),
       cm_published := cm_published m @ [PeerConnected addr_key None incoming]\<rparr>"

definition handle_incoming :: "ConnectionManager \<Rightarrow> pystr \<Rightarrow> ConnectionManager" where
  "handle_incoming m addr_key =
     (if length (cm_connections m) \<ge> cm_max m then m else add_connection m addr_key True)"

datatype connect_result = AlreadyConnected | LimitReached | Connecting

definition connect_to :: "ConnectionManager \<Rightarrow> pystr \<Rightarrow> connect_result \<times> ConnectionManager" where
  "connect_to m addr_key =
     (if map_of (cm_connections m) addr_key \<noteq> None then (AlreadyConnected, m)
      else if length (cm_connections m) \<ge> cm_max m then (LimitReached, m)
      else (Connecting, m\<lparr>cm_connecting := cm_connecting m @ [addr_key]\<rparr>))"

definition connect_done :: "ConnectionManager \<Rightarrow> pystr \<Rightarrow> bool \<Rightarrow> ConnectionManager" where
  "connect_done m addr_key opened =
     (if addr_key \<notin> set (cm_connecting m) then m
      else let m = m\<lparr>cm_connecting := remove1 addr_key (cm_connecting m)\<rparr> in
        if opened then add_connection m addr_key False else m)"

section \<open>The read loop\<close>

datatype dispatch = DispatchJson json | DispatchFile file_data

datatype loop_end = PeerDisconnect | MalformedFrame | EscapedError

lemma read_any_frame_shorter: "read_any_frame bs = Inr (f, rest) \<Longrightarrow> length rest < length bs"
  by (auto simp: read_any_frame_def read_raw_def readexactly_def res_simps Let_def LENGTH_PREFIX_SIZE_def
      split: if_splits)

text \<open>What the loop hands to the bus and to \<^verbatim>\<open>on_message\<close>, until the stream ends or a frame is refused.\<close>

function read_loop :: "bytes \<Rightarrow> dispatch list \<times> loop_end" where
  "read_loop reader =
     (case read_any_frame reader of
        Inl IncompleteReadError \<Rightarrow> ([], PeerDisconnect)
      | Inl (ProtocolError _) \<Rightarrow> ([], MalformedFrame)
      | Inl _ \<Rightarrow> ([], EscapedError)
      | Inr (JsonFrame payload, rest) \<Rightarrow>
          (case validate_message payload of
             Inl (KeyError _) \<Rightarrow> ([], EscapedError)
           | Inl _ \<Rightarrow> ([], MalformedFrame)
           | Inr _ \<Rightarrow> let (ds, e) = read_loop rest in (DispatchJson payload # ds, e))
      | Inr (BinaryFrame payload, rest) \<Rightarrow>
          (case decode_file_data payload of
             Inl _ \<Rightarrow> ([], MalformedFrame)
           | Inr decoded \<Rightarrow> let (ds, e) = read_loop rest in (DispatchFile decoded # ds, e)))"
  by pat_completeness auto
termination by (relation "measure length") (auto dest: read_any_frame_shorter)

declare read_loop.simps [simp del]

text \<open>The \<^verbatim>\<open>finally\<close> clause: whatever is stored under the address is dropped.\<close>

definition read_loop_exit :: "ConnectionManager \<Rightarrow> nat \<Rightarrow> ConnectionManager" where
  "read_loop_exit m conn =
     (let addr_key = cn_addr_key (cm_objects m conn) in
      m\<lparr>cm_connections := dict_pop (cm_connections m) addr_key,
        cm_objects := (cm_objects m)(conn := (cm_objects m conn)\<lparr>cn_closed := True\<rparr>),
        cm_published := cm_published m @ [PeerDisconnected addr_key None None]\<rparr>)"

section \<open>Sending\<close>

datatype send_result = Sent | NotConnected | SendRaises frame_error

definition send_bytes :: "ConnectionManager \<Rightarrow> pystr \<Rightarrow> (bytes \<Rightarrow> frame_error + bytes) \<Rightarrow> send_result \<times> ConnectionManager" where
  "send_bytes m addr_key write =
     (case map_of (cm_connections m) addr_key of
        None \<Rightarrow> (NotConnected, m)
      | Some conn \<Rightarrow>
          (case write (cn_written (cm_objects m conn)) of
             Inl e \<Rightarrow> (SendRaises e, m)
           | Inr w \<Rightarrow>
               let m = m\<lparr>cm_objects := (cm_objects m)(conn := (cm_objects m conn)\<lparr>cn_written := w\<rparr>)\<rparr> in
               if cn_broken (cm_objects m conn)
               then (NotConnected, m\<lparr>cm_connections := dict_pop (cm_connections m) addr_key\<rparr>)
               else (Sent, m)))"

definition manager_send :: "ConnectionManager \<Rightarrow> pystr \<Rightarrow> json \<Rightarrow> send_result \<times> ConnectionManager" where
  "manager_send m addr_key message = send_bytes m addr_key (\<lambda>w. write_frame w message)"

definition manager_send_binary :: "ConnectionManager \<Rightarrow> pystr \<Rightarrow> bytes \<Rightarrow> send_result \<times> ConnectionManager" where
  "manager_send_binary m addr_key payload = send_bytes m addr_key (\<lambda>w. write_binary_frame w payload)"

definition is_connected :: "ConnectionManager \<Rightarrow> pystr \<Rightarrow> bool" where
  "is_connected m addr_key \<longleftrightarrow> map_of (cm_connections m) addr_key \<noteq> None"

definition close_connections :: "ConnectionManager \<Rightarrow> ConnectionManager" where
  "close_connections m =
     m\<lparr>cm_objects := (\<lambda>i. if i \<in> snd ` set (cm_connections m)
           then (cm_objects m i)\<lparr>cn_closed := True\<rparr> else cm_objects m i),
       cm_connections := [], cm_server := False\<rparr>"


section \<open>What the read loop delivers\<close>

definition dispatch_of :: "any_frame \<Rightarrow> dispatch option" where
  "dispatch_of f =
     (case f of
        JsonFrame m \<Rightarrow> if conforms m then Some (DispatchJson m) else None
      | BinaryFrame p \<Rightarrow> (case decode_file_data p of Inl _ \<Rightarrow> None | Inr d \<Rightarrow> Some (DispatchFile d)))"

lemma read_loop_frame:
  assumes "sendable f" "dispatch_of f = Some d"
  shows "read_loop (wire_bytes f @ rest) = (d # fst (read_loop rest), snd (read_loop rest))"
proof -
  have "read_any_frame (wire_bytes f @ rest) = Inr (f, rest)" using assms(1) by (rule read_any_frame_wire)
  moreover have "validate_message m = Inr m" if "conforms m" for m using that by (simp add: validate_iff_schema)
  ultimately show ?thesis
    using assms(2)
    by (subst read_loop.simps)
      (auto simp: dispatch_of_def split_def Let_def split: any_frame.splits if_splits sum.splits)
qed

lemma read_loop_Nil: "read_loop [] = ([], PeerDisconnect)"
  by (subst read_loop.simps) (simp add: read_any_frame_def read_raw_def readexactly_def LENGTH_PREFIX_SIZE_def)

lemma read_loop_conforms: "DispatchJson m \<in> set (fst (read_loop bs)) \<Longrightarrow> conforms m"
proof (induction bs rule: read_loop.induct)
  case (1 reader)
  have "validate_message p = Inr q \<Longrightarrow> conforms p" for p q by (simp add: validate_iff_schema)
  with 1 show ?case
    by (subst (asm) (3) read_loop.simps)
      (auto simp: split_def Let_def split: sum.splits frame_error.splits prod.splits any_frame.splits message_error.splits)
qed

text \<open>
  The read loop ends on every stream of bytes; it hands on only JSON
  messages of the schema; and the valid messages and file chunks that a peer frames and
  writes one after the other are handed on exactly, in order, before the end of the stream.
\<close>

theorem read_loop_delivers:
  assumes "list_all (\<lambda>(f, d). sendable f \<and> dispatch_of f = Some d) fs"
  shows "read_loop (concat (map (wire_bytes \<circ> fst) fs) @ rest) =
      (map snd fs @ fst (read_loop rest), snd (read_loop rest)) \<and>
    read_loop [] = ([], PeerDisconnect) \<and>
    (\<forall>bs m. DispatchJson m \<in> set (fst (read_loop bs)) \<longrightarrow> conforms m)"
proof -
  have "read_loop (concat (map (wire_bytes \<circ> fst) fs) @ rest) =
      (map snd fs @ fst (read_loop rest), snd (read_loop rest))"
    using assms by (induction fs) (auto simp: read_loop_frame)
  then show ?thesis using read_loop_Nil read_loop_conforms by blast
qed

section \<open>The limit on connections\<close>

datatype peer_op =
    Incoming pystr
  | ConnectTo pystr
  | ConnectDone pystr bool
  | LoopExit nat
  | SendOp pystr json
  | CloseAll

definition peer_step :: "ConnectionManager \<Rightarrow> peer_op \<Rightarrow> ConnectionManager" where
  "peer_step m op =
     (case op of
        Incoming a \<Rightarrow> handle_incoming m a
      | ConnectTo a \<Rightarrow> snd (connect_to m a)
      | ConnectDone a opened \<Rightarrow> connect_done m a opened
      | LoopExit c \<Rightarrow> read_loop_exit m c
      | SendOp a message \<Rightarrow> snd (manager_send m a message)
      | CloseAll \<Rightarrow> close_connections m)"

text \<open>
  The connections that are open or being opened. An attempt reserves a place only if no other
  connection is made before it completes.
\<close>

definition attempts_ok :: "ConnectionManager \<Rightarrow> peer_op \<Rightarrow> bool" where
  "attempts_ok m op \<longleftrightarrow>
     (case op of Incoming _ \<Rightarrow> cm_connecting m = [] | ConnectTo _ \<Rightarrow> cm_connecting m = [] | _ \<Rightarrow> True)"

fun unhurried :: "ConnectionManager \<Rightarrow> peer_op list \<Rightarrow> bool" where
  "unhurried m [] = True"
| "unhurried m (op # ops) = (attempts_ok m op \<and> unhurried (peer_step m op) ops)"

definition within_limit :: "ConnectionManager \<Rightarrow> bool" where
  "within_limit m \<longleftrightarrow> length (cm_connections m) + length (cm_connecting m) \<le> cm_max m"

lemma length_dict_set_le: "length (dict_set d k v) \<le> Suc (length d)"
  by (induction d k v rule: dict_set.induct) auto

lemma Suc_length_remove1: "x \<in> set xs \<Longrightarrow> Suc (length (remove1 x xs)) = length xs"
  by (induction xs) auto

lemma send_bytes_keeps:
  "length (cm_connections (snd (send_bytes m a w))) \<le> length (cm_connections m) \<and>
   cm_connecting (snd (send_bytes m a w)) = cm_connecting m \<and> cm_max (snd (send_bytes m a w)) = cm_max m"
  by (auto simp: send_bytes_def Let_def length_dict_pop_le split: option.splits sum.splits)

lemma within_limit_step: "within_limit m \<Longrightarrow> attempts_ok m op \<Longrightarrow> within_limit (peer_step m op)"
proof (cases op)
  case (Incoming a)
  assume "within_limit m" "attempts_ok m op"
  then show ?thesis using length_dict_set_le [of "cm_connections m" a "cm_next m"]
    by (auto simp: Incoming peer_step_def handle_incoming_def add_connection_def within_limit_def attempts_ok_def)
next
  case (ConnectTo a)
  assume "within_limit m" "attempts_ok m op"
  then show ?thesis
    by (auto simp: ConnectTo peer_step_def connect_to_def within_limit_def attempts_ok_def)
next
  case (ConnectDone a opened)
  assume "within_limit m"
  then show ?thesis
    using length_dict_set_le [of "cm_connections m" a "cm_next m"] Suc_length_remove1 [of a "cm_connecting m"]
    by (auto simp: ConnectDone peer_step_def connect_done_def add_connection_def within_limit_def Let_def)
next
  case (LoopExit c)
  assume "within_limit m"
  then show ?thesis using length_dict_pop_le [of "cm_connections m" "cn_addr_key (cm_objects m c)"]
    by (simp add: LoopExit peer_step_def read_loop_exit_def within_limit_def Let_def)
next
  case (SendOp a message)
  assume "within_limit m"
  then show ?thesis using send_bytes_keeps [of m a "\<lambda>w. write_frame w message"]
    by (simp add: SendOp peer_step_def manager_send_def within_limit_def)
next
  case CloseAll
  assume "within_limit m"
  then show ?thesis by (simp add: CloseAll peer_step_def close_connections_def within_limit_def)
qed

lemma within_limit_run: "within_limit m \<Longrightarrow> unhurried m ops \<Longrightarrow> within_limit (foldl peer_step m ops)"
  by (induction ops arbitrary: m) (simp_all add: within_limit_step)

lemma attempts_start:
  "cm_connections m = [] \<Longrightarrow> 0 < cm_max m \<Longrightarrow>
     foldl peer_step m (map ConnectTo as) = m\<lparr>cm_connecting := cm_connecting m @ as\<rparr>"
  by (induction as arbitrary: m) (simp_all add: peer_step_def connect_to_def)

lemma attempts_finish:
  "distinct as \<Longrightarrow> cm_connecting m = as \<Longrightarrow> set as \<inter> fst ` set (cm_connections m) = {} \<Longrightarrow>
     length (cm_connections (foldl peer_step m (map (\<lambda>a. ConnectDone a True) as))) = length (cm_connections m) + length as"
proof (induction as arbitrary: m)
  case (Cons a as)
  let ?m = "peer_step m (ConnectDone a True)"
  have "cm_connecting ?m = as" "fst ` set (cm_connections ?m) = insert a (fst ` set (cm_connections m))"
    "length (cm_connections ?m) = Suc (length (cm_connections m))"
    using Cons.prems by (auto simp: peer_step_def connect_done_def add_connection_def Let_def length_dict_set)
  with Cons.IH [of ?m] Cons.prems show ?case by auto
qed simp

lemma overlapping_attempts:
  assumes "0 < n"
  shows "\<exists>ops. length (cm_connections (foldl peer_step (new_manager n) ops)) > n"
proof -
  let ?as = "map (\<lambda>i. [i]) [0..<Suc n] :: pystr list"
  let ?m = "(new_manager n)\<lparr>cm_connecting := ?as\<rparr>"
  have "foldl peer_step (new_manager n) (map ConnectTo ?as) = ?m"
    using attempts_start [of "new_manager n" ?as] assms by (simp add: new_manager_def del: upt_Suc)
  moreover have "length (cm_connections (foldl peer_step ?m (map (\<lambda>a. ConnectDone a True) ?as))) = Suc n"
    using attempts_finish [of ?as ?m] by (simp add: new_manager_def distinct_map inj_on_def del: upt_Suc)
  ultimately have "length (cm_connections (foldl peer_step (new_manager n)
      (map ConnectTo ?as @ map (\<lambda>a. ConnectDone a True) ?as))) > n"
    by (simp del: upt_Suc)
  then show ?thesis by blast
qed

text \<open>
  Claim C30. The number of connections stays within the limit as long as nothing else
  connects while an outgoing attempt is waiting; and this proviso is needed: attempts that
  overlap are all admitted, so that for every limit above zero there is a run after which more
  connections than allowed are open.
\<close>

theorem connection_limit:
  "(unhurried (new_manager n) ops \<longrightarrow> length (cm_connections (foldl peer_step (new_manager n) ops)) \<le> n) \<and>
   (0 < n \<longrightarrow> (\<exists>ops'. length (cm_connections (foldl peer_step (new_manager n) ops')) > n))"
proof
  have max: "cm_max (peer_step m op) = cm_max m" for m op
    using send_bytes_keeps
    by (cases op) (auto simp: peer_step_def handle_incoming_def add_connection_def connect_to_def connect_done_def
        read_loop_exit_def close_connections_def manager_send_def Let_def)
  have "cm_max (foldl peer_step m ops) = cm_max m" for m
    by (induction ops arbitrary: m) (simp_all add: max)
  then have max_run: "cm_max (foldl peer_step (new_manager n) ops) = n" by (simp add: new_manager_def)
  have "within_limit (new_manager n)" by (simp add: within_limit_def new_manager_def)
  then show "unhurried (new_manager n) ops \<longrightarrow> length (cm_connections (foldl peer_step (new_manager n) ops)) \<le> n"
    using within_limit_run [of "new_manager n" ops] max_run by (auto simp: within_limit_def)
  show "0 < n \<longrightarrow> (\<exists>ops'. length (cm_connections (foldl peer_step (new_manager n) ops')) > n)"
    using overlapping_attempts [of n] by (auto simp del: foldl_append)
qed

theorem connection_limit_witness:
  "unhurried (new_manager 1) [ConnectTo [1], ConnectDone [1] True, Incoming [2]] \<and>
   length (cm_connections (foldl peer_step (new_manager 1) [ConnectTo [1], ConnectDone [1] True, Incoming [2]])) \<le> 1"
proof -
  have "unhurried (new_manager 1) [ConnectTo [1], ConnectDone [1] True, Incoming [2]]"
    by (simp add: new_manager_def peer_step_def connect_to_def connect_done_def add_connection_def attempts_ok_def Let_def)
  with connection_limit [of 1 "[ConnectTo [1], ConnectDone [1] True, Incoming [2]]"] show ?thesis by blast
qed

theorem read_loop_delivers_witness:
  "read_loop (concat (map (wire_bytes \<circ> fst) [(BinaryFrame (replicate 28 0),
      DispatchFile \<lparr>fd_transfer_id = uuid_str (replicate 16 0), fd_sequence = 0, fd_offset = 0, fd_data = []\<rparr>)]) @ []) =
    ([DispatchFile \<lparr>fd_transfer_id = uuid_str (replicate 16 0), fd_sequence = 0, fd_offset = 0, fd_data = []\<rparr>], PeerDisconnect)"
proof -
  let ?d = "DispatchFile \<lparr>fd_transfer_id = uuid_str (replicate 16 0), fd_sequence = 0, fd_offset = 0, fd_data = []\<rparr>"
  have "be_nat (replicate n 0) = 0" for n by (induction n) (simp_all add: be_nat_def)
  then have "list_all (\<lambda>(f, d). sendable f \<and> dispatch_of f = Some d) [(BinaryFrame (replicate 28 0), ?d)]"
    by (simp add: sendable_def dispatch_of_def decode_file_data_def HEADER_SIZE_def MAX_MESSAGE_SIZE_def min_def)
  from read_loop_delivers [OF this, of "[]"] show ?thesis by (simp add: read_loop_Nil)
qed

end
