(* ===== verification/Chat.thy ===== *)
theory Chat
  imports Peer
begin

text \<open>
  Chat with delivery acknowledgement, \<^verbatim>\<open>chat.py\<close>. \<^verbatim>\<open>send_chat\<close> is split at its \<^verbatim>\<open>await\<close>: an
  acknowledgement or another call can come between the write and the moment the result of
  the write is known. Status notifications and received messages are recorded in order.
\<close>

section \<open>State\<close>

datatype chat_status = SSent | SDelivered | SFailed

record SentMessageState =
  st_addr_key :: pystr
  st_status :: chat_status
  st_sent_at :: time
  st_timeout_task :: bool

record ChatSession =
  cs_manager :: ConnectionManager
  cs_pending :: "(pystr, SentMessageState) dict"
  cs_notified :: "(pystr \<times> chat_status \<times> pystr) list"
  cs_received :: "(pystr \<times> json) list"

definition new_chat_session :: "ConnectionManager \<Rightarrow> ChatSession" where
  "new_chat_session m = \<lparr>cs_manager = m, cs_pending = [], cs_notified = [], cs_received = []\<rparr>"

section \<open>Operations\<close>

definition notify_status :: "ChatSession \<Rightarrow> pystr \<Rightarrow> chat_status \<Rightarrow> pystr \<Rightarrow> ChatSession" where
  "notify_status s message_id status addr_key =
     s\<lparr>cs_notified := cs_notified s @ [(message_id, status, addr_key)]\<rparr>"

text \<open>
  A handler returns the exception it raises, if any, beside the state. The validator does not
  look at the type of an identifier, and using a list or an object as a key of a dictionary
  raises \<^verbatim>\<open>TypeError\<close>; other values than strings are keys that no table has.
\<close>

datatype handler_error = MissingKey pystr | UnhashableKey | SendError frame_error

definition key_lookup :: "(pystr, 'v) dict \<Rightarrow> json \<Rightarrow> handler_error + (pystr \<times> 'v) option" where
  "key_lookup d key =
     (case key of
        JStr k \<Rightarrow> Inr (map_option (\<lambda>v. (k, v)) (map_of d k))
      | JList _ \<Rightarrow> Inl UnhashableKey
      | JObj _ \<Rightarrow> Inl UnhashableKey
      | _ \<Rightarrow> Inr None)"

definition ack_reply :: "pystr \<Rightarrow> json \<Rightarrow> json" where
  "ack_reply stamp message_id =
     typed ''chat_ack'' [entry ''message_id'' message_id, entry ''timestamp'' (JFloat stamp)]"

lemma ack_reply_str: "ack_reply stamp (JStr message_id) = make_chat_ack stamp message_id"
  by (simp add: ack_reply_def make_chat_ack_def)

definition handle_incoming_chat ::
  "ChatSession \<Rightarrow> pystr \<Rightarrow> pystr \<Rightarrow> json \<Rightarrow> handler_error option \<times> ChatSession" where
  "handle_incoming_chat s stamp addr_key message =
     (case jget message (lit ''message_id'') of
        None \<Rightarrow> (Some (MissingKey (lit ''message_id'')), s)
      | Some message_id \<Rightarrow>
          (case manager_send (cs_manager s) addr_key (ack_reply stamp message_id) of
             (SendRaises e, m) \<Rightarrow> (Some (SendError e), s\<lparr>cs_manager := m\<rparr>)
           | (_, m) \<Rightarrow> (None, s\<lparr>cs_manager := m, cs_received := cs_received s @ [(addr_key, message)]\<rparr>)))"

text \<open>\<^verbatim>\<open>message.get\<close> gives \<^verbatim>\<open>None\<close> for a missing identifier, which no table has as a key.\<close>

definition handle_ack :: "ChatSession \<Rightarrow> json \<Rightarrow> handler_error option \<times> ChatSession" where
  "handle_ack s message =
     (let message_id = (case jget message (lit ''message_id'') of None \<Rightarrow> JNull | Some v \<Rightarrow> v) in
      case key_lookup (cs_pending s) message_id of
        Inl e \<Rightarrow> (Some e, s)
      | Inr None \<Rightarrow> (None, s)
      | Inr (Some (mid, state)) \<Rightarrow>
          (None, notify_status (s\<lparr>cs_pending := dict_pop (cs_pending s) mid\<rparr>)
             mid SDelivered (st_addr_key state)))"

text \<open>
  The subscription to the event bus and the older chain of \<^verbatim>\<open>on_message\<close> handlers make the same choice;
  a message of another type is passed on or left alone.
\<close>

definition dispatch_chat ::
  "ChatSession \<Rightarrow> pystr \<Rightarrow> pystr \<Rightarrow> json \<Rightarrow> handler_error option \<times> ChatSession" where
  "dispatch_chat s stamp addr_key message =
     (if jget message (lit ''type'') = Some (JStr (lit ''chat'')) then handle_incoming_chat s stamp addr_key message
      else if jget message (lit ''type'') = Some (JStr (lit ''chat_ack'')) then handle_ack s message
      else (None, s))"

definition timeout_watcher :: "ChatSession \<Rightarrow> pystr \<Rightarrow> ChatSession" where
  "timeout_watcher s message_id =
     (case map_of (cs_pending s) message_id of
        None \<Rightarrow> s
      | Some state \<Rightarrow>
          if \<not> st_timeout_task state then s
          else notify_status (s\<lparr>cs_pending := dict_pop (cs_pending s) message_id\<rparr>)
            message_id SFailed (st_addr_key state))"

definition send_chat ::
  "ChatSession \<Rightarrow> time \<Rightarrow> pystr \<Rightarrow> pystr \<Rightarrow> pystr \<Rightarrow> pystr \<Rightarrow> pystr \<Rightarrow> pystr \<Rightarrow> send_result option \<times> ChatSession" where
  "send_chat s now stamp message_id addr_key sender_id sender_name body =
     (if length (utf8_encode_replace body) > MAX_CHAT_TEXT_SIZE
      then (None, notify_status s message_id SFailed addr_key)
      else
        let s = s\<lparr>cs_pending := dict_set (cs_pending s) message_id
              \<lparr>st_addr_key = addr_key, st_status = SSent, st_sent_at = now, st_timeout_task = False\<rparr>\<rparr>;
            (ok, m) = manager_send (cs_manager s) addr_key
              (make_chat_message message_id stamp sender_id sender_name body) in
        (Some ok, s\<lparr>cs_manager := m\<rparr>))"

text \<open>The rest of \<^verbatim>\<open>send_chat\<close>, once the send has come back; an exception passes through.\<close>

definition send_chat_resume :: "ChatSession \<Rightarrow> pystr \<Rightarrow> pystr \<Rightarrow> send_result \<Rightarrow> ChatSession" where
  "send_chat_resume s message_id addr_key ok =
     (case ok of
        NotConnected \<Rightarrow>
          notify_status (s\<lparr>cs_pending := dict_pop (cs_pending s) message_id\<rparr>) message_id SFailed addr_key
      | Sent \<Rightarrow>
          (case map_of (cs_pending s) message_id of
             None \<Rightarrow> s
           | Some state \<Rightarrow>
               s\<lparr>cs_pending := dict_set (cs_pending s) message_id (state\<lparr>st_timeout_task := True\<rparr>)\<rparr>)
      | SendRaises _ \<Rightarrow> s)"

definition get_status :: "ChatSession \<Rightarrow> pystr \<Rightarrow> chat_status option" where
  "get_status s message_id = map_option st_status (map_of (cs_pending s) message_id)"

section \<open>Runs\<close>

datatype chat_call =
    CallSend time pystr pystr pystr pystr pystr pystr
  | CallResume pystr pystr send_result
  | CallMessage pystr pystr json
  | CallTimeout pystr

definition chat_step :: "ChatSession \<Rightarrow> chat_call \<Rightarrow> ChatSession" where
  "chat_step s c =
     (case c of
        CallSend now stamp mid addr sid name body \<Rightarrow> snd (send_chat s now stamp mid addr sid name body)
      | CallResume mid addr ok \<Rightarrow> send_chat_resume s mid addr ok
      | CallMessage stamp addr message \<Rightarrow> snd (dispatch_chat s stamp addr message)
      | CallTimeout mid \<Rightarrow> timeout_watcher s mid)"

definition statuses :: "ChatSession \<Rightarrow> pystr \<Rightarrow> chat_status list" where
  "statuses s mid = map (\<lambda>(_, st, _). st) (filter (\<lambda>(m, _). m = mid) (cs_notified s))"

text \<open>
  A run in which identifiers are fresh, and a send that comes back as not connected has not
  been acknowledged while it was waiting.
\<close>

fun orderly :: "pystr list \<Rightarrow> ChatSession \<Rightarrow> chat_call list \<Rightarrow> bool" where
  "orderly used s [] = True"
| "orderly used s (c # cs) =
     ((case c of
         CallSend now stamp mid addr sid name body \<Rightarrow> mid \<notin> set used
       | CallResume mid addr ok \<Rightarrow> ok = NotConnected \<longrightarrow> map_of (cs_pending s) mid \<noteq> None
       | _ \<Rightarrow> True) \<and>
      orderly (case c of CallSend _ _ mid _ _ _ _ \<Rightarrow> mid # used | _ \<Rightarrow> used) (chat_step s c) cs)"

definition chat_inv :: "pystr list \<Rightarrow> ChatSession \<Rightarrow> bool" where
  "chat_inv used s \<longleftrightarrow>
     (\<forall>mid. length (statuses s mid) \<le> 1) \<and>
     (\<forall>mid. map_of (cs_pending s) mid \<noteq> None \<longrightarrow> statuses s mid = [] \<and> mid \<in> set used) \<and>
     (\<forall>mid. statuses s mid \<noteq> [] \<longrightarrow> mid \<in> set used)"

lemma statuses_notify:
  "statuses (notify_status s m st a) mid = statuses s mid @ (if m = mid then [st] else [])"
  by (simp add: statuses_def notify_status_def)

lemma pending_notify [simp]: "cs_pending (notify_status s m st a) = cs_pending s"
  by (simp add: notify_status_def)

lemma statuses_cong: "cs_notified s = cs_notified t \<Longrightarrow> statuses s = statuses t"
  by (intro ext) (simp add: statuses_def)

lemma chat_inv_resolve:
  assumes "chat_inv used s" "map_of (cs_pending s) mid \<noteq> None"
  shows "chat_inv used (notify_status (s\<lparr>cs_pending := dict_pop (cs_pending s) mid\<rparr>) mid st a)"
proof -
  have "statuses (s\<lparr>cs_pending := p\<rparr>) = statuses s" for p by (rule statuses_cong) simp
  moreover have "statuses s mid = []" "mid \<in> set used" using assms by (auto simp: chat_inv_def)
  ultimately show ?thesis
    using assms(1) by (auto simp: chat_inv_def statuses_notify)
qed


lemma chat_inv_keep:
  assumes "chat_inv used s" "cs_notified t = cs_notified s"
    and "\<And>mid. map_of (cs_pending t) mid \<noteq> None \<Longrightarrow> map_of (cs_pending s) mid \<noteq> None"
  shows "chat_inv used t"
  using assms(1,3) unfolding chat_inv_def statuses_cong [OF assms(2)] by blast

lemma chat_inv_message: "chat_inv used s \<Longrightarrow> chat_inv used (snd (dispatch_chat s stamp addr m))"
proof -
  assume inv: "chat_inv used s"
  have "chat_inv used (snd (handle_incoming_chat s stamp addr m))"
    by (rule chat_inv_keep [OF inv]) (auto simp: handle_incoming_chat_def Let_def split: option.splits prod.splits send_result.splits)
  moreover have "chat_inv used (snd (handle_ack s m))"
  proof (cases "handle_ack s m = (None, s) \<or> (\<exists>e. handle_ack s m = (Some e, s))")
    case True
    then show ?thesis using inv by auto
  next
    case False
    then obtain mid state where "map_of (cs_pending s) mid = Some state"
      "snd (handle_ack s m) = notify_status (s\<lparr>cs_pending := dict_pop (cs_pending s) mid\<rparr>) mid SDelivered (st_addr_key state)"
      by (auto simp: handle_ack_def key_lookup_def Let_def split: option.splits json.splits)
    with chat_inv_resolve [OF inv] show ?thesis by simp
  qed
  ultimately show ?thesis using inv by (simp add: dispatch_chat_def)
qed

lemma chat_inv_send:
  assumes "chat_inv used s" "mid \<notin> set used"
  shows "chat_inv (mid # used) (snd (send_chat s now stamp mid addr sid name body))"
proof -
  have fresh: "statuses s mid = []" "map_of (cs_pending s) mid = None" using assms by (auto simp: chat_inv_def)
  show ?thesis
  proof (cases "length (utf8_encode_replace body) > MAX_CHAT_TEXT_SIZE")
    case True
    have "chat_inv (mid # used) (notify_status s mid SFailed addr)"
      using assms(1) fresh by (auto simp: chat_inv_def statuses_notify)
    with True show ?thesis by (simp add: send_chat_def)
  next
    case False
    let ?t = "snd (send_chat s now stamp mid addr sid name body)"
    have n: "cs_notified ?t = cs_notified s" and p: "\<exists>st. cs_pending ?t = dict_set (cs_pending s) mid st"
      using False by (auto simp: send_chat_def Let_def split: prod.splits)
    from p obtain st where "map_of (cs_pending ?t) = (map_of (cs_pending s))(mid \<mapsto> st)" by auto
    with assms(1) fresh show ?thesis unfolding chat_inv_def statuses_cong [OF n] by auto
  qed
qed

lemma chat_inv_resume:
  assumes "chat_inv used s" "ok = NotConnected \<longrightarrow> map_of (cs_pending s) mid \<noteq> None"
  shows "chat_inv used (send_chat_resume s mid addr ok)"
proof (cases ok)
  case Sent
  show ?thesis
    by (rule chat_inv_keep [OF assms(1)]) (auto simp: send_chat_resume_def Sent split: option.splits if_splits)
next
  case NotConnected
  then show ?thesis using chat_inv_resolve [OF assms(1)] assms(2) by (simp add: send_chat_resume_def)
qed (simp add: send_chat_resume_def assms(1))

lemma chat_inv_timeout: "chat_inv used s \<Longrightarrow> chat_inv used (timeout_watcher s mid)"
  using chat_inv_resolve by (auto simp: timeout_watcher_def split: option.splits)

lemma chat_inv_run: "chat_inv used s \<Longrightarrow> orderly used s cs \<Longrightarrow> \<exists>used'. chat_inv used' (foldl chat_step s cs)"
proof (induction cs arbitrary: used s)
  case Nil
  then show ?case by auto
next
  case (Cons c cs)
  let ?used = "case c of CallSend _ _ mid _ _ _ _ \<Rightarrow> mid # used | _ \<Rightarrow> used"
  have "chat_inv ?used (chat_step s c)"
    using Cons.prems
    by (cases c) (simp_all add: chat_step_def chat_inv_send chat_inv_resume chat_inv_message chat_inv_timeout)
  with Cons.IH [of ?used "chat_step s c"] Cons.prems(2) show ?case by simp
qed

text \<open>
  Claim C29. However sends, acknowledgements, failures and timeouts are
  interleaved, the user is told at most one final status per message, provided message
  identifiers are fresh and no message is acknowledged while its own send is about to be
  reported as failed.
\<close>

theorem chat_status_at_most_once:
  assumes "orderly [] (new_chat_session m) cs"
  shows "length (statuses (foldl chat_step (new_chat_session m) cs) mid) \<le> 1"
proof -
  have "chat_inv [] (new_chat_session m)" by (simp add: chat_inv_def new_chat_session_def statuses_def)
  from chat_inv_run [OF this assms] show ?thesis by (auto simp: chat_inv_def)
qed

text \<open>
  That proviso is needed: an acknowledgement that arrives while
  the send waits for its buffer to drain is reported as delivered, and when the connection is
  then lost the same message is reported as failed as well.
\<close>

theorem chat_delivered_then_failed:
  assumes "length (utf8_encode_replace body) \<le> MAX_CHAT_TEXT_SIZE"
  shows "statuses (foldl chat_step (new_chat_session m)
      [CallSend now stamp mid addr sid name body, CallMessage stamp addr (make_chat_ack stamp mid),
       CallResume mid addr NotConnected]) mid = [SDelivered, SFailed]"
proof -
  obtain m' where "snd (send_chat (new_chat_session m) now stamp mid addr sid name body) =
    \<lparr>cs_manager = m', cs_pending = [(mid, \<lparr>st_addr_key = addr, st_status = SSent, st_sent_at = now, st_timeout_task = False\<rparr>)],
     cs_notified = [], cs_received = []\<rparr>"
    using assms
    by (cases "manager_send m addr (make_chat_message mid stamp sid name body)")
      (simp add: send_chat_def new_chat_session_def Let_def)
  then show ?thesis
    by (simp add: chat_step_def dispatch_chat_def handle_ack_def key_lookup_def make_chat_ack_def
        send_chat_resume_def notify_status_def statuses_def Let_def)
qed

text \<open>
  An acknowledgement whose message identifier is a list passes the
  validator, which promises that handlers can rely on the fields, and makes the handler raise
  \<^verbatim>\<open>TypeError\<close>.
\<close>

theorem unhashable_id_escapes:
  "validate_message (ack_reply stamp (JList vs)) = Inr (ack_reply stamp (JList vs)) \<and>
   dispatch_chat s stamp addr (ack_reply stamp (JList vs)) = (Some UnhashableKey, s)"
proof
  have "conforms (ack_reply stamp (JList vs))"
    unfolding ack_reply_def by (simp add: conforms_typed_iff schema_def field_oks)
  then show "validate_message (ack_reply stamp (JList vs)) = Inr (ack_reply stamp (JList vs))"
    by (simp add: validate_iff_schema)
  show "dispatch_chat s stamp addr (ack_reply stamp (JList vs)) = (Some UnhashableKey, s)"
    by (simp add: dispatch_chat_def handle_ack_def key_lookup_def ack_reply_def)
qed

section \<open>Witnesses\<close>

theorem chat_status_at_most_once_witness:
  "length (statuses (foldl chat_step (new_chat_session (new_manager 1))
     [CallSend 0 (lit ''1.5'') (lit ''m'') (lit ''a'') [] [] [], CallResume (lit ''m'') (lit ''a'') NotConnected,
      CallTimeout (lit ''m'')]) (lit ''m'')) \<le> 1"
  by (rule chat_status_at_most_once)
    (simp add: new_chat_session_def new_manager_def chat_step_def send_chat_def manager_send_def send_bytes_def
      utf8_encode_replace_def MAX_CHAT_TEXT_SIZE_def)

theorem chat_delivered_then_failed_witness:
  "statuses (foldl chat_step (new_chat_session (new_manager 1))
      [CallSend 0 (lit ''1.5'') (lit ''m'') (lit ''a'') [] [] [], CallMessage (lit ''1.5'') (lit ''a'') (make_chat_ack (lit ''1.5'') (lit ''m'')),
       CallResume (lit ''m'') (lit ''a'') NotConnected]) (lit ''m'') = [SDelivered, SFailed]"
  by (rule chat_delivered_then_failed) (simp add: utf8_encode_replace_def)

end
