(* ===== verification/Files.thy ===== *)
theory Files
  imports Sha256 Json
begin

text \<open>
  The part of the operating system that file transfers use: names, the inodes they refer to,
  open handles with a position, and the path functions of \<^verbatim>\<open>os.path\<close> on POSIX systems. An open
  handle keeps its inode when the name is removed or taken over. Symbolic links enter through
  \<open>fs_realpath\<close>, which is part of the state of the file system; \<open>None\<close> is the \<^verbatim>\<open>ValueError\<close> of a
  name with a NUL character. \<open>fs_locked\<close> lists the paths that \<^verbatim>\<open>os.remove\<close> refuses.
\<close>

record filesystem =
  fs_names :: "(pystr, nat) dict"
  fs_data :: "nat \<Rightarrow> bytes"
  fs_next :: nat
  fs_dirs :: "pystr list"
  fs_locked :: "pystr list"
  fs_realpath :: "pystr \<Rightarrow> pystr option"
  fs_free :: "int option"

record file_handle =
  h_inode :: nat
  h_pos :: nat

definition path_isfile :: "filesystem \<Rightarrow> pystr \<Rightarrow> bool" where
  "path_isfile fs p \<longleftrightarrow> map_of (fs_names fs) p \<noteq> None"

definition path_exists :: "filesystem \<Rightarrow> pystr \<Rightarrow> bool" where
  "path_exists fs p \<longleftrightarrow> path_isfile fs p \<or> p \<in> set (fs_dirs fs)"

definition read_file :: "filesystem \<Rightarrow> pystr \<Rightarrow> bytes option" where
  "read_file fs p = map_option (fs_data fs) (map_of (fs_names fs) p)"

definition open_wb :: "filesystem \<Rightarrow> pystr \<Rightarrow> file_handle \<times> filesystem" where
  "open_wb fs p =
     (case map_of (fs_names fs) p of
        Some i \<Rightarrow> (\<lparr>h_inode = i, h_pos = 0\<rparr>, fs\<lparr>fs_data := (fs_data fs)(i := [])\<rparr>)
      | None \<Rightarrow>
          (\<lparr>h_inode = fs_next fs, h_pos = 0\<rparr>,
           fs\<lparr>fs_names := dict_set (fs_names fs) p (fs_next fs), fs_data := (fs_data fs)(fs_next fs := []),
              fs_next := Suc (fs_next fs)\<rparr>))"

definition open_ab :: "filesystem \<Rightarrow> pystr \<Rightarrow> file_handle \<times> filesystem" where
  "open_ab fs p =
     (case map_of (fs_names fs) p of
        Some i \<Rightarrow> (\<lparr>h_inode = i, h_pos = length (fs_data fs i)\<rparr>, fs)
      | None \<Rightarrow> open_wb fs p)"

text \<open>A write past the end fills the gap with zero bytes.\<close>

definition write_at :: "bytes \<Rightarrow> nat \<Rightarrow> bytes \<Rightarrow> bytes" where
  "write_at old pos data =
     (if data = [] then old
      else take pos old @ replicate (pos - length old) 0 @ data @ drop (pos + length data) old)"

definition handle_write :: "filesystem \<Rightarrow> file_handle \<Rightarrow> bytes \<Rightarrow> file_handle \<times> filesystem" where
  "handle_write fs h data =
     (h\<lparr>h_pos := h_pos h + length data\<rparr>,
      fs\<lparr>fs_data := (fs_data fs)(h_inode h := write_at (fs_data fs (h_inode h)) (h_pos h) data)\<rparr>)"

definition os_remove :: "filesystem \<Rightarrow> pystr \<Rightarrow> filesystem option" where
  "os_remove fs p =
     (if \<not> path_isfile fs p \<or> p \<in> set (fs_locked fs) then None
      else Some (fs\<lparr>fs_names := dict_pop (fs_names fs) p\<rparr>))"

definition os_replace :: "filesystem \<Rightarrow> pystr \<Rightarrow> pystr \<Rightarrow> filesystem option" where
  "os_replace fs p q =
     (case map_of (fs_names fs) p of
        None \<Rightarrow> None
      | Some i \<Rightarrow> Some (fs\<lparr>fs_names := dict_set (dict_pop (fs_names fs) p) q i\<rparr>))"

section \<open>Paths\<close>

definition SEP :: nat where "SEP = 47"
definition DOT :: nat where "DOT = 46"

definition path_basename :: "pystr \<Rightarrow> pystr" where
  "path_basename p = rev (takeWhile (\<lambda>c. c \<noteq> SEP) (rev p))"

definition path_join :: "pystr \<Rightarrow> pystr \<Rightarrow> pystr" where
  "path_join a b =
     (if b \<noteq> [] \<and> hd b = SEP then b
      else if a = [] \<or> last a = SEP then a @ b
      else a @ [SEP] @ b)"

text \<open>The extension starts at the last dot of the last component, unless only dots come before it.\<close>

definition path_splitext :: "pystr \<Rightarrow> pystr \<times> pystr" where
  "path_splitext p =
     (let name = path_basename p;
          ext = rev (takeWhile (\<lambda>c. c \<noteq> DOT) (rev p));
          k = length p - length ext - 1 in
      if DOT \<in> set name \<and> list_ex (\<lambda>c. c \<noteq> DOT) (take (length name - length ext - 1) name)
      then (take k p, drop k p)
      else (p, []))"

fun split_sep :: "pystr \<Rightarrow> pystr list" where
  "split_sep [] = [[]]"
| "split_sep (c # s) =
     (if c = SEP then [] # split_sep s
      else case split_sep s of [] \<Rightarrow> [[c]] | w # ws \<Rightarrow> (c # w) # ws)"

definition path_components :: "pystr \<Rightarrow> pystr list" where
  "path_components p = filter (\<lambda>c. c \<noteq> [] \<and> c \<noteq> [DOT]) (split_sep p)"

fun common_prefix :: "'a list \<Rightarrow> 'a list \<Rightarrow> 'a list" where
  "common_prefix (x # xs) (y # ys) = (if x = y then x # common_prefix xs ys else [])"
| "common_prefix _ _ = []"

text \<open>\<^verbatim>\<open>commonpath\<close> of two absolute paths.\<close>

definition path_commonpath :: "pystr \<Rightarrow> pystr \<Rightarrow> pystr" where
  "path_commonpath p q = [SEP] @ join_with [SEP] (common_prefix (path_components p) (path_components q))"

definition py_strip :: "(nat \<Rightarrow> bool) \<Rightarrow> pystr \<Rightarrow> pystr" where
  "py_strip space s = rev (dropWhile space (rev (dropWhile space s)))"

section \<open>Lemmas\<close>

definition fs_ok :: "filesystem \<Rightarrow> bool" where
  "fs_ok fs \<longleftrightarrow> dict_ok (fs_names fs) \<and> (\<forall>p i. map_of (fs_names fs) p = Some i \<longrightarrow> i < fs_next fs) \<and>
     (\<forall>p q i. map_of (fs_names fs) p = Some i \<longrightarrow> map_of (fs_names fs) q = Some i \<longrightarrow> p = q)"

lemma fs_ok_open_wb: "fs_ok fs \<Longrightarrow> fs_ok (snd (open_wb fs p))"
  by (auto simp: fs_ok_def open_wb_def less_Suc_eq split: option.splits if_splits)

lemma fs_ok_open_ab: "fs_ok fs \<Longrightarrow> fs_ok (snd (open_ab fs p))"
  using fs_ok_open_wb by (auto simp: open_ab_def split: option.splits)

lemma fs_ok_handle_write: "fs_ok fs \<Longrightarrow> fs_ok (snd (handle_write fs h data))"
  by (simp add: fs_ok_def handle_write_def)

lemma fs_ok_os_remove: "fs_ok fs \<Longrightarrow> os_remove fs p = Some fs' \<Longrightarrow> fs_ok fs'"
  by (auto simp: fs_ok_def os_remove_def split: if_splits)

lemma fs_ok_os_replace: "fs_ok fs \<Longrightarrow> os_replace fs p q = Some fs' \<Longrightarrow> fs_ok fs'"
  by (auto simp: fs_ok_def os_replace_def split: option.splits if_splits)

lemma write_at_end [simp]: "write_at old (length old) data = old @ data"
  by (simp add: write_at_def)

lemma basename_no_sep: "SEP \<notin> set (path_basename p)"
  by (auto simp: path_basename_def dest: set_takeWhileD)

lemma splitext_append: "path_splitext p = (base, ext) \<Longrightarrow> base @ ext = p"
  by (auto simp: path_splitext_def Let_def split: if_splits)

end
