(* ===== verification/File_Transfer.thy ===== *)
theory File_Transfer
  imports Files Security_Events Encodings
begin

text \<open>
  The file transfer core, \<^verbatim>\<open>core/transfer/\<close>: chunking, hashing, partial files, the receiving and
  the sending state machine and the manager with its limits. Operations that touch the disk
  take and return the file system.
\<close>

datatype transfer_error =
    TransferSecurityError
  | InsufficientDiskSpaceError
  | ChunkValidationError
  | InvalidSize int
  | StartBeyondEnd
  | ZeroDivisionError
  | FileNotFoundError
  | EmbeddedNul

section \<open>Chunks and hashes\<close>

definition DEFAULT_CHUNK_SIZE :: nat where
  "DEFAULT_CHUNK_SIZE = 64 * 1024"

type_synonym chunk = "nat \<times> nat \<times> bytes"

function chunk_loop :: "nat \<Rightarrow> nat \<Rightarrow> nat \<Rightarrow> bytes \<Rightarrow> chunk list" where
  "chunk_loop n sequence_index current_offset rest =
     (let chunk = take n rest in
      if chunk = [] then []
      else (sequence_index, current_offset, chunk) #
        chunk_loop n (Suc sequence_index) (current_offset + length chunk) (drop n rest))"
  by pat_completeness auto
termination by (relation "measure (\<lambda>(n, s, c, rest). length rest)") auto

declare chunk_loop.simps [simp del]

definition read_chunks :: "filesystem \<Rightarrow> pystr \<Rightarrow> nat \<Rightarrow> nat \<Rightarrow> transfer_error + chunk list" where
  "read_chunks fs filepath start_offset chunk_size =
     (case read_file fs filepath of
        None \<Rightarrow> Inl FileNotFoundError
      | Some content \<Rightarrow>
          if start_offset > length content then Inl StartBeyondEnd
          else if chunk_size = 0 then Inl ZeroDivisionError
          else Inr (chunk_loop chunk_size (start_offset div chunk_size) start_offset (drop start_offset content)))"

text \<open>
  A \<^verbatim>\<open>hashlib\<close> object stands for the bytes it has been given: feeding pieces is feeding their
  concatenation.
\<close>

record IncrementalHasher =
  ih_fed :: bytes
  ih_bytes_hashed :: nat

definition new_hasher :: IncrementalHasher where
  "new_hasher = \<lparr>ih_fed = [], ih_bytes_hashed = 0\<rparr>"

definition hasher_update :: "IncrementalHasher \<Rightarrow> bytes \<Rightarrow> IncrementalHasher" where
  "hasher_update h data =
     h\<lparr>ih_fed := ih_fed h @ data, ih_bytes_hashed := ih_bytes_hashed h + length data\<rparr>"

definition hasher_hexdigest :: "IncrementalHasher \<Rightarrow> pystr" where
  "hasher_hexdigest h = sha256_hex (ih_fed h)"

definition hasher_digest :: "IncrementalHasher \<Rightarrow> bytes" where
  "hasher_digest h = sha256 (ih_fed h)"

definition DEFAULT_HASH_CHUNK_SIZE :: nat where
  "DEFAULT_HASH_CHUNK_SIZE = 64 * 1024"

definition sha256_file :: "filesystem \<Rightarrow> pystr \<Rightarrow> nat \<Rightarrow> pystr option" where
  "sha256_file fs filepath chunk_size =
     (case read_file fs filepath of
        None \<Rightarrow> None
      | Some content \<Rightarrow>
          Some (hasher_hexdigest (foldl hasher_update new_hasher
            (map (\<lambda>(_, _, c). c) (chunk_loop chunk_size 0 0 content)))))"

section \<open>Partial files\<close>

definition PART_EXTENSION :: pystr where
  "PART_EXTENSION = lit ''.part''"

definition get_part_path :: "pystr \<Rightarrow> pystr" where
  "get_part_path dest_path = dest_path @ PART_EXTENSION"

definition get_partial_bytes :: "filesystem \<Rightarrow> pystr \<Rightarrow> nat" where
  "get_partial_bytes fs part_path = (case read_file fs part_path of None \<Rightarrow> 0 | Some c \<Rightarrow> length c)"

definition cleanup_part_file :: "filesystem \<Rightarrow> pystr \<Rightarrow> filesystem" where
  "cleanup_part_file fs part_path =
     (if path_exists fs part_path
      then case os_remove fs part_path of None \<Rightarrow> fs | Some fs' \<Rightarrow> fs'
      else fs)"

definition finalize_part_file :: "filesystem \<Rightarrow> pystr \<Rightarrow> pystr \<Rightarrow> transfer_error + filesystem" where
  "finalize_part_file fs part_path dest_path =
     (case os_replace fs part_path dest_path of None \<Rightarrow> Inl FileNotFoundError | Some fs' \<Rightarrow> Inr fs')"

section \<open>Where an incoming file goes\<close>

definition MAX_INCOMING_FILE_SIZE :: int where
  "MAX_INCOMING_FILE_SIZE = 2 * 1024 * 1024 * 1024"

definition DISK_SAFETY_MARGIN :: int where
  "DISK_SAFETY_MARGIN = 10 * 1024 * 1024"

definition check_disk_space :: "filesystem \<Rightarrow> int \<Rightarrow> bool" where
  "check_disk_space fs required_bytes =
     (case fs_free fs of None \<Rightarrow> True | Some free \<Rightarrow> free \<ge> required_bytes + DISK_SAFETY_MARGIN)"

definition numbered :: "pystr \<Rightarrow> pystr \<Rightarrow> pystr \<Rightarrow> nat \<Rightarrow> pystr" where
  "numbered downloads_dir base ext counter =
     path_join downloads_dir (base @ lit '' ('' @ dec_nat counter @ lit '')'' @ ext)"

definition taken :: "filesystem \<Rightarrow> pystr \<Rightarrow> bool" where
  "taken fs candidate \<longleftrightarrow> path_exists fs candidate \<or> path_exists fs (get_part_path candidate)"

partial_function (option) free_candidate :: "(pystr \<Rightarrow> bool) \<Rightarrow> (nat \<Rightarrow> pystr) \<Rightarrow> pystr \<Rightarrow> nat \<Rightarrow> pystr option" where
  "free_candidate bad next candidate counter =
     (if bad candidate then free_candidate bad next (next counter) (counter + 1) else Some candidate)"

text \<open>\<open>None\<close> is a search for a free name that does not end.\<close>

definition resolve_safe_dest_path :: "filesystem \<Rightarrow> pystr \<Rightarrow> pystr \<Rightarrow> (transfer_error + pystr) option" where
  "resolve_safe_dest_path fs filename downloads_dir =
     (let name = py_strip is_py_space
            (path_basename (map (\<lambda>c. if c = 92 then SEP else c) filename)) in
      if name = [] \<or> name = [DOT] \<or> name = [DOT, DOT] then Some (Inl TransferSecurityError)
      else case fs_realpath fs downloads_dir of
        None \<Rightarrow> Some (Inl EmbeddedNul)
      | Some downloads_root \<Rightarrow>
          let (base, ext) = path_splitext name in
          (case free_candidate (taken fs) (numbered downloads_dir base ext) (path_join downloads_dir name) 1 of
             None \<Rightarrow> None
           | Some candidate \<Rightarrow>
               (case fs_realpath fs candidate of
                  None \<Rightarrow> Some (Inl EmbeddedNul)
                | Some resolved \<Rightarrow>
                    if path_commonpath resolved downloads_root \<noteq> downloads_root
                    then Some (Inl TransferSecurityError)
                    else Some (Inr candidate))))"

section \<open>The receiver\<close>

datatype transfer_status =
  Offered | Receiving | Verifying | Done | Failed | Sending | AwaitingAck | Rejected

record FileReceiver =
  fr_transfer_id :: pystr
  fr_filename :: pystr
  fr_size :: int
  fr_expected_checksum :: pystr
  fr_sender_name :: pystr
  fr_dest_path :: pystr
  fr_part_path :: pystr
  fr_chunk_size :: nat
  fr_bytes_received :: nat
  fr_expected_chunk_index :: nat
  fr_status :: transfer_status
  fr_handle :: "file_handle option"

definition new_receiver :: "pystr \<Rightarrow> pystr \<Rightarrow> int \<Rightarrow> pystr \<Rightarrow> pystr \<Rightarrow> pystr \<Rightarrow> nat \<Rightarrow> FileReceiver" where
  "new_receiver transfer_id filename sz expected_checksum sender_name dest_path chunk_size =
     \<lparr>fr_transfer_id = transfer_id, fr_filename = filename, fr_size = sz,
      fr_expected_checksum = expected_checksum, fr_sender_name = sender_name, fr_dest_path = dest_path,
      fr_part_path = get_part_path dest_path, fr_chunk_size = chunk_size, fr_bytes_received = 0,
      fr_expected_chunk_index = 0, fr_status = Offered, fr_handle = None\<rparr>"

definition prepare :: "filesystem \<Rightarrow> FileReceiver \<Rightarrow> bool \<Rightarrow> nat \<times> FileReceiver \<times> filesystem" where
  "prepare fs r resume =
     (let existing_bytes = get_partial_bytes fs (fr_part_path r) in
      if resume \<and> 0 < existing_bytes \<and> int existing_bytes < fr_size r
      then let (h, fs') = open_ab fs (fr_part_path r) in
        (existing_bytes,
         r\<lparr>fr_bytes_received := existing_bytes, fr_expected_chunk_index := existing_bytes div fr_chunk_size r,
           fr_handle := Some h, fr_status := Receiving\<rparr>, fs')
      else let (h, fs') = open_wb (cleanup_part_file fs (fr_part_path r)) (fr_part_path r) in
        (0, r\<lparr>fr_bytes_received := 0, fr_expected_chunk_index := 0, fr_handle := Some h,
              fr_status := Receiving\<rparr>, fs'))"

definition write_chunk ::
  "filesystem \<Rightarrow> FileReceiver \<Rightarrow> int \<Rightarrow> int \<Rightarrow> bytes \<Rightarrow> transfer_error + FileReceiver \<times> filesystem" where
  "write_chunk fs r sequence offset data =
     (case fr_handle r of
        None \<Rightarrow> Inl ChunkValidationError
      | Some h \<Rightarrow>
          if fr_status r \<noteq> Receiving then Inl ChunkValidationError
          else if sequence \<noteq> int (fr_expected_chunk_index r) \<or> offset \<noteq> int (fr_bytes_received r)
          then Inl ChunkValidationError
          else if int (fr_bytes_received r + length data) > fr_size r then Inl ChunkValidationError
          else let (h', fs') = handle_write fs h data in
            Inr (r\<lparr>fr_handle := Some h', fr_bytes_received := fr_bytes_received r + length data,
                   fr_expected_chunk_index := fr_expected_chunk_index r + 1\<rparr>, fs'))"

definition abort_receiver :: "filesystem \<Rightarrow> FileReceiver \<Rightarrow> bool \<Rightarrow> FileReceiver \<times> filesystem" where
  "abort_receiver fs r cleanup =
     (r\<lparr>fr_handle := None, fr_status := Failed\<rparr>,
      if cleanup then cleanup_part_file fs (fr_part_path r) else fs)"

definition finish_receiver :: "filesystem \<Rightarrow> FileReceiver \<Rightarrow> (transfer_error + bool) \<times> FileReceiver \<times> filesystem" where
  "finish_receiver fs r =
     (let r = r\<lparr>fr_handle := None, fr_status := Verifying\<rparr> in
      if int (fr_bytes_received r) \<noteq> fr_size r then (Inr False, abort_receiver fs r True)
      else case sha256_file fs (fr_part_path r) DEFAULT_HASH_CHUNK_SIZE of
        None \<Rightarrow> (Inl FileNotFoundError, r, fs)
      | Some actual_checksum \<Rightarrow>
          if lower actual_checksum \<noteq> lower (fr_expected_checksum r) then (Inr False, abort_receiver fs r True)
          else case finalize_part_file fs (fr_part_path r) (fr_dest_path r) of
            Inl e \<Rightarrow> (Inl e, r, fs)
          | Inr fs' \<Rightarrow> (Inr True, r\<lparr>fr_status := Done\<rparr>, fs'))"

section \<open>The sender\<close>

record FileSender =
  sn_transfer_id :: pystr
  sn_filepath :: pystr
  sn_filename :: pystr
  sn_size :: nat
  sn_checksum :: pystr
  sn_chunk_size :: nat
  sn_bytes_sent :: nat
  sn_status :: transfer_status
  sn_ack_event :: bool
  sn_ack_success :: bool
  sn_ack_reason :: pystr

definition new_sender :: "filesystem \<Rightarrow> pystr \<Rightarrow> pystr \<Rightarrow> pystr option \<Rightarrow> nat \<Rightarrow> transfer_error + FileSender" where
  "new_sender fs transfer_id filepath filename chunk_size =
     (case (read_file fs filepath, sha256_file fs filepath DEFAULT_HASH_CHUNK_SIZE) of
        (Some content, Some checksum) \<Rightarrow>
          Inr \<lparr>sn_transfer_id = transfer_id, sn_filepath = filepath,
               sn_filename = (case filename of
                   Some n \<Rightarrow> if n \<noteq> [] then n else path_basename filepath
                 | None \<Rightarrow> path_basename filepath),
               sn_size = length content, sn_checksum = checksum, sn_chunk_size = chunk_size,
               sn_bytes_sent = 0, sn_status = Offered, sn_ack_event = False, sn_ack_success = False,
               sn_ack_reason = []\<rparr>
      | _ \<Rightarrow> Inl FileNotFoundError)"

text \<open>
  The generator, run to its end: the chunks it yields and the sender it leaves; an exception
  of \<^verbatim>\<open>read_chunks\<close> comes after the status and the count have been set.
\<close>

definition get_chunks :: "filesystem \<Rightarrow> FileSender \<Rightarrow> nat \<Rightarrow> (transfer_error + chunk list) \<times> FileSender" where
  "get_chunks fs s start_offset =
     (let s = s\<lparr>sn_status := Sending, sn_bytes_sent := start_offset\<rparr> in
      case read_chunks fs (sn_filepath s) start_offset (sn_chunk_size s) of
        Inl e \<Rightarrow> (Inl e, s)
      | Inr cs \<Rightarrow>
          (Inr cs, foldl (\<lambda>s (_, _, data). s\<lparr>sn_bytes_sent := sn_bytes_sent s + length data\<rparr>) s cs))"

definition mark_ack :: "FileSender \<Rightarrow> bool \<Rightarrow> pystr \<Rightarrow> FileSender" where
  "mark_ack s success reason =
     s\<lparr>sn_ack_success := success, sn_ack_reason := reason, sn_ack_event := True\<rparr>"

text \<open>\<open>waited\<close> is what \<^verbatim>\<open>mark_ack\<close> did to the sender before the time was up.\<close>

definition wait_for_ack :: "FileSender \<Rightarrow> (FileSender \<Rightarrow> FileSender) \<Rightarrow> bool \<times> FileSender" where
  "wait_for_ack s waited =
     (let s = waited (s\<lparr>sn_status := AwaitingAck\<rparr>) in
      if sn_ack_event s
      then (sn_ack_success s, s\<lparr>sn_status := if sn_ack_success s then Done else Failed\<rparr>)
      else (False, s\<lparr>sn_status := Failed, sn_ack_reason := lit ''ack timed out''\<rparr>))"

section \<open>The manager\<close>

definition MAX_CONCURRENT_TRANSFERS :: nat where
  "MAX_CONCURRENT_TRANSFERS = 5"

definition MAX_TOTAL_INCOMING_SIZE :: int where
  "MAX_TOTAL_INCOMING_SIZE = 10 * 1024 * 1024 * 1024"

record FileTransferManager =
  tm_downloads_dir :: pystr
  tm_max_concurrent :: nat
  tm_max_total_incoming :: int
  tm_senders :: "(pystr, FileSender) dict"
  tm_receivers :: "(pystr, FileReceiver) dict"

definition pending :: "FileTransferManager \<Rightarrow> FileReceiver list" where
  "pending m = filter (\<lambda>r. fr_status r \<in> {Receiving, Offered}) (map snd (tm_receivers m))"

definition active_incoming_count :: "FileTransferManager \<Rightarrow> nat" where
  "active_incoming_count m = length (pending m)"

definition total_incoming_bytes_pending :: "FileTransferManager \<Rightarrow> int" where
  "total_incoming_bytes_pending m = sum_list (map fr_size (pending m))"

definition create_sender ::
  "filesystem \<Rightarrow> FileTransferManager \<Rightarrow> pystr \<Rightarrow> pystr \<Rightarrow> pystr option \<Rightarrow> transfer_error + FileSender \<times> FileTransferManager" where
  "create_sender fs m fresh_uuid filepath transfer_id =
     (let tid = (case transfer_id of Some t \<Rightarrow> if t \<noteq> [] then t else fresh_uuid | None \<Rightarrow> fresh_uuid) in
      res_bind (new_sender fs tid filepath None DEFAULT_CHUNK_SIZE) (\<lambda>sender.
        Inr (sender, m\<lparr>tm_senders := dict_set (tm_senders m) tid sender\<rparr>)))"

definition get_sender :: "FileTransferManager \<Rightarrow> pystr \<Rightarrow> FileSender option" where
  "get_sender m transfer_id = map_of (tm_senders m) transfer_id"

definition get_receiver :: "FileTransferManager \<Rightarrow> pystr \<Rightarrow> FileReceiver option" where
  "get_receiver m transfer_id = map_of (tm_receivers m) transfer_id"

definition validate_offer ::
  "filesystem \<Rightarrow> FileTransferManager \<Rightarrow> pystr \<Rightarrow> int \<Rightarrow> (transfer_error + pystr) option" where
  "validate_offer fs m filename sz =
     (if sz \<le> 0 \<or> sz > MAX_INCOMING_FILE_SIZE then Some (Inl (InvalidSize sz))
      else if active_incoming_count m \<ge> tm_max_concurrent m then Some (Inl InsufficientDiskSpaceError)
      else if total_incoming_bytes_pending m + sz > tm_max_total_incoming m
      then Some (Inl InsufficientDiskSpaceError)
      else if \<not> check_disk_space fs sz then Some (Inl InsufficientDiskSpaceError)
      else resolve_safe_dest_path fs filename (tm_downloads_dir m))"

definition create_receiver ::
  "FileTransferManager \<Rightarrow> pystr \<Rightarrow> pystr \<Rightarrow> int \<Rightarrow> pystr \<Rightarrow> pystr \<Rightarrow> pystr \<Rightarrow> FileReceiver \<times> FileTransferManager" where
  "create_receiver m transfer_id filename sz checksum sender_name dest_path =
     (let receiver = new_receiver transfer_id filename sz checksum sender_name dest_path (64 * 1024) in
      (receiver, m\<lparr>tm_receivers := dict_set (tm_receivers m) transfer_id receiver\<rparr>))"

definition remove_transfer :: "FileTransferManager \<Rightarrow> pystr \<Rightarrow> FileTransferManager" where
  "remove_transfer m transfer_id =
     m\<lparr>tm_senders := dict_pop (tm_senders m) transfer_id,
       tm_receivers := dict_pop (tm_receivers m) transfer_id\<rparr>"

end
