(* ===== verification/Transfer_Safety.thy ===== *)
theory Transfer_Safety
  imports File_Transfer
begin

text \<open>
  What the file transfer core guarantees: the search for a destination ends inside the
  download directory, a file that is published has the announced size and hash, and a file
  sent in chunks arrives, also when a partial file is resumed.
\<close>

section \<open>Destinations\<close>

lemma free_candidate_result:
  "free_candidate bad nxt cand k = Some c \<Longrightarrow> \<not> bad c \<and> (c = cand \<or> (\<exists>j. c = nxt j))"
  by (rule free_candidate.raw_induct
      [where P = "\<lambda>bad nxt cand k c. \<not> bad c \<and> (c = cand \<or> (\<exists>j. c = nxt j))"])
    (auto split: if_splits, blast+)

lemma free_candidate_ends:
  assumes "finite {c. bad c}" "inj nxt"
  shows "\<exists>c. free_candidate bad nxt cand k = Some c"
proof -
  have "infinite (nxt ` {k..})"
    using assms(2) infinite_Ici [of k] by (metis finite_imageD inj_on_subset top_greatest)
  then have "\<not> nxt ` {k..} \<subseteq> {c. bad c}" using assms(1) finite_subset by blast
  then obtain j where "k \<le> j" "\<not> bad (nxt j)" by auto
  then show ?thesis
  proof (induction "j - k" arbitrary: k cand)
    case 0
    then have "j = k" by simp
    then show ?case
      using 0 by (subst free_candidate.simps, subst free_candidate.simps) simp
  next
    case (Suc n)
    then have "\<exists>c. free_candidate bad nxt (nxt k) (k + 1) = Some c" by simp
    then show ?case by (subst free_candidate.simps) simp
  qed
qed

lemma finite_taken: "finite {c. taken fs c}"
proof -
  let ?all = "set (map fst (fs_names fs)) \<union> set (fs_dirs fs)"
  have "path_exists fs p \<Longrightarrow> p \<in> ?all" for p
    by (force simp: path_exists_def path_isfile_def dest: map_of_SomeD)
  then have "{c. taken fs c} \<subseteq> ?all \<union> get_part_path -` ?all"
    unfolding taken_def by blast
  moreover have "finite (get_part_path -` ?all)"
    by (rule finite_vimageI) (auto simp: get_part_path_def inj_on_def)
  ultimately show ?thesis by (meson finite_UnI finite_subset List.finite_set)
qed

lemma dec_nat_inj: "dec_nat m = dec_nat n \<Longrightarrow> m = n"
  by (metis nat_of_digits_dec_nat)

lemma path_join_plain:
  "SEP \<notin> set b \<Longrightarrow> path_join d b = (if d = [] \<or> last d = SEP then d @ b else d @ [SEP] @ b)"
  by (cases b) (auto simp: path_join_def)

lemma path_join_inj: "path_join d a = path_join d b \<Longrightarrow> SEP \<notin> set a \<Longrightarrow> SEP \<notin> set b \<Longrightarrow> a = b"
  by (simp add: path_join_plain split: if_splits)

lemma numbered_name_no_sep:
  assumes "SEP \<notin> set base" "SEP \<notin> set ext"
  shows "SEP \<notin> set (base @ lit '' ('' @ dec_nat k @ lit '')'' @ ext)"
proof -
  have "\<not> is_digit SEP" by (simp add: SEP_def is_digit_def)
  then have "SEP \<notin> set (dec_nat k)" using dec_nat_digits [of k] by (auto simp: list_all_iff)
  with assms show ?thesis by (simp add: lit_def SEP_def)
qed

lemma inj_numbered: "SEP \<notin> set base \<Longrightarrow> SEP \<notin> set ext \<Longrightarrow> inj (numbered d base ext)"
  unfolding inj_def numbered_def
  using numbered_name_no_sep by (auto dest!: path_join_inj simp: dec_nat_inj)

lemma set_dropWhile_subset: "set (dropWhile p xs) \<subseteq> set xs"
  by (auto dest: set_dropWhileD)

lemma safe_name_no_sep: "SEP \<notin> set (py_strip sp (path_basename f))"
  using basename_no_sep [of f] by (auto simp: py_strip_def dest!: set_dropWhileD)

text \<open>
  Claim C19. For every file name a peer can send, the search for a destination
  ends; and the path it returns is free, is one plain name (no separator, not empty, not a
  dot name) joined to the download directory, and lies inside that directory once links are
  resolved.
\<close>

theorem safe_destination:
  "(\<exists>r. resolve_safe_dest_path fs filename downloads_dir = Some r) \<and>
   (\<forall>p. resolve_safe_dest_path fs filename downloads_dir = Some (Inr p) \<longrightarrow>
      \<not> taken fs p \<and>
      (\<exists>name. p = path_join downloads_dir name \<and> SEP \<notin> set name \<and> name \<notin> {[], [DOT], [DOT, DOT]}) \<and>
      (\<exists>rt resolved. fs_realpath fs downloads_dir = Some rt \<and> fs_realpath fs p = Some resolved \<and>
         path_commonpath resolved rt = rt))"
proof -
  define name where "name = py_strip is_py_space (path_basename (map (\<lambda>c. if c = 92 then SEP else c) filename))"
  obtain base ext where be: "path_splitext name = (base, ext)" by fastforce
  have sep: "SEP \<notin> set name" by (simp add: name_def safe_name_no_sep)
  then have sep': "SEP \<notin> set base" "SEP \<notin> set ext" using splitext_append [OF be] by auto
  let ?cand = "free_candidate (taken fs) (numbered downloads_dir base ext) (path_join downloads_dir name) 1"
  obtain c where c: "?cand = Some c"
    using free_candidate_ends [OF finite_taken inj_numbered [OF sep']] by blast
  have res: "resolve_safe_dest_path fs filename downloads_dir =
     (if name = [] \<or> name = [DOT] \<or> name = [DOT, DOT] then Some (Inl TransferSecurityError)
      else case fs_realpath fs downloads_dir of
        None \<Rightarrow> Some (Inl EmbeddedNul)
      | Some rt \<Rightarrow>
          (case fs_realpath fs c of
             None \<Rightarrow> Some (Inl EmbeddedNul)
           | Some resolved \<Rightarrow>
               if path_commonpath resolved rt \<noteq> rt then Some (Inl TransferSecurityError)
               else Some (Inr c)))"
    unfolding resolve_safe_dest_path_def Let_def name_def [symmetric] be prod.case c option.case ..
  have "\<not> taken fs c" "c = path_join downloads_dir name \<or> (\<exists>j. c = numbered downloads_dir base ext j)"
    using free_candidate_result [OF c] by auto
  moreover have "\<exists>nm. numbered downloads_dir base ext j = path_join downloads_dir nm \<and> SEP \<notin> set nm \<and>
      nm \<notin> {[], [DOT], [DOT, DOT]}" for j
  proof -
    have "40 \<in> set (base @ lit '' ('' @ dec_nat j @ lit '')'' @ ext)" by (simp add: lit_def)
    moreover have "set x \<subseteq> {DOT}" if "x \<in> {[], [DOT], [DOT, DOT]}" for x using that by auto
    ultimately have "base @ lit '' ('' @ dec_nat j @ lit '')'' @ ext \<notin> {[], [DOT], [DOT, DOT]}"
      unfolding DOT_def by fastforce
    with numbered_name_no_sep [OF sep'] show ?thesis unfolding numbered_def by blast
  qed
  ultimately show ?thesis
    unfolding res using sep by (auto split: option.splits if_splits)
qed


section \<open>Hashing in pieces\<close>

lemma concat_chunk_loop: "0 < n \<Longrightarrow> concat (map (\<lambda>(_, _, c). c) (chunk_loop n s c rest)) = rest"
proof (induction n s c rest rule: chunk_loop.induct)
  case (1 n s c rest)
  then show ?case
    by (subst chunk_loop.simps) (auto simp: Let_def)
qed

lemma foldl_hasher_update:
  "ih_fed (foldl hasher_update h cs) = ih_fed h @ concat cs"
  by (induction cs arbitrary: h) (simp_all add: hasher_update_def)

lemma sha256_file_whole: "0 < n \<Longrightarrow> sha256_file fs p n = map_option sha256_hex (read_file fs p)"
  by (simp add: sha256_file_def hasher_hexdigest_def foldl_hasher_update concat_chunk_loop new_hasher_def
      split: option.splits)

lemma hash_chunk_positive [simp]: "0 < DEFAULT_HASH_CHUNK_SIZE" "0 < DEFAULT_CHUNK_SIZE"
  by (simp_all add: DEFAULT_HASH_CHUNK_SIZE_def DEFAULT_CHUNK_SIZE_def)

section \<open>The receiver's invariant\<close>

text \<open>
  The partial file has as many bytes as the receiver has counted, the handle is open on it at
  its end, and the count is within the announced size.
\<close>

definition part_ok :: "filesystem \<times> FileReceiver \<Rightarrow> bool" where
  "part_ok = (\<lambda>(fs, r).
     fs_ok fs \<and> 0 \<le> fr_size r \<and> int (fr_bytes_received r) \<le> fr_size r \<and>
     fr_part_path r = get_part_path (fr_dest_path r) \<and>
     (\<forall>i. map_of (fs_names fs) (fr_part_path r) = Some i \<longrightarrow> length (fs_data fs i) = fr_bytes_received r) \<and>
     (\<forall>h. fr_handle r = Some h \<longrightarrow>
        map_of (fs_names fs) (fr_part_path r) = Some (h_inode h) \<and> h_pos h = fr_bytes_received r))"

datatype receiver_op = OpPrepare bool | OpChunk int int bytes | OpFinish | OpAbort bool

definition receiver_step :: "filesystem \<times> FileReceiver \<Rightarrow> receiver_op \<Rightarrow> filesystem \<times> FileReceiver" where
  "receiver_step = (\<lambda>(fs, r) op.
     case op of
       OpPrepare resume \<Rightarrow> (case prepare fs r resume of (_, r', fs') \<Rightarrow> (fs', r'))
     | OpChunk sequence offset data \<Rightarrow>
         (case write_chunk fs r sequence offset data of Inl _ \<Rightarrow> (fs, r) | Inr (r', fs') \<Rightarrow> (fs', r'))
     | OpFinish \<Rightarrow> (case finish_receiver fs r of (_, r', fs') \<Rightarrow> (fs', r'))
     | OpAbort cleanup \<Rightarrow> (case abort_receiver fs r cleanup of (r', fs') \<Rightarrow> (fs', r')))"

lemma fs_ok_cleanup: "fs_ok fs \<Longrightarrow> fs_ok (cleanup_part_file fs p)"
  by (auto simp: cleanup_part_file_def fs_ok_os_remove split: option.splits)

lemma cleanup_names:
  "map_of (fs_names (cleanup_part_file fs p)) q = Some i \<Longrightarrow> map_of (fs_names fs) q = Some i"
  "fs_data (cleanup_part_file fs p) = fs_data fs"
  by (auto simp: cleanup_part_file_def os_remove_def split: option.splits if_splits)

lemma open_wb_names:
  "open_wb fs p = (h, fs') \<Longrightarrow> map_of (fs_names fs') p = Some (h_inode h) \<and> fs_data fs' (h_inode h) = [] \<and> h_pos h = 0"
  by (auto simp: open_wb_def split: option.splits)

lemma part_path_differs [simp]: "get_part_path d \<noteq> d" "d \<noteq> get_part_path d"
  by (simp_all add: get_part_path_def PART_EXTENSION_def lit_def)

lemma part_ok_prepare:
  assumes "fs_ok fs" "0 \<le> fr_size r" "fr_part_path r = get_part_path (fr_dest_path r)"
    and "prepare fs r resume = (k, r', fs')"
  shows "part_ok (fs', r')"
proof (cases "resume \<and> 0 < get_partial_bytes fs (fr_part_path r) \<and> int (get_partial_bytes fs (fr_part_path r)) < fr_size r")
  case True
  then obtain i where "map_of (fs_names fs) (fr_part_path r) = Some i" "get_partial_bytes fs (fr_part_path r) = length (fs_data fs i)"
    by (auto simp: get_partial_bytes_def read_file_def split: option.splits)
  with assms True show ?thesis
    by (auto simp: prepare_def part_ok_def open_ab_def Let_def)
next
  case False
  obtain h fs2 where o: "open_wb (cleanup_part_file fs (fr_part_path r)) (fr_part_path r) = (h, fs2)" by fastforce
  have "fs_ok fs2" using fs_ok_open_wb [of "cleanup_part_file fs (fr_part_path r)" "fr_part_path r"] assms(1) fs_ok_cleanup o
    by simp
  with False assms(2-4) o open_wb_names [OF o] show ?thesis
    by (auto simp: prepare_def part_ok_def Let_def)
qed

lemma length_write_at: "length old = pos \<Longrightarrow> length (write_at old pos data) = pos + length data"
  using write_at_end [of old data] by auto

lemma part_ok_chunk:
  assumes "part_ok (fs, r)" "write_chunk fs r sequence offset data = Inr (r', fs')"
  shows "part_ok (fs', r')"
proof -
  from assms(2) obtain h where h: "fr_handle r = Some h" and le: "int (fr_bytes_received r + length data) \<le> fr_size r"
    and r': "r' = r\<lparr>fr_handle := Some (fst (handle_write fs h data)), fr_bytes_received := fr_bytes_received r + length data,
        fr_expected_chunk_index := fr_expected_chunk_index r + 1\<rparr>"
    and fs': "fs' = snd (handle_write fs h data)"
    by (auto simp: write_chunk_def Let_def split: option.splits if_splits prod.splits)
  have pos: "h_pos h = length (fs_data fs (h_inode h))" and "map_of (fs_names fs) (fr_part_path r) = Some (h_inode h)"
    using assms(1) h by (auto simp: part_ok_def)
  with assms(1) le h fs_ok_handle_write [of fs h data] show ?thesis
    unfolding r' fs' by (auto simp: part_ok_def handle_write_def length_write_at)
qed

lemma part_ok_abort:
  assumes ok: "part_ok (fs, r)" and "abort_receiver fs r c = (r', fs')"
  shows "part_ok (fs', r')"
proof -
  have r': "r' = r\<lparr>fr_handle := None, fr_status := Failed\<rparr>"
    and fs': "fs' = cleanup_part_file fs (fr_part_path r) \<or> fs' = fs"
    using assms(2) by (auto simp: abort_receiver_def split: if_splits)
  have "fs_ok fs'" using fs' ok by (auto simp: part_ok_def fs_ok_cleanup)
  moreover have "fs_data fs' = fs_data fs" using fs' by (auto simp: cleanup_names(2))
  moreover have "map_of (fs_names fs') (fr_part_path r) = Some i \<Longrightarrow> map_of (fs_names fs) (fr_part_path r) = Some i" for i
    using fs' by (auto dest: cleanup_names(1))
  ultimately show ?thesis using ok by (simp add: part_ok_def r')
qed

lemma part_ok_finish:
  assumes "part_ok (fs, r)" "finish_receiver fs r = (b, r', fs')"
  shows "part_ok (fs', r')"
proof -
  let ?r = "r\<lparr>fr_handle := None, fr_status := Verifying\<rparr>"
  have ok: "part_ok (fs, ?r)" using assms(1) by (simp add: part_ok_def)
  have fin: "part_ok (fs2, ?r\<lparr>fr_status := Done\<rparr>)" if "finalize_part_file fs (fr_part_path r) (fr_dest_path r) = Inr fs2" for fs2
  proof -
    from that have "os_replace fs (fr_part_path r) (fr_dest_path r) = Some fs2"
      by (auto simp: finalize_part_file_def split: option.splits)
    with ok fs_ok_os_replace [of fs _ _ fs2] show ?thesis
      by (auto simp: part_ok_def os_replace_def split: option.splits)
  qed
  have ab: "part_ok (snd (abort_receiver fs ?r True), fst (abort_receiver fs ?r True))"
    using part_ok_abort [OF ok, of True] by (metis prod.collapse)
  consider "(r', fs') = abort_receiver fs ?r True" | "(r', fs') = (?r, fs)"
    | "finalize_part_file fs (fr_part_path r) (fr_dest_path r) = Inr fs'" "r' = ?r\<lparr>fr_status := Done\<rparr>"
    using assms(2) unfolding finish_receiver_def Let_def
    by (simp split: if_splits option.splits sum.splits)
  then show ?thesis
  proof cases
    case 1
    with ab show ?thesis by (metis fst_conv snd_conv)
  next
    case 2
    with ok show ?thesis by simp
  next
    case 3
    with fin show ?thesis by simp
  qed
qed

lemma part_ok_step: "part_ok s \<Longrightarrow> part_ok (receiver_step s op)"
proof (cases s; cases op)
  fix fs r resume assume s: "s = (fs, r)" "op = OpPrepare resume" and ok: "part_ok s"
  obtain k r' fs' where "prepare fs r resume = (k, r', fs')" by (metis prod_cases3)
  moreover have "fs_ok fs" "0 \<le> fr_size r" "fr_part_path r = get_part_path (fr_dest_path r)"
    using ok by (simp_all add: s part_ok_def)
  ultimately have "part_ok (fs', r')" using part_ok_prepare by blast
  with \<open>prepare fs r resume = _\<close> show ?thesis by (simp add: receiver_step_def s)
next
  fix fs r a b c assume s: "s = (fs, r)" "op = OpChunk a b c" and ok: "part_ok s"
  then show ?thesis using part_ok_chunk [of fs r a b c]
    by (auto simp: receiver_step_def split: sum.splits)
next
  fix fs r assume s: "s = (fs, r)" "op = OpFinish" and ok: "part_ok s"
  obtain b r' fs' where "finish_receiver fs r = (b, r', fs')" by (metis prod_cases3)
  with part_ok_finish [OF _ this] ok show ?thesis by (simp add: receiver_step_def s)
next
  fix fs r c assume s: "s = (fs, r)" "op = OpAbort c" and ok: "part_ok s"
  then show ?thesis using part_ok_abort [of fs r c]
    by (auto simp: receiver_step_def split: prod.splits)
qed

interpretation receiver_inv: step_system receiver_step part_ok
  by unfold_locales (rule part_ok_step)


definition announced :: "filesystem \<times> FileReceiver \<Rightarrow> int \<times> pystr \<times> pystr" where
  "announced = (\<lambda>(fs, r). (fr_size r, fr_dest_path r, fr_expected_checksum r))"

interpretation announcement: step_system receiver_step "\<lambda>s. announced s = a" for a
proof unfold_locales
  fix s op assume "announced s = a"
  then show "announced (receiver_step s op) = a"
    by (cases s; cases op)
      (auto simp: announced_def receiver_step_def prepare_def write_chunk_def finish_receiver_def abort_receiver_def Let_def
        split: if_splits option.splits sum.splits prod.splits)
qed

lemma finish_True:
  assumes "finish_receiver fs r = (Inr True, r', fs')"
  obtains i where "map_of (fs_names fs) (fr_part_path r) = Some i"
    "map_of (fs_names fs') (fr_dest_path r) = Some i" "fs_data fs' = fs_data fs"
    "lower (sha256_hex (fs_data fs i)) = lower (fr_expected_checksum r)" "int (fr_bytes_received r) = fr_size r"
    "fr_status r' = Done"
proof -
  from assms obtain cs where c: "sha256_file fs (fr_part_path r) DEFAULT_HASH_CHUNK_SIZE = Some cs"
    "lower cs = lower (fr_expected_checksum r)" "int (fr_bytes_received r) = fr_size r"
    and fin: "finalize_part_file fs (fr_part_path r) (fr_dest_path r) = Inr fs'" and st: "fr_status r' = Done"
    by (auto simp: finish_receiver_def Let_def split: if_splits option.splits sum.splits)
  then obtain i where "map_of (fs_names fs) (fr_part_path r) = Some i" "cs = sha256_hex (fs_data fs i)"
    by (auto simp: sha256_file_whole read_file_def)
  with c fin st that show thesis
    by (auto simp: finalize_part_file_def os_replace_def split: option.splits)
qed


section \<open>A file arrives\<close>

fun write_chunks :: "filesystem \<Rightarrow> FileReceiver \<Rightarrow> chunk list \<Rightarrow> transfer_error + FileReceiver \<times> filesystem" where
  "write_chunks fs r [] = Inr (r, fs)"
| "write_chunks fs r ((sequence, offset, data) # cs) =
     res_bind (write_chunk fs r (int sequence) (int offset) data) (\<lambda>(r', fs'). write_chunks fs' r' cs)"

definition receiving_at :: "filesystem \<Rightarrow> FileReceiver \<Rightarrow> bytes \<Rightarrow> bool" where
  "receiving_at fs r got \<longleftrightarrow> fr_status r = Receiving \<and> fr_bytes_received r = length got \<and>
     (\<exists>h. fr_handle r = Some h \<and> h_pos h = length got \<and> map_of (fs_names fs) (fr_part_path r) = Some (h_inode h) \<and>
        fs_data fs (h_inode h) = got)"

lemma write_chunk_receiving:
  assumes "receiving_at fs r got" "fr_expected_chunk_index r = s" "int (length got + length data) \<le> fr_size r"
  shows "\<exists>r' fs'. write_chunk fs r (int s) (int (length got)) data = Inr (r', fs') \<and> receiving_at fs' r' (got @ data) \<and>
    fr_expected_chunk_index r' = Suc s \<and> fr_size r' = fr_size r \<and> fr_part_path r' = fr_part_path r \<and>
    fr_dest_path r' = fr_dest_path r \<and> fr_expected_checksum r' = fr_expected_checksum r"
  using assms by (auto simp: receiving_at_def write_chunk_def handle_write_def)

lemma write_chunk_loop:
  assumes "0 < n"
  shows "receiving_at fs r got \<Longrightarrow> fr_expected_chunk_index r = s \<Longrightarrow> int (length got + length rest) \<le> fr_size r \<Longrightarrow>
    \<exists>r' fs'. write_chunks fs r (chunk_loop n s (length got) rest) = Inr (r', fs') \<and> receiving_at fs' r' (got @ rest) \<and>
      fr_size r' = fr_size r \<and> fr_part_path r' = fr_part_path r \<and>
      fr_dest_path r' = fr_dest_path r \<and> fr_expected_checksum r' = fr_expected_checksum r"
proof (induction "length rest" arbitrary: fs r got s rest rule: less_induct)
  case less
  show ?case
  proof (cases "rest = []")
    case True
    with less.prems show ?thesis by (subst chunk_loop.simps) simp
  next
    case False
    let ?c = "take n rest"
    from False assms have ne: "?c \<noteq> []" by simp
    have "int (length got + length ?c) \<le> fr_size r" using less.prems(3) by simp
    from write_chunk_receiving [OF less.prems(1,2) this] obtain r' fs' where
      w: "write_chunk fs r (int s) (int (length got)) ?c = Inr (r', fs')" "receiving_at fs' r' (got @ ?c)"
      and r': "fr_expected_chunk_index r' = Suc s" "fr_size r' = fr_size r" "fr_part_path r' = fr_part_path r"
        "fr_dest_path r' = fr_dest_path r" "fr_expected_checksum r' = fr_expected_checksum r" by blast
    have "int (length (got @ ?c) + length (drop n rest)) \<le> fr_size r'"
      using less.prems(3) r'(2) by simp
    from less.hyps [OF _ w(2) r'(1) this] False assms have "\<exists>r2 fs2. write_chunks fs' r'
        (chunk_loop n (Suc s) (length (got @ ?c)) (drop n rest)) = Inr (r2, fs2) \<and>
        receiving_at fs2 r2 ((got @ ?c) @ drop n rest) \<and> fr_size r2 = fr_size r' \<and> fr_part_path r2 = fr_part_path r' \<and>
        fr_dest_path r2 = fr_dest_path r' \<and> fr_expected_checksum r2 = fr_expected_checksum r'" by simp
    with w(1) ne r' show ?thesis
      by (subst chunk_loop.simps) (auto simp: Let_def)
  qed
qed


lemma prepare_receiving:
  assumes "fs_ok fs" and prep: "prepare fs r resume = (k, r0, fs0)" and "0 < fr_chunk_size r"
    and prefix: "\<forall>old. resume \<longrightarrow> read_file fs (fr_part_path r) = Some old \<longrightarrow> (\<exists>tl. content = old @ tl)"
  shows "k \<le> length content \<and> receiving_at fs0 r0 (take k content) \<and> fr_expected_chunk_index r0 = k div fr_chunk_size r \<and>
    fr_size r0 = fr_size r \<and> fr_part_path r0 = fr_part_path r \<and> fr_dest_path r0 = fr_dest_path r \<and>
    fr_expected_checksum r0 = fr_expected_checksum r"
proof (cases "resume \<and> 0 < get_partial_bytes fs (fr_part_path r) \<and> int (get_partial_bytes fs (fr_part_path r)) < fr_size r")
  case True
  then obtain i where i: "map_of (fs_names fs) (fr_part_path r) = Some i"
    "get_partial_bytes fs (fr_part_path r) = length (fs_data fs i)"
    by (auto simp: get_partial_bytes_def read_file_def split: option.splits)
  with prefix True obtain tl where "content = fs_data fs i @ tl" by (auto simp: read_file_def)
  with i True prep show ?thesis
    by (auto simp: prepare_def open_ab_def Let_def receiving_at_def)
next
  case False
  obtain h fs2 where o: "open_wb (cleanup_part_file fs (fr_part_path r)) (fr_part_path r) = (h, fs2)" by fastforce
  from False prep o open_wb_names [OF o] show ?thesis
    by (auto simp: prepare_def Let_def receiving_at_def)
qed

lemma finish_complete:
  assumes "receiving_at fs r content" "fr_size r = int (length content)"
    and "lower (fr_expected_checksum r) = lower (sha256_hex content)"
  shows "\<exists>r' fs'. finish_receiver fs r = (Inr True, r', fs') \<and> fr_status r' = Done \<and>
    read_file fs' (fr_dest_path r) = Some content"
proof -
  from assms(1) obtain i where "map_of (fs_names fs) (fr_part_path r) = Some i" "fs_data fs i = content"
    "fr_bytes_received r = length content" by (auto simp: receiving_at_def)
  with assms(2,3) show ?thesis
    by (simp add: finish_receiver_def sha256_file_whole read_file_def finalize_part_file_def os_replace_def)
qed

lemma new_sender_Inr:
  "new_sender fs tid path name n = Inr s \<Longrightarrow> \<exists>content. read_file fs path = Some content \<and> sn_filepath s = path \<and>
     sn_size s = length content \<and> sn_checksum s = sha256_hex content \<and> sn_chunk_size s = n"
  by (auto simp: new_sender_def sha256_file_whole split: option.splits)

lemma sender_counts:
  "sn_bytes_sent (foldl (\<lambda>s (_, _, data). s\<lparr>sn_bytes_sent := sn_bytes_sent s + length data\<rparr>) s cs)
     = sn_bytes_sent s + length (concat (map (\<lambda>(_, _, c). c) cs))"
  by (induction cs arbitrary: s) auto

text \<open>
  Claim C18. A file whose chunks are fed to a receiver that was told its size
  and checksum arrives: every chunk is accepted, the receiver reports success, and the
  destination holds the file. This includes a transfer that resumes a partial file at any
  offset, as long as that partial file is a beginning of the file.
\<close>

theorem file_transfer_roundtrip:
  assumes "fs_ok fs" "0 < n" and snd: "new_sender src tid path None n = Inr s"
    and content: "read_file src path = Some content" and cs: "lower checksum = lower (sn_checksum s)"
    and r: "r = new_receiver tid name (int (sn_size s)) checksum sender dest n"
    and prefix: "\<forall>old. resume \<longrightarrow> read_file fs (get_part_path dest) = Some old \<longrightarrow> (\<exists>tl. content = old @ tl)"
    and prep: "prepare fs r resume = (k, r0, fs0)"
  shows "\<exists>chunks s' r1 fs1 r2 fs2. get_chunks src s k = (Inr chunks, s') \<and> sn_bytes_sent s' = length content \<and>
    write_chunks fs0 r0 chunks = Inr (r1, fs1) \<and> finish_receiver fs1 r1 = (Inr True, r2, fs2) \<and>
    fr_status r2 = Done \<and> read_file fs2 dest = Some content"
proof -
  have s: "sn_filepath s = path" "sn_size s = length content" "sn_checksum s = sha256_hex content" "sn_chunk_size s = n"
    using new_sender_Inr [OF snd] content by auto
  have p: "fr_part_path r = get_part_path dest" "fr_dest_path r = dest" "fr_chunk_size r = n"
    "fr_size r = int (length content)" "fr_expected_checksum r = checksum"
    by (simp_all add: r new_receiver_def s)
  have k: "k \<le> length content" and at: "receiving_at fs0 r0 (take k content)"
    and r0: "fr_expected_chunk_index r0 = k div n" "fr_size r0 = int (length content)" "fr_dest_path r0 = dest"
      "fr_expected_checksum r0 = checksum"
    using prepare_receiving [OF assms(1) prep, of content] prefix assms(2) p by auto
  have len: "length (take k content) = k" using k by simp
  let ?chunks = "chunk_loop n (k div n) k (drop k content)"
  obtain s' where "get_chunks src s k = (Inr ?chunks, s')" "sn_bytes_sent s' = length content"
    using content k assms(2)
    by (simp add: get_chunks_def read_chunks_def s sender_counts concat_chunk_loop)
  moreover obtain r1 fs1 where w: "write_chunks fs0 r0 ?chunks = Inr (r1, fs1)" "receiving_at fs1 r1 content"
    "fr_size r1 = int (length content)" "fr_dest_path r1 = dest" "fr_expected_checksum r1 = checksum"
    using write_chunk_loop [OF assms(2) at r0(1), of "drop k content"] r0 len by auto
  moreover obtain r2 fs2 where "finish_receiver fs1 r1 = (Inr True, r2, fs2)" "fr_status r2 = Done"
    "read_file fs2 dest = Some content"
    using finish_complete [OF w(2,3)] w(4,5) cs s(3) by auto
  ultimately show ?thesis by blast
qed


section \<open>Witnesses\<close>

definition toy_fs :: filesystem where
  "toy_fs = \<lparr>fs_names = [(lit ''/s/f'', 0), (lit ''/d/f.part'', 1)], fs_data = (\<lambda>i. if i = 0 then [1, 2, 3] else [1]),
     fs_next = 2, fs_dirs = [lit ''/d'', lit ''/s''], fs_locked = [], fs_realpath = Some, fs_free = None\<rparr>"

lemma toy_fs_ok: "fs_ok toy_fs"
  by (auto simp: fs_ok_def toy_fs_def dict_ok_def split: if_splits)

theorem safe_destination_witness:
  "resolve_safe_dest_path toy_fs (lit ''..'' @ [92] @ lit ''f'') (lit ''/d'') = Some (Inr (lit ''/d/f (1)'')) \<and>
   \<not> taken toy_fs (lit ''/d/f (1)'')"
proof -
  have "resolve_safe_dest_path toy_fs (lit ''..'' @ [92] @ lit ''f'') (lit ''/d'') = Some (Inr (lit ''/d/f (1)''))"
    by (simp add: resolve_safe_dest_path_def toy_fs_def lit_def SEP_def DOT_def py_strip_def is_py_space_def
        path_basename_def path_splitext_def path_join_def free_candidate.simps taken_def path_exists_def path_isfile_def
        get_part_path_def PART_EXTENSION_def numbered_def dec_nat.simps path_commonpath_def path_components_def Let_def)
  with safe_destination [of toy_fs "lit ''..'' @ [92] @ lit ''f''" "lit ''/d''"] show ?thesis by blast
qed

definition toy_receiver :: FileReceiver where
  "toy_receiver = new_receiver (lit ''t'') (lit ''f'') 3 (sha256_hex [1, 2, 3]) (lit ''ann'') (lit ''/d/f'') 2"

lemma toy_sender: "\<exists>s. new_sender toy_fs (lit ''t'') (lit ''/s/f'') None 2 = Inr s \<and> sn_size s = 3 \<and>
    sn_checksum s = sha256_hex [1, 2, 3]"
  by (simp add: new_sender_def sha256_file_whole read_file_def toy_fs_def)

lemma toy_prefix: "\<forall>old. True \<longrightarrow> read_file toy_fs (get_part_path (lit ''/d/f'')) = Some old \<longrightarrow> (\<exists>tl. [1, 2, 3] = old @ tl)"
  by (simp add: read_file_def toy_fs_def get_part_path_def PART_EXTENSION_def lit_def)

theorem file_transfer_roundtrip_witness:
  "\<exists>k r0 fs0 s chunks s' r1 fs1 r2 fs2. prepare toy_fs toy_receiver True = (k, r0, fs0) \<and>
    get_chunks toy_fs s k = (Inr chunks, s') \<and> write_chunks fs0 r0 chunks = Inr (r1, fs1) \<and>
    finish_receiver fs1 r1 = (Inr True, r2, fs2) \<and> read_file fs2 (lit ''/d/f'') = Some [1, 2, 3]"
proof -
  obtain s where s: "new_sender toy_fs (lit ''t'') (lit ''/s/f'') None 2 = Inr s" "sn_size s = 3"
    "sn_checksum s = sha256_hex [1, 2, 3]" using toy_sender by blast
  obtain k r0 fs0 where prep: "prepare toy_fs toy_receiver True = (k, r0, fs0)" by (metis prod_cases3)
  have content: "read_file toy_fs (lit ''/s/f'') = Some [1, 2, 3]" by (simp add: read_file_def toy_fs_def)
  have r: "toy_receiver = new_receiver (lit ''t'') (lit ''f'') (int (sn_size s)) (sha256_hex [1, 2, 3]) (lit ''ann'') (lit ''/d/f'') 2"
    by (simp add: toy_receiver_def s)
  from file_transfer_roundtrip [OF toy_fs_ok _ s(1) content _ r toy_prefix prep] prep s(3) show ?thesis
    by fastforce
qed

lemma toy_transfer:
  "\<exists>k r0 fs0 ops fs1 r1 r2 fs2. prepare toy_fs toy_receiver False = (k, r0, fs0) \<and>
    foldl receiver_step (fs0, r0) ops = (fs1, r1) \<and> finish_receiver fs1 r1 = (Inr True, r2, fs2)"
proof -
  obtain k r0 fs0 where prep: "prepare toy_fs toy_receiver False = (k, r0, fs0)" by (metis prod_cases3)
  have c: "0 < fr_chunk_size toy_receiver" "fr_size toy_receiver = 3" "fr_expected_checksum toy_receiver = sha256_hex [1, 2, 3]"
    by (simp_all add: toy_receiver_def new_receiver_def)
  have k: "k \<le> length []" "receiving_at fs0 r0 (take k [])"
    "fr_expected_chunk_index r0 = k div fr_chunk_size toy_receiver" "fr_size r0 = 3"
    "fr_expected_checksum r0 = sha256_hex [1, 2, 3]"
    using prepare_receiving [OF toy_fs_ok prep c(1), of "[]"] c(2,3) by simp_all
  then have at: "receiving_at fs0 r0 []" "fr_expected_chunk_index r0 = 0" by simp_all
  obtain r1 fs1 where w: "write_chunk fs0 r0 0 0 [1, 2, 3] = Inr (r1, fs1)" "receiving_at fs1 r1 [1, 2, 3]"
    "fr_size r1 = 3" "fr_expected_checksum r1 = sha256_hex [1, 2, 3]"
    using write_chunk_receiving [OF at, of "[1, 2, 3]"] k(4,5) by auto
  have "foldl receiver_step (fs0, r0) [OpChunk 0 0 [1, 2, 3]] = (fs1, r1)"
    by (simp add: receiver_step_def w)
  moreover obtain r2 fs2 where "finish_receiver fs1 r1 = (Inr True, r2, fs2)"
    using finish_complete [OF w(2)] w(3,4) by auto
  ultimately show ?thesis using prep by blast
qed


end
