(* ===== verification/Py_Values.thy ===== *)
theory Py_Values
  imports Messages "HOL-Library.Log_Nat"
begin

text \<open>
  What the operators of Python make of the values a JSON text is read as: comparison with an
  integer, truth, \<^verbatim>\<open>len\<close>, and the key a value is in a dictionary.
\<close>

text \<open>
  The exact value of a JSON float literal, and whether the double nearest to it is the integer
  \<open>n\<close>, for \<open>n\<close> below \<open>2 ^ 53\<close>. The tie goes to the even significand, which is that of \<open>n\<close>.
\<close>

definition digits_val :: "pystr \<Rightarrow> nat" where
  "digits_val ds = foldl (\<lambda>n c. 10 * n + (c - 48)) 0 ds"

definition float_parts :: "pystr \<Rightarrow> bool \<times> pystr \<times> pystr \<times> bool \<times> pystr" where
  "float_parts l =
     (let digit = (\<lambda>c. 48 \<le> c \<and> c \<le> (57::nat));
          neg = (take 1 l = [45]);
          l = (if neg then drop 1 l else l);
          whole = takeWhile digit l; l = dropWhile digit l;
          frac = (if take 1 l = [46] then takeWhile digit (drop 1 l) else []);
          l = (if take 1 l = [46] then dropWhile digit (drop 1 l) else l);
          ex = drop 1 l in
      (neg, whole, frac, take 1 ex = [45], if take 1 ex = [45] \<or> take 1 ex = [43] then drop 1 ex else ex))"

definition float_val :: "pystr \<Rightarrow> rat" where
  "float_val l =
     (let (neg, whole, frac, eneg, ex) = float_parts l;
          m = of_nat (digits_val (whole @ frac)) / 10 ^ length frac;
          v = (if eneg then m / 10 ^ digits_val ex else m * 10 ^ digits_val ex) in
      if neg then - v else v)"

definition float_is :: "pystr \<Rightarrow> nat \<Rightarrow> bool" where
  "float_is l n \<longleftrightarrow>
     l \<notin> {lit ''NaN'', lit ''Infinity'', lit ''-Infinity''} \<and>
     (let v = float_val l; b = floorlog 2 n in
      if n = 0 then \<bar>v\<bar> \<le> 1 / 2 ^ 1075
      else of_nat n - 2 ^ b / 2 ^ (if 2 * n = 2 ^ b then 55 else 54) \<le> v \<and> v \<le> of_nat n + 2 ^ b / 2 ^ 54)"

definition equals_nat :: "json \<Rightarrow> nat \<Rightarrow> bool" where
  "equals_nat v n \<longleftrightarrow> (case v of JFloat l \<Rightarrow> float_is l n | _ \<Rightarrow> as_int v = Some (int n))"

definition truthy :: "json \<Rightarrow> bool" where
  "truthy v \<longleftrightarrow>
     (case v of
        JNull \<Rightarrow> False
      | JStr s \<Rightarrow> s \<noteq> []
      | JList vs \<Rightarrow> vs \<noteq> []
      | JObj kvs \<Rightarrow> kvs \<noteq> []
      | _ \<Rightarrow> \<not> equals_nat v 0)"

fun py_len :: "json \<Rightarrow> nat option" where
  "py_len (JStr s) = Some (length s)"
| "py_len (JList vs) = Some (length vs)"
| "py_len (JObj kvs) = Some (length kvs)"
| "py_len _ = None"

text \<open>
  The key a value is in a dictionary; \<open>None\<close> is the \<^verbatim>\<open>TypeError\<close> of a list or an object. A Boolean
  is the same key as the integer it equals. A float is taken to be the same key only as the
  same literal.
\<close>

fun dict_key :: "json \<Rightarrow> json option" where
  "dict_key (JList _) = None"
| "dict_key (JObj _) = None"
| "dict_key (JBool b) = Some (JInt (if b then 1 else 0))"
| "dict_key v = Some v"

end
