(* ===== verification/Transfer_Session.thy ===== *)
theory Transfer_Session
  imports Chat Transfer_Safety Py_Values
begin

text \<open>
  The file transfer session of \<^verbatim>\<open>file_transfer.py\<close>, between the connection manager and the
  transfer core. \<^verbatim>\<open>offer_file\<close>, \<^verbatim>\<open>_handle_offer\<close> and \<^verbatim>\<open>_send_chunks\<close> are split where they wait for
  something outside: the write of the offer, the user's decision, the acknowledgement. The
  other sends are taken as one step with the code around them. The callbacks record what they
  are told. Outgoing transfers are objects that the sending task shares with the table: the
  task keeps its object when the table drops it.
\<close>

section \<open>State\<close>

record OutgoingTransfer =
  ot_addr_key :: pystr
  ot_filepath :: pystr
  ot_filename :: pystr
  ot_size :: nat
  ot_checksum :: pystr
  ot_status :: transfer_status
  ot_ack_event :: bool
  ot_ack_success :: bool

record IncomingTransfer =
  it_transfer_id :: json
  it_addr_key :: pystr
  it_filename :: pystr
  it_size :: int
  it_expected_checksum :: pystr
  it_sender_name :: json
  it_dest_path :: pystr
  it_part_path :: pystr
  it_bytes_received :: nat
  it_expected_chunk_index :: nat
  it_status :: transfer_status
  it_handle :: "file_handle option"

record completion =
  co_transfer_id :: json
  co_success :: bool
  co_filepath :: "pystr option"
  co_error :: "pystr option"

record pending_offer =
  po_transfer_id :: json
  po_addr_key :: pystr
  po_filename :: pystr
  po_size :: int
  po_checksum :: pystr
  po_sender_name :: json
  po_sender_id :: json
  po_dest_path :: pystr

text \<open>\<open>ts_objects\<close> holds the outgoing transfer objects, \<open>ts_outgoing\<close> the keys of the table.\<close>

record FileTransferSession =
  ts_manager :: ConnectionManager
  ts_fs :: filesystem
  ts_downloads_dir :: pystr
  ts_objects :: "(pystr, OutgoingTransfer) dict"
  ts_outgoing :: "pystr list"
  ts_tasks :: "pystr list"
  ts_incoming :: "(json, IncomingTransfer) dict"
  ts_offered :: "pending_offer list"
  ts_progress :: "(json \<times> nat \<times> int \<times> bool) list"
  ts_completed :: "completion list"

definition CHUNK_SIZE :: nat where
  "CHUNK_SIZE = DEFAULT_CHUNK_SIZE"

text \<open>\<^verbatim>\<open>os.makedirs\<close> refuses a name that is a file; the parent directory is taken to be there.\<close>

definition new_session :: "ConnectionManager \<Rightarrow> filesystem \<Rightarrow> pystr \<Rightarrow> FileTransferSession option" where
  "new_session m fs downloads_dir =
     (if path_isfile fs downloads_dir then None
      else Some
        \<lparr>ts_manager = m,
         ts_fs = (if path_exists fs downloads_dir then fs else fs\<lparr>fs_dirs := fs_dirs fs @ [downloads_dir]\<rparr>),
         ts_downloads_dir = downloads_dir, ts_objects = [], ts_outgoing = [], ts_tasks = [], ts_incoming = [],
         ts_offered = [], ts_progress = [], ts_completed = []\<rparr>)"

text \<open>
  How a handler ends. \<open>Unvalidated\<close> is a message that the read loop does not deliver: its fields
  do not have the types the validator checks.
\<close>

datatype outcome =
    Finished
  | PassedOn
  | Asking pending_offer
  | Searching
  | TsKeyError pystr
  | TsTypeError
  | TsAttributeError
  | TsValueError
  | TsFileNotFoundError
  | TsSendError frame_error
  | Unvalidated

section \<open>Notifications and sending\<close>

definition notify_progress :: "FileTransferSession \<Rightarrow> json \<Rightarrow> nat \<Rightarrow> int \<Rightarrow> bool \<Rightarrow> FileTransferSession" where
  "notify_progress s transfer_id bytes_done total_bytes is_upload =
     s\<lparr>ts_progress := ts_progress s @ [(transfer_id, bytes_done, total_bytes, is_upload)]\<rparr>"

definition notify_complete ::
  "FileTransferSession \<Rightarrow> json \<Rightarrow> bool \<Rightarrow> pystr option \<Rightarrow> pystr option \<Rightarrow> FileTransferSession" where
  "notify_complete s transfer_id success filepath error =
     s\<lparr>ts_completed := ts_completed s @
       [\<lparr>co_transfer_id = transfer_id, co_success = success, co_filepath = filepath, co_error = error\<rparr>]\<rparr>"

text \<open>
  \<^verbatim>\<open>await self.manager.send(...)\<close> with the result ignored, and what follows it: an exception of
  the encoder skips the rest.
\<close>

definition send_then ::
  "FileTransferSession \<Rightarrow> pystr \<Rightarrow> json \<Rightarrow> (FileTransferSession \<Rightarrow> outcome \<times> FileTransferSession) \<Rightarrow>
     outcome \<times> FileTransferSession" where
  "send_then s addr_key message rest =
     (case manager_send (ts_manager s) addr_key message of
        (SendRaises e, m) \<Rightarrow> (TsSendError e, s\<lparr>ts_manager := m\<rparr>)
      | (_, m) \<Rightarrow> rest (s\<lparr>ts_manager := m\<rparr>))"

text \<open>The factories of the replies put the identifier they are given into the message, whatever it is.\<close>

definition transfer_reply :: "string \<Rightarrow> pystr \<Rightarrow> json \<Rightarrow> json" where
  "transfer_reply kind stamp transfer_id =
     typed kind [entry ''transfer_id'' transfer_id, entry ''timestamp'' (JFloat stamp)]"

definition complete_ack :: "json \<Rightarrow> bool \<Rightarrow> pystr \<Rightarrow> json" where
  "complete_ack transfer_id success detail =
     typed ''file_complete_ack''
       [entry ''transfer_id'' transfer_id, entry ''success'' (JBool success), entry ''detail'' (JStr detail)]"

lemma transfer_reply_str:
  "transfer_reply ''file_accept'' stamp (JStr t) = make_file_accept stamp t"
  "transfer_reply ''file_reject'' stamp (JStr t) = make_file_reject stamp t"
  "complete_ack (JStr t) success detail = make_file_complete_ack t success detail"
  by (simp_all add: transfer_reply_def complete_ack_def make_file_accept_def make_file_reject_def
      make_file_complete_ack_def)


section \<open>The sending side\<close>

text \<open>\<^verbatim>\<open>offer_file\<close> up to the write of the offer, and what it does when the write has come back.\<close>

definition offer_file ::
  "FileTransferSession \<Rightarrow> pystr \<Rightarrow> pystr \<Rightarrow> pystr \<Rightarrow> pystr \<Rightarrow>
     (outcome + send_result \<times> OutgoingTransfer) \<times> FileTransferSession" where
  "offer_file s stamp transfer_id addr_key filepath =
     (case (read_file (ts_fs s) filepath, sha256_file (ts_fs s) filepath DEFAULT_HASH_CHUNK_SIZE) of
        (Some content, Some checksum) \<Rightarrow>
          let filename = path_basename filepath;
              transfer = \<lparr>ot_addr_key = addr_key, ot_filepath = filepath, ot_filename = filename,
                ot_size = length content, ot_checksum = checksum, ot_status = Offered,
                ot_ack_event = False, ot_ack_success = False\<rparr>;
              (ok, m) = manager_send (ts_manager s) addr_key
                (make_file_offer stamp transfer_id [] [] filename (int (length content)) checksum) in
          (Inr (ok, transfer), s\<lparr>ts_manager := m\<rparr>)
      | _ \<Rightarrow> (Inl TsFileNotFoundError, s))"

definition offer_file_resume ::
  "FileTransferSession \<Rightarrow> pystr \<Rightarrow> send_result \<Rightarrow> OutgoingTransfer \<Rightarrow> (outcome + pystr option) \<times> FileTransferSession" where
  "offer_file_resume s transfer_id ok transfer =
     (case ok of
        SendRaises e \<Rightarrow> (Inl (TsSendError e), s)
      | NotConnected \<Rightarrow> (Inr None, s)
      | Sent \<Rightarrow>
          (Inr (Some transfer_id),
           s\<lparr>ts_objects := dict_set (ts_objects s) transfer_id transfer,
             ts_outgoing := List.insert transfer_id (ts_outgoing s)\<rparr>))"

text \<open>\<^verbatim>\<open>self._outgoing.get(message["transfer_id"])\<close>; the keys of this table are strings.\<close>

definition outgoing_get :: "FileTransferSession \<Rightarrow> json \<Rightarrow> outcome + (pystr \<times> OutgoingTransfer) option" where
  "outgoing_get s message =
     (case jget message (lit ''transfer_id'') of
        None \<Rightarrow> Inl (TsKeyError (lit ''transfer_id''))
      | Some v \<Rightarrow>
          (case dict_key v of
             None \<Rightarrow> Inl TsTypeError
           | Some (JStr t) \<Rightarrow>
               Inr (if t \<in> set (ts_outgoing s) then map_option (Pair t) (map_of (ts_objects s) t) else None)
           | Some _ \<Rightarrow> Inr None))"

definition set_object :: "FileTransferSession \<Rightarrow> pystr \<Rightarrow> OutgoingTransfer \<Rightarrow> FileTransferSession" where
  "set_object s t transfer = s\<lparr>ts_objects := dict_set (ts_objects s) t transfer\<rparr>"

definition outgoing_pop :: "FileTransferSession \<Rightarrow> pystr \<Rightarrow> FileTransferSession" where
  "outgoing_pop s t = s\<lparr>ts_outgoing := removeAll t (ts_outgoing s)\<rparr>"

definition handle_accept :: "FileTransferSession \<Rightarrow> json \<Rightarrow> outcome \<times> FileTransferSession" where
  "handle_accept s message =
     (case outgoing_get s message of
        Inl e \<Rightarrow> (e, s)
      | Inr None \<Rightarrow> (Finished, s)
      | Inr (Some (t, transfer)) \<Rightarrow>
          (Finished, (set_object s t (transfer\<lparr>ot_status := Sending\<rparr>))\<lparr>ts_tasks := ts_tasks s @ [t]\<rparr>))"

definition handle_reject :: "FileTransferSession \<Rightarrow> json \<Rightarrow> outcome \<times> FileTransferSession" where
  "handle_reject s message =
     (case outgoing_get s message of
        Inl e \<Rightarrow> (e, s)
      | Inr None \<Rightarrow> (Finished, s)
      | Inr (Some (t, transfer)) \<Rightarrow>
          (Finished,
           outgoing_pop (notify_complete (set_object s t (transfer\<lparr>ot_status := Rejected\<rparr>))
             (JStr t) False None (Some (lit ''rejected''))) t))"

definition handle_complete_ack :: "FileTransferSession \<Rightarrow> json \<Rightarrow> outcome \<times> FileTransferSession" where
  "handle_complete_ack s message =
     (case outgoing_get s message of
        Inl e \<Rightarrow> (e, s)
      | Inr None \<Rightarrow> (Finished, s)
      | Inr (Some (t, transfer)) \<Rightarrow>
          (Finished,
           set_object s t (transfer\<lparr>
             ot_ack_success := (case jget message (lit ''success'') of None \<Rightarrow> False | Some v \<Rightarrow> truthy v),
             ot_ack_event := True\<rparr>)))"

datatype chunk_result = ChunksSent | ChunkFailed | ChunkRaises frame_error

fun send_chunk_list ::
  "FileTransferSession \<Rightarrow> pystr \<Rightarrow> OutgoingTransfer \<Rightarrow> nat \<Rightarrow> chunk list \<Rightarrow> chunk_result \<times> FileTransferSession" where
  "send_chunk_list s t transfer bytes_sent [] = (ChunksSent, s)"
| "send_chunk_list s t transfer bytes_sent ((index, offset, chunk) # cs) =
     (case encode_file_data t (int index) (int offset) chunk of
        Inl e \<Rightarrow> (ChunkRaises e, s)
      | Inr payload \<Rightarrow>
          (case manager_send_binary (ts_manager s) (ot_addr_key transfer) payload of
             (SendRaises e, m) \<Rightarrow> (ChunkRaises e, s\<lparr>ts_manager := m\<rparr>)
           | (NotConnected, m) \<Rightarrow> (ChunkFailed, s\<lparr>ts_manager := m\<rparr>)
           | (Sent, m) \<Rightarrow>
               send_chunk_list
                 (notify_progress (s\<lparr>ts_manager := m\<rparr>) (JStr t) (bytes_sent + length chunk)
                    (int (ot_size transfer)) True)
                 t transfer (bytes_sent + length chunk) cs))"

text \<open>
  \<^verbatim>\<open>_send_chunks\<close>: the loop and the closing message, then the end of the wait. The \<^verbatim>\<open>finally\<close>
  clause drops the table entry on every way out.
\<close>

definition send_chunks_failed :: "FileTransferSession \<Rightarrow> pystr \<Rightarrow> OutgoingTransfer \<Rightarrow> pystr \<Rightarrow> FileTransferSession" where
  "send_chunks_failed s t transfer error =
     outgoing_pop (notify_complete (set_object s t (transfer\<lparr>ot_status := Failed\<rparr>)) (JStr t) False None (Some error)) t"

definition send_chunks :: "FileTransferSession \<Rightarrow> pystr \<Rightarrow> outcome \<times> FileTransferSession" where
  "send_chunks s t =
     (case map_of (ts_objects s) t of
        None \<Rightarrow> (Finished, s)
      | Some transfer \<Rightarrow>
          (case read_chunks (ts_fs s) (ot_filepath transfer) 0 CHUNK_SIZE of
             Inl _ \<Rightarrow> (Finished, send_chunks_failed s t transfer (lit ''os_error''))
           | Inr cs \<Rightarrow>
               (case send_chunk_list s t transfer 0 cs of
                  (ChunkRaises e, s) \<Rightarrow> (TsSendError e, outgoing_pop s t)
                | (ChunkFailed, s) \<Rightarrow> (Finished, send_chunks_failed s t transfer (lit ''send_failed''))
                | (ChunksSent, s) \<Rightarrow>
                    (case send_then s (ot_addr_key transfer) (make_file_done t (ot_checksum transfer))
                        (\<lambda>s. (Finished, set_object s t (transfer\<lparr>ot_status := AwaitingAck\<rparr>))) of
                       (Finished, s) \<Rightarrow> (Finished, s)
                     | (e, s) \<Rightarrow> (e, outgoing_pop s t)))))"

definition send_chunks_resume :: "FileTransferSession \<Rightarrow> pystr \<Rightarrow> FileTransferSession" where
  "send_chunks_resume s t =
     (case map_of (ts_objects s) t of
        None \<Rightarrow> s
      | Some transfer \<Rightarrow>
          let success = (ot_ack_event transfer \<and> ot_ack_success transfer) in
          outgoing_pop
            (notify_complete (set_object s t (transfer\<lparr>ot_status := (if success then Done else Failed)\<rparr>)) (JStr t) success
               (if success then Some (ot_filepath transfer) else None)
               (if success then None else Some (lit ''ack_failed_or_timeout''))) t)"

section \<open>The receiving side\<close>

definition handle_offer :: "FileTransferSession \<Rightarrow> pystr \<Rightarrow> pystr \<Rightarrow> json \<Rightarrow> outcome \<times> FileTransferSession" where
  "handle_offer s stamp addr_key message =
     (case (jget message (lit ''transfer_id''), jget message (lit ''filename''),
            Option.bind (jget message (lit ''size'')) as_int, jget message (lit ''checksum'')) of
        (Some transfer_id, Some (JStr filename), Some sz, Some (JStr checksum)) \<Rightarrow>
          let sender_name = (case jget message (lit ''sender_name'') of
                None \<Rightarrow> JStr (lit ''peer'')
              | Some v \<Rightarrow> if truthy v then v else JStr (lit ''peer''));
              reject = send_then s addr_key (transfer_reply ''file_reject'' stamp transfer_id) (Pair Finished) in
          if sz > MAX_INCOMING_FILE_SIZE then reject
          else if \<not> check_disk_space (ts_fs s) sz then reject
          else (case resolve_safe_dest_path (ts_fs s) filename (ts_downloads_dir s) of
             None \<Rightarrow> (Searching, s)
           | Some (Inl TransferSecurityError) \<Rightarrow> reject
           | Some (Inl _) \<Rightarrow> (TsValueError, s)
           | Some (Inr dest_path) \<Rightarrow>
               let offer = \<lparr>po_transfer_id = transfer_id, po_addr_key = addr_key, po_filename = filename,
                     po_size = sz, po_checksum = checksum, po_sender_name = sender_name,
                     po_sender_id = (case jget message (lit ''sender_id'') of None \<Rightarrow> JStr [] | Some v \<Rightarrow> v),
                     po_dest_path = dest_path\<rparr> in
               (Asking offer, s\<lparr>ts_offered := ts_offered s @ [offer]\<rparr>))
      | _ \<Rightarrow> (Unvalidated, s))"

text \<open>
  The rest of \<^verbatim>\<open>_handle_offer\<close>, once the user has decided. The partial file is opened before the
  identifier is used as a key.
\<close>

definition offer_decided ::
  "FileTransferSession \<Rightarrow> pystr \<Rightarrow> pending_offer \<Rightarrow> bool \<Rightarrow> outcome \<times> FileTransferSession" where
  "offer_decided s stamp p accept =
     (if \<not> accept
      then send_then s (po_addr_key p) (transfer_reply ''file_reject'' stamp (po_transfer_id p)) (Pair Finished)
      else
        let part_path = get_part_path (po_dest_path p);
            (h, fs) = open_wb (cleanup_part_file (ts_fs s) part_path) part_path;
            s = s\<lparr>ts_fs := fs\<rparr>;
            incoming = \<lparr>it_transfer_id = po_transfer_id p, it_addr_key = po_addr_key p,
              it_filename = po_filename p, it_size = po_size p, it_expected_checksum = po_checksum p,
              it_sender_name = po_sender_name p, it_dest_path = po_dest_path p, it_part_path = part_path,
              it_bytes_received = 0, it_expected_chunk_index = 0, it_status = Offered, it_handle = Some h\<rparr> in
        (case dict_key (po_transfer_id p) of
           None \<Rightarrow> (TsTypeError, s)
         | Some k \<Rightarrow>
             send_then (s\<lparr>ts_incoming := dict_set (ts_incoming s) k incoming\<rparr>) (po_addr_key p)
               (transfer_reply ''file_accept'' stamp (po_transfer_id p)) (Pair Finished)))"

definition unique_dest_path :: "FileTransferSession \<Rightarrow> pystr \<Rightarrow> pystr option" where
  "unique_dest_path s filename =
     (let (base, ext) = path_splitext filename in
      free_candidate (taken (ts_fs s)) (numbered (ts_downloads_dir s) base ext)
        (path_join (ts_downloads_dir s) filename) 1)"

definition remove_if_exists :: "filesystem \<Rightarrow> pystr \<Rightarrow> filesystem" where
  "remove_if_exists fs p =
     (if path_exists fs p then case os_remove fs p of None \<Rightarrow> fs | Some fs' \<Rightarrow> fs' else fs)"

text \<open>The key is that of an entry of the table, so it is never a list or an object.\<close>

definition incoming_pop :: "FileTransferSession \<Rightarrow> json \<Rightarrow> FileTransferSession" where
  "incoming_pop s transfer_id =
     (case dict_key transfer_id of None \<Rightarrow> s | Some k \<Rightarrow> s\<lparr>ts_incoming := dict_pop (ts_incoming s) k\<rparr>)"

definition abort_incoming :: "FileTransferSession \<Rightarrow> IncomingTransfer \<Rightarrow> pystr \<Rightarrow> outcome \<times> FileTransferSession" where
  "abort_incoming s transfer reason =
     (let s = incoming_pop s (it_transfer_id transfer);
          fs = (if it_part_path transfer \<noteq> [] \<and> path_exists (ts_fs s) (it_part_path transfer)
                then cleanup_part_file (ts_fs s) (it_part_path transfer) else ts_fs s);
          s = s\<lparr>ts_fs := remove_if_exists fs (it_dest_path transfer)\<rparr> in
      send_then s (it_addr_key transfer) (complete_ack (it_transfer_id transfer) False reason)
        (\<lambda>s. (Finished, notify_complete s (it_transfer_id transfer) False None (Some reason))))"

text \<open>
  The fields of a \<^verbatim>\<open>file_data\<close> message. The read loop makes one from a binary frame; a JSON message
  of that type is unknown to the validator, which lets it through.
\<close>

datatype chunk_data = RawBytes bytes | JsonData json

record chunk_message =
  ck_transfer_id :: "json option"
  ck_sequence :: "json option"
  ck_offset :: "json option"
  ck_data :: "chunk_data option"

fun chunk_message_of :: "dispatch \<Rightarrow> chunk_message" where
  "chunk_message_of (DispatchFile d) =
     \<lparr>ck_transfer_id = Some (JStr (fd_transfer_id d)), ck_sequence = Some (JInt (int (fd_sequence d))),
      ck_offset = Some (JInt (int (fd_offset d))), ck_data = Some (RawBytes (fd_data d))\<rparr>"
| "chunk_message_of (DispatchJson m) =
     \<lparr>ck_transfer_id = jget m (lit ''transfer_id''), ck_sequence = jget m (lit ''sequence''),
      ck_offset = jget m (lit ''offset''), ck_data = map_option JsonData (jget m (lit ''data''))\<rparr>"

fun chunk_len :: "chunk_data \<Rightarrow> nat option" where
  "chunk_len (RawBytes b) = Some (length b)"
| "chunk_len (JsonData v) = py_len v"

text \<open>
  \<^verbatim>\<open>_file_handle.write(data)\<close> and the bookkeeping after it; a binary file takes bytes only. The
  entry is an object, so the update is seen under the key it is stored at.
\<close>

definition write_incoming ::
  "FileTransferSession \<Rightarrow> json \<Rightarrow> IncomingTransfer \<Rightarrow> chunk_data \<Rightarrow> outcome \<times> FileTransferSession" where
  "write_incoming s k transfer data =
     (case (it_handle transfer, data) of
        (None, _) \<Rightarrow> (TsAttributeError, s)
      | (Some h, JsonData _) \<Rightarrow> (TsTypeError, s)
      | (Some h, RawBytes b) \<Rightarrow>
          let (h', fs) = handle_write (ts_fs s) h b;
              transfer = transfer\<lparr>it_handle := Some h', it_bytes_received := it_bytes_received transfer + length b,
                it_expected_chunk_index := it_expected_chunk_index transfer + 1\<rparr> in
          (Finished,
           notify_progress (s\<lparr>ts_fs := fs, ts_incoming := dict_set (ts_incoming s) k transfer\<rparr>)
             (it_transfer_id transfer) (it_bytes_received transfer) (it_size transfer) False))"

text \<open>The address the chunk came from is not looked at.\<close>

definition handle_chunk :: "FileTransferSession \<Rightarrow> chunk_message \<Rightarrow> outcome \<times> FileTransferSession" where
  "handle_chunk s message =
     (case ck_transfer_id message of
        None \<Rightarrow> (TsKeyError (lit ''transfer_id''), s)
      | Some v \<Rightarrow>
      (case dict_key v of
        None \<Rightarrow> (TsTypeError, s)
      | Some k \<Rightarrow>
      (case map_of (ts_incoming s) k of
        None \<Rightarrow> (Finished, s)
      | Some transfer \<Rightarrow>
      (case (ck_sequence message, ck_offset message) of
        (None, _) \<Rightarrow> (TsKeyError (lit ''sequence''), s)
      | (Some _, None) \<Rightarrow> (TsKeyError (lit ''offset''), s)
      | (Some sequence, Some offset) \<Rightarrow>
          if \<not> equals_nat sequence (it_expected_chunk_index transfer) \<or> \<not> equals_nat offset (it_bytes_received transfer)
          then abort_incoming s transfer (lit ''out-of-order chunk'')
          else
          (case ck_data message of
             None \<Rightarrow> (TsKeyError (lit ''data''), s)
           | Some data \<Rightarrow>
               (case chunk_len data of
                  None \<Rightarrow> (TsTypeError, s)
                | Some n \<Rightarrow>
                    if int (it_bytes_received transfer + n) > it_size transfer
                    then abort_incoming s transfer (lit ''declared size exceeded'')
                    else write_incoming s k transfer data))))))"

definition handle_done :: "FileTransferSession \<Rightarrow> pystr \<Rightarrow> json \<Rightarrow> outcome \<times> FileTransferSession" where
  "handle_done s addr_key message =
     (case jget message (lit ''transfer_id'') of
        None \<Rightarrow> (TsKeyError (lit ''transfer_id''), s)
      | Some v \<Rightarrow>
      (case dict_key v of
        None \<Rightarrow> (TsTypeError, s)
      | Some k \<Rightarrow>
      (case map_of (ts_incoming s) k of
        None \<Rightarrow> (Finished, s)
      | Some transfer \<Rightarrow>
          let s = s\<lparr>ts_incoming := dict_pop (ts_incoming s) k\<rparr> in
          (case sha256_file (ts_fs s) (it_part_path transfer) DEFAULT_HASH_CHUNK_SIZE of
             None \<Rightarrow> (TsFileNotFoundError, s)
           | Some actual_checksum \<Rightarrow>
               let success = (actual_checksum = it_expected_checksum transfer \<and>
                     int (it_bytes_received transfer) = it_size transfer) in
               send_then s addr_key (complete_ack (it_transfer_id transfer) success
                   (if success then [] else lit ''checksum mismatch''))
                 (\<lambda>s. if \<not> success
                   then (Finished, notify_complete (s\<lparr>ts_fs := cleanup_part_file (ts_fs s) (it_part_path transfer)\<rparr>)
                          (it_transfer_id transfer) False None (Some (lit ''checksum_mismatch'')))
                   else (case finalize_part_file (ts_fs s) (it_part_path transfer) (it_dest_path transfer) of
                      Inl _ \<Rightarrow> (TsFileNotFoundError, s)
                    | Inr fs \<Rightarrow>
                        (Finished, notify_complete (s\<lparr>ts_fs := fs\<rparr>) (it_transfer_id transfer) True
                           (Some (it_dest_path transfer)) None)))))))"

text \<open>The subscription to the event bus and the older chain of handlers make the same choice.\<close>

definition dispatch_transfer ::
  "FileTransferSession \<Rightarrow> pystr \<Rightarrow> pystr \<Rightarrow> dispatch \<Rightarrow> outcome \<times> FileTransferSession" where
  "dispatch_transfer s stamp addr_key d =
     (case d of
        DispatchFile _ \<Rightarrow> handle_chunk s (chunk_message_of d)
      | DispatchJson message \<Rightarrow>
          let is = (\<lambda>kind. jget message (lit ''type'') = Some (JStr (lit kind))) in
          if is ''file_offer'' then handle_offer s stamp addr_key message
          else if is ''file_accept'' then handle_accept s message
          else if is ''file_reject'' then handle_reject s message
          else if is ''file_data'' then handle_chunk s (chunk_message_of d)
          else if is ''file_done'' then handle_done s addr_key message
          else if is ''file_complete_ack'' then handle_complete_ack s message
          else (PassedOn, s))"

end
