(* ===== verification/Session_Safety.thy ===== *)
theory Session_Safety
  imports Transfer_Session
begin

text \<open>
  What the file transfer session guarantees and what it does not: a transfer is reported as
  received only when the published file has the announced hash, every way a handler can end
  for a validated message, and the consequences of offers that wait for a decision at the same
  time under the same name.
\<close>

section \<open>Sending leaves the rest alone\<close>

lemma send_then_rule:
  assumes "\<And>e m. P (TsSendError e, s\<lparr>ts_manager := m\<rparr>)" "\<And>m. P (k (s\<lparr>ts_manager := m\<rparr>))"
  shows "P (send_then s a msg k)"
  using assms by (simp add: send_then_def split: prod.split send_result.split)

lemma send_then_Pair_frame:
  "ts_fs (snd (send_then s a msg (Pair r))) = ts_fs s"
  "ts_incoming (snd (send_then s a msg (Pair r))) = ts_incoming s"
  "ts_completed (snd (send_then s a msg (Pair r))) = ts_completed s"
  by (rule send_then_rule; simp)+

section \<open>A reported file is verified\<close>

definition adds_failures :: "FileTransferSession \<Rightarrow> FileTransferSession \<Rightarrow> bool" where
  "adds_failures s s' \<longleftrightarrow>
     (\<exists>cs. ts_completed s' = ts_completed s @ cs \<and> (\<forall>c \<in> set cs. \<not> co_success c))"

lemma adds_failures_same: "ts_completed s' = ts_completed s \<Longrightarrow> adds_failures s s'"
  by (simp add: adds_failures_def)

lemma adds_failures_notify:
  "ts_completed s' = ts_completed s \<Longrightarrow> adds_failures s (notify_complete s' i False f e)"
  by (simp add: adds_failures_def notify_complete_def)

lemma abort_adds_failures: "adds_failures s (snd (abort_incoming s transfer reason))"
proof -
  have pop: "ts_completed (incoming_pop s i) = ts_completed s" for i
    by (simp add: incoming_pop_def split: option.split)
  show ?thesis
    unfolding abort_incoming_def Let_def
    by (rule send_then_rule) (simp_all add: adds_failures_same adds_failures_notify pop)
qed

lemma outgoing_handlers_add_failures:
  "adds_failures s (snd (handle_accept s m))"
  "adds_failures s (snd (handle_reject s m))"
  "adds_failures s (snd (handle_complete_ack s m))"
  by (auto simp: handle_accept_def handle_reject_def handle_complete_ack_def set_object_def outgoing_pop_def
      adds_failures_def notify_complete_def split: sum.split option.split)

lemma offer_adds_failures: "adds_failures s (snd (handle_offer s stamp a m))"
  by (rule adds_failures_same)
    (simp add: handle_offer_def Let_def send_then_Pair_frame
      split: option.split json.split sum.split transfer_error.split)

lemma chunk_adds_failures: "adds_failures s (snd (handle_chunk s m))"
proof -
  have w: "adds_failures s (snd (write_incoming s k t d))" for k t d
    by (rule adds_failures_same)
      (simp add: write_incoming_def notify_progress_def handle_write_def split: option.split chunk_data.split)
  show ?thesis
    by (simp add: handle_chunk_def w abort_adds_failures adds_failures_same split: option.split)
qed

text \<open>What \<^verbatim>\<open>_handle_done\<close> does after the acknowledgement.\<close>

definition done_tail :: "IncomingTransfer \<Rightarrow> bool \<Rightarrow> FileTransferSession \<Rightarrow> outcome \<times> FileTransferSession" where
  "done_tail t success = (\<lambda>s.
     if \<not> success
     then (Finished, notify_complete (s\<lparr>ts_fs := cleanup_part_file (ts_fs s) (it_part_path t)\<rparr>)
            (it_transfer_id t) False None (Some (lit ''checksum_mismatch'')))
     else (case finalize_part_file (ts_fs s) (it_part_path t) (it_dest_path t) of
        Inl _ \<Rightarrow> (TsFileNotFoundError, s)
      | Inr fs \<Rightarrow> (Finished, notify_complete (s\<lparr>ts_fs := fs\<rparr>) (it_transfer_id t) True (Some (it_dest_path t)) None)))"

lemma read_file_finalize:
  "read_file fs p = Some content \<Longrightarrow>
     \<exists>fs'. finalize_part_file fs p q = Inr fs' \<and> read_file fs' q = Some content"
  by (auto simp: finalize_part_file_def os_replace_def read_file_def)

lemma done_tail_result:
  assumes "read_file (ts_fs s) (it_part_path t) = Some content"
  shows "if success
    then \<exists>fs'. done_tail t True s = (Finished, notify_complete (s\<lparr>ts_fs := fs'\<rparr>) (it_transfer_id t) True
        (Some (it_dest_path t)) None) \<and> read_file fs' (it_dest_path t) = Some content
    else done_tail t False s = (Finished, notify_complete (s\<lparr>ts_fs := cleanup_part_file (ts_fs s) (it_part_path t)\<rparr>)
        (it_transfer_id t) False None (Some (lit ''checksum_mismatch'')))"
  using read_file_finalize [OF assms, of "it_dest_path t"] by (auto simp: done_tail_def)

lemma done_verifies:
  assumes "ts_completed (snd (handle_done s a m)) = ts_completed s @ cs" "c \<in> set cs" "co_success c"
  shows "\<exists>k t content. map_of (ts_incoming s) k = Some t \<and> co_transfer_id c = it_transfer_id t \<and>
    co_filepath c = Some (it_dest_path t) \<and> int (it_bytes_received t) = it_size t \<and>
    sha256_hex content = it_expected_checksum t \<and> read_file (ts_fs s) (it_part_path t) = Some content \<and>
    read_file (ts_fs (snd (handle_done s a m))) (it_dest_path t) = Some content"
proof -
  let ?r = "handle_done s a m"
  have none: False if "ts_completed (snd ?r) = ts_completed s" using that assms(1,2) by simp
  then obtain v k where v: "jget m (lit ''transfer_id'') = Some v" and k: "dict_key v = Some k"
    by (cases "jget m (lit ''transfer_id'')"; cases "dict_key (the (jget m (lit ''transfer_id'')))")
      (simp_all add: handle_done_def)
  with none obtain t where t: "map_of (ts_incoming s) k = Some t"
    by (cases "map_of (ts_incoming s) k") (simp_all add: handle_done_def)
  let ?s = "s\<lparr>ts_incoming := dict_pop (ts_incoming s) k\<rparr>"
  from none v k t obtain content where c: "read_file (ts_fs s) (it_part_path t) = Some content"
    by (cases "read_file (ts_fs s) (it_part_path t)") (simp_all add: handle_done_def sha256_file_whole)
  let ?good = "sha256_hex content = it_expected_checksum t \<and> int (it_bytes_received t) = it_size t"
  have r: "?r = send_then ?s a (complete_ack (it_transfer_id t) ?good (if ?good then [] else lit ''checksum mismatch''))
      (done_tail t ?good)"
    by (simp add: handle_done_def v k t c sha256_file_whole Let_def done_tail_def)
  have "(\<exists>cs. ts_completed (snd ?r) = ts_completed s @ cs \<and> (\<forall>c \<in> set cs. \<not> co_success c)) \<or>
     ?good \<and> (\<exists>d. ts_completed (snd ?r) = ts_completed s @ [d] \<and> co_transfer_id d = it_transfer_id t \<and>
       co_filepath d = Some (it_dest_path t)) \<and> read_file (ts_fs (snd ?r)) (it_dest_path t) = Some content"
  proof (unfold r, rule send_then_rule)
    fix m
    show "(\<exists>cs. ts_completed (snd (done_tail t ?good (?s\<lparr>ts_manager := m\<rparr>))) = ts_completed s @ cs \<and>
          (\<forall>c \<in> set cs. \<not> co_success c)) \<or>
       ?good \<and> (\<exists>d. ts_completed (snd (done_tail t ?good (?s\<lparr>ts_manager := m\<rparr>))) = ts_completed s @ [d] \<and>
         co_transfer_id d = it_transfer_id t \<and> co_filepath d = Some (it_dest_path t)) \<and>
       read_file (ts_fs (snd (done_tail t ?good (?s\<lparr>ts_manager := m\<rparr>)))) (it_dest_path t) = Some content"
      using done_tail_result [of "?s\<lparr>ts_manager := m\<rparr>" t content ?good] c
      by (cases ?good) (auto simp: notify_complete_def)
  qed simp
  with assms have ?good and "co_transfer_id c = it_transfer_id t" "co_filepath c = Some (it_dest_path t)"
    and "read_file (ts_fs (snd ?r)) (it_dest_path t) = Some content"
    by auto
  with t c show ?thesis by blast
qed

lemma dispatch_verifies:
  assumes "ts_completed (snd (dispatch_transfer s stamp a d)) = ts_completed s @ cs" "c \<in> set cs" "co_success c"
  shows "\<exists>k t content. map_of (ts_incoming s) k = Some t \<and> co_transfer_id c = it_transfer_id t \<and>
    co_filepath c = Some (it_dest_path t) \<and> int (it_bytes_received t) = it_size t \<and>
    sha256_hex content = it_expected_checksum t \<and> read_file (ts_fs s) (it_part_path t) = Some content \<and>
    read_file (ts_fs (snd (dispatch_transfer s stamp a d))) (it_dest_path t) = Some content"
proof -
  have no: "\<not> adds_failures s (snd (dispatch_transfer s stamp a d))"
    using assms by (auto simp: adds_failures_def)
  then obtain m where "dispatch_transfer s stamp a d = handle_done s a m"
    by (cases d) (auto simp: dispatch_transfer_def Let_def chunk_adds_failures offer_adds_failures
        outgoing_handlers_add_failures adds_failures_same split: if_splits)
  with done_verifies [of s a m cs c] assms show ?thesis by simp
qed


section \<open>Offers that wait at the same time\<close>

lemma asking_offer:
  assumes "handle_offer s stamp a m = (Asking p, s')"
  shows "ts_fs s' = ts_fs s" "ts_downloads_dir s' = ts_downloads_dir s"
    and "\<exists>filename. jget m (lit ''filename'') = Some (JStr filename) \<and>
      resolve_safe_dest_path (ts_fs s) filename (ts_downloads_dir s) = Some (Inr (po_dest_path p))"
proof -
  have no: "send_then s a msg (Pair Finished) \<noteq> (Asking p, s')" for msg
    by (rule send_then_rule) simp_all
  from assms show "ts_fs s' = ts_fs s" "ts_downloads_dir s' = ts_downloads_dir s"
    "\<exists>filename. jget m (lit ''filename'') = Some (JStr filename) \<and>
      resolve_safe_dest_path (ts_fs s) filename (ts_downloads_dir s) = Some (Inr (po_dest_path p))"
    by (auto simp: handle_offer_def Let_def no
        split: option.splits json.splits if_splits sum.splits transfer_error.splits)
qed

lemma cleanup_names_iff:
  assumes "p \<notin> set (fs_locked fs)"
  shows "map_of (fs_names (cleanup_part_file fs p)) = (map_of (fs_names fs))(p := None)"
    and "fs_next (cleanup_part_file fs p) = fs_next fs" "fs_locked (cleanup_part_file fs p) = fs_locked fs"
  using assms by (auto simp: cleanup_part_file_def os_remove_def path_exists_def path_isfile_def)

lemma remove_if_exists_file:
  "path_isfile fs p \<Longrightarrow> p \<notin> set (fs_locked fs) \<Longrightarrow> read_file (remove_if_exists fs p) p = None"
  by (simp add: remove_if_exists_def path_exists_def os_remove_def read_file_def)

text \<open>After the user has accepted, the partial file is a new one and the entry is open on it.\<close>

definition accepted_entry :: "pending_offer \<Rightarrow> nat \<Rightarrow> IncomingTransfer" where
  "accepted_entry p inode =
     \<lparr>it_transfer_id = po_transfer_id p, it_addr_key = po_addr_key p, it_filename = po_filename p,
      it_size = po_size p, it_expected_checksum = po_checksum p, it_sender_name = po_sender_name p,
      it_dest_path = po_dest_path p, it_part_path = get_part_path (po_dest_path p), it_bytes_received = 0,
      it_expected_chunk_index = 0, it_status = Offered, it_handle = Some \<lparr>h_inode = inode, h_pos = 0\<rparr>\<rparr>"

lemma accepted_offer:
  assumes "dict_key (po_transfer_id p) = Some k" "get_part_path (po_dest_path p) \<notin> set (fs_locked (ts_fs s))"
  shows "\<exists>t. ts_incoming (snd (offer_decided s stamp p True)) = dict_set (ts_incoming s) k t \<and>
      it_handle t = Some \<lparr>h_inode = fs_next (ts_fs s), h_pos = 0\<rparr> \<and> it_part_path t = get_part_path (po_dest_path p) \<and>
      it_dest_path t = po_dest_path p \<and> it_transfer_id t = po_transfer_id p \<and>
      it_expected_chunk_index t = 0 \<and> it_bytes_received t = 0 \<and>
      it_size t = po_size p \<and> it_expected_checksum t = po_checksum p"
    and "map_of (fs_names (ts_fs (snd (offer_decided s stamp p True)))) =
      (map_of (fs_names (ts_fs s)))(get_part_path (po_dest_path p) \<mapsto> fs_next (ts_fs s))"
    and "fs_next (ts_fs (snd (offer_decided s stamp p True))) = Suc (fs_next (ts_fs s))"
    and "fs_locked (ts_fs (snd (offer_decided s stamp p True))) = fs_locked (ts_fs s)"
proof -
  note run = offer_decided_def Let_def open_wb_def cleanup_names_iff [OF assms(2)] send_then_Pair_frame assms(1)
  show "\<exists>t. ts_incoming (snd (offer_decided s stamp p True)) = dict_set (ts_incoming s) k t \<and>
      it_handle t = Some \<lparr>h_inode = fs_next (ts_fs s), h_pos = 0\<rparr> \<and> it_part_path t = get_part_path (po_dest_path p) \<and>
      it_dest_path t = po_dest_path p \<and> it_transfer_id t = po_transfer_id p \<and>
      it_expected_chunk_index t = 0 \<and> it_bytes_received t = 0 \<and>
      it_size t = po_size p \<and> it_expected_checksum t = po_checksum p"
    by (rule exI [where x = "accepted_entry p (fs_next (ts_fs s))"]) (simp add: run accepted_entry_def)
qed (simp_all add: offer_decided_def Let_def open_wb_def cleanup_names_iff send_then_Pair_frame assms)

text \<open>
  Two offers of the same name that wait for the user at the same time get the
  same destination. When both are accepted, in that order, the first transfer goes on writing to
  a file that its partial path no longer names, so the file it would hash and publish at the end
  is not the one it has received.
\<close>

theorem waiting_offers_collide:
  assumes "handle_offer s stamp1 a1 m1 = (Asking p, s1)" "handle_offer s1 stamp2 a2 m2 = (Asking q, s2)"
    and "jget m1 (lit ''filename'') = jget m2 (lit ''filename'')"
    and "dict_key (po_transfer_id p) = Some k" "dict_key (po_transfer_id q) = Some l" "k \<noteq> l"
    and "get_part_path (po_dest_path p) \<notin> set (fs_locked (ts_fs s))"
  shows "po_dest_path p = po_dest_path q \<and>
    (\<exists>t h. map_of (ts_incoming (snd (offer_decided (snd (offer_decided s2 stamp3 p True)) stamp4 q True))) k = Some t \<and>
       it_handle t = Some h \<and>
       map_of (fs_names (ts_fs (snd (offer_decided (snd (offer_decided s2 stamp3 p True)) stamp4 q True))))
         (it_part_path t) \<noteq> Some (h_inode h))"
proof -
  have fs: "ts_fs s2 = ts_fs s" and same: "po_dest_path p = po_dest_path q"
    using asking_offer [OF assms(1)] asking_offer [OF assms(2)] assms(3) by auto
  let ?s3 = "snd (offer_decided s2 stamp3 p True)"
  have free: "get_part_path (po_dest_path p) \<notin> set (fs_locked (ts_fs s2))" using assms(7) fs by simp
  note first = accepted_offer [OF assms(4) free, of stamp3]
  have "get_part_path (po_dest_path q) \<notin> set (fs_locked (ts_fs ?s3))" using free first(4) same by simp
  note second = accepted_offer [OF assms(5) this, of stamp4]
  from first(1) second(1) assms(6) show ?thesis
    using first(3) second(2) same by auto
qed

text \<open>
  Claim C36. An offer that has been waiting while a file was published under its
  destination, once accepted, lets whoever sends an out-of-order chunk with its identifier
  delete that file.
\<close>

theorem waiting_offer_deletes_file:
  assumes "read_file (ts_fs s) (po_dest_path q) = Some content"
    and "po_transfer_id q = JStr (fd_transfer_id d)" "fd_sequence d \<noteq> 0"
    and "po_dest_path q \<notin> set (fs_locked (ts_fs s))" "get_part_path (po_dest_path q) \<notin> set (fs_locked (ts_fs s))"
  shows "read_file (ts_fs (snd (dispatch_transfer (snd (offer_decided s stamp q True)) stamp2 b (DispatchFile d))))
    (po_dest_path q) = None"
proof -
  let ?s = "snd (offer_decided s stamp q True)"
  have key: "dict_key (po_transfer_id q) = Some (JStr (fd_transfer_id d))" using assms(2) by simp
  note acc = accepted_offer [OF key assms(5), of stamp]
  from acc(1) obtain t where t: "map_of (ts_incoming ?s) (JStr (fd_transfer_id d)) = Some t"
    and part: "it_part_path t = get_part_path (po_dest_path q)" and dest: "it_dest_path t = po_dest_path q"
    and zero: "it_expected_chunk_index t = 0"
    by auto
  have run: "dispatch_transfer ?s stamp2 b (DispatchFile d) = abort_incoming ?s t (lit ''out-of-order chunk'')"
    using assms(3) t zero by (simp add: dispatch_transfer_def handle_chunk_def equals_nat_def)
  have gone: "read_file (remove_if_exists fs (po_dest_path q)) (po_dest_path q) = None"
    if "fs = ts_fs ?s \<or> fs = cleanup_part_file (ts_fs ?s) (get_part_path (po_dest_path q))" for fs
  proof (rule remove_if_exists_file)
    show "path_isfile fs (po_dest_path q)" "po_dest_path q \<notin> set (fs_locked fs)"
      using that assms(1,4,5) acc(2,4) by (auto simp: path_isfile_def read_file_def cleanup_names_iff)
  qed
  have pop: "ts_fs (incoming_pop s' i) = ts_fs s'" for s' i
    by (simp add: incoming_pop_def split: option.split)
  show ?thesis
    unfolding run abort_incoming_def Let_def
    by (rule send_then_rule) (simp_all add: gone pop part dest notify_complete_def)
qed

section \<open>A validated offer is answered\<close>

lemma validated_offer_handled:
  assumes "validate_message m = Inr m'" "jget m (lit ''type'') = Some (JStr (lit ''file_offer''))"
  shows "fst (handle_offer s stamp a m) \<noteq> Unvalidated"
proof -
  have no: "fst (send_then s a msg (Pair Finished)) \<noteq> Unvalidated" for msg
    by (rule send_then_rule) simp_all
  have "conforms m" using assms(1) by (simp add: validate_iff_schema)
  then obtain v f i c where "jget m (lit ''transfer_id'') = Some v" "jget m (lit ''filename'') = Some (JStr f)"
    "Option.bind (jget m (lit ''size'')) as_int = Some i" "jget m (lit ''checksum'') = Some (JStr c)"
    using assms(2)
    by (auto simp: conforms_def schema_def lit_def nonempty_str_def nonneg_int_def is_str_def
        split: option.splits json.splits)
  then show ?thesis
    by (simp add: handle_offer_def Let_def no split: option.split sum.split transfer_error.split)
qed

section \<open>Witnesses\<close>

definition toy_session :: FileTransferSession where
  "toy_session = \<lparr>ts_manager = new_manager 4, ts_fs = toy_fs, ts_downloads_dir = lit ''/d'', ts_objects = [],
     ts_outgoing = [], ts_tasks = [],
     ts_incoming = [(JStr (lit ''t''),
       \<lparr>it_transfer_id = JStr (lit ''t''), it_addr_key = lit ''a'', it_filename = lit ''f'', it_size = 1,
        it_expected_checksum = sha256_hex [1], it_sender_name = JStr (lit ''ann''), it_dest_path = lit ''/d/f'',
        it_part_path = lit ''/d/f.part'', it_bytes_received = 1, it_expected_chunk_index = 1, it_status = Offered,
        it_handle = Some \<lparr>h_inode = 1, h_pos = 1\<rparr>\<rparr>)],
     ts_offered = [], ts_progress = [], ts_completed = []\<rparr>"

lemma send_then_new: "ts_manager s = new_manager n \<Longrightarrow> send_then s a msg k = k s"
  by (cases s) (simp add: send_then_def manager_send_def send_bytes_def new_manager_def)


definition toy_offer :: "string \<Rightarrow> json" where
  "toy_offer i = make_file_offer (lit ''0.5'') (lit i) [] [] (lit ''g'') 3 (lit ''c'')"

definition toy_pending :: "string \<Rightarrow> pending_offer" where
  "toy_pending i = \<lparr>po_transfer_id = JStr (lit i), po_addr_key = lit ''a'', po_filename = lit ''g'', po_size = 3,
     po_checksum = lit ''c'', po_sender_name = JStr (lit ''peer''), po_sender_id = JStr [], po_dest_path = lit ''/d/g''\<rparr>"

lemma toy_resolve: "resolve_safe_dest_path toy_fs (lit ''g'') (lit ''/d'') = Some (Inr (lit ''/d/g''))"
  by (simp add: resolve_safe_dest_path_def toy_fs_def lit_def SEP_def DOT_def py_strip_def is_py_space_def
      path_basename_def path_splitext_def path_join_def free_candidate.simps taken_def path_exists_def path_isfile_def
      get_part_path_def PART_EXTENSION_def path_commonpath_def path_components_def Let_def)

lemma toy_asks:
  "ts_fs s = toy_fs \<Longrightarrow> ts_downloads_dir s = lit ''/d'' \<Longrightarrow>
     handle_offer s [] (lit ''a'') (toy_offer i) = (Asking (toy_pending i), s\<lparr>ts_offered := ts_offered s @ [toy_pending i]\<rparr>)"
  using toy_resolve
  by (simp add: handle_offer_def toy_offer_def toy_pending_def make_file_offer_def typed_def lit_def Let_def
      MAX_INCOMING_FILE_SIZE_def check_disk_space_def truthy_def) (simp add: toy_fs_def)

theorem waiting_offers_collide_witness:
  "\<exists>p q s1 s2. handle_offer toy_session [] (lit ''a'') (toy_offer ''x'') = (Asking p, s1) \<and>
    handle_offer s1 [] (lit ''a'') (toy_offer ''y'') = (Asking q, s2) \<and> po_dest_path p = po_dest_path q"
proof -
  let ?s1 = "toy_session\<lparr>ts_offered := ts_offered toy_session @ [toy_pending ''x'']\<rparr>"
  let ?s2 = "?s1\<lparr>ts_offered := ts_offered ?s1 @ [toy_pending ''y'']\<rparr>"
  have p: "handle_offer toy_session [] (lit ''a'') (toy_offer ''x'') = (Asking (toy_pending ''x''), ?s1)"
    by (rule toy_asks) (simp_all add: toy_session_def)
  have q: "handle_offer ?s1 [] (lit ''a'') (toy_offer ''y'') = (Asking (toy_pending ''y''), ?s2)"
    by (rule toy_asks) (simp_all add: toy_session_def)
  have "po_dest_path (toy_pending ''x'') = po_dest_path (toy_pending ''y'')"
    using waiting_offers_collide [OF p q, of "JStr (lit ''x'')" "JStr (lit ''y'')"]
    by (simp add: toy_offer_def toy_pending_def make_file_offer_def typed_def lit_def toy_session_def toy_fs_def)
  with p q show ?thesis by blast
qed

theorem waiting_offer_deletes_file_witness:
  "read_file toy_fs (lit ''/s/f'') = Some [1, 2, 3] \<and>
   read_file (ts_fs (snd (dispatch_transfer
     (snd (offer_decided toy_session [] ((toy_pending ''x'')\<lparr>po_dest_path := lit ''/s/f''\<rparr>) True)) [] (lit ''b'')
     (DispatchFile \<lparr>fd_transfer_id = lit ''x'', fd_sequence = 1, fd_offset = 0, fd_data = []\<rparr>)))) (lit ''/s/f'') = None"
proof -
  let ?q = "(toy_pending ''x'')\<lparr>po_dest_path := lit ''/s/f''\<rparr>"
  let ?d = "\<lparr>fd_transfer_id = lit ''x'', fd_sequence = 1, fd_offset = 0, fd_data = []\<rparr>"
  have src: "read_file toy_fs (lit ''/s/f'') = Some [1, 2, 3]" by (simp add: read_file_def toy_fs_def)
  have "read_file (ts_fs toy_session) (po_dest_path ?q) = Some [1, 2, 3]" "po_transfer_id ?q = JStr (fd_transfer_id ?d)"
    "fd_sequence ?d \<noteq> 0" "po_dest_path ?q \<notin> set (fs_locked (ts_fs toy_session))"
    "get_part_path (po_dest_path ?q) \<notin> set (fs_locked (ts_fs toy_session))"
    using src by (simp_all add: toy_session_def toy_pending_def toy_fs_def)
  from waiting_offer_deletes_file [OF this, of "[]" "[]" "lit ''b''"] src show ?thesis by simp
qed

end
