(* ===== verification/Session_Delivery.thy ===== *)
theory Session_Delivery
  imports Session_Safety Message_Size
begin

text \<open>
  A file from one session to the other: the bytes the sending task writes to its connection,
  taken apart by the read loop of the other side and handed to its session, publish the same
  content.
\<close>

section \<open>The bytes the sender writes\<close>

definition link_up :: "ConnectionManager \<Rightarrow> pystr \<Rightarrow> nat \<Rightarrow> bool" where
  "link_up m addr c \<longleftrightarrow> map_of (cm_connections m) addr = Some c \<and> \<not> cn_broken (cm_objects m c)"

definition sent_on :: "ConnectionManager \<Rightarrow> nat \<Rightarrow> bytes" where
  "sent_on m c = cn_written (cm_objects m c)"

lemma sendable_wire: "sendable f \<Longrightarrow> encode_any f = Inr (wire_bytes f)"
  by (cases f) (auto simp: sendable_def wire_bytes_def encode_any_def encode_frame_Inr encode_binary_frame_def)

lemma send_bytes_up:
  assumes "link_up m addr c" "\<And>w. write w = Inr (w @ bs)"
  shows "\<exists>m'. send_bytes m addr write = (Sent, m') \<and> link_up m' addr c \<and> sent_on m' c = sent_on m c @ bs"
  using assms by (simp add: send_bytes_def link_up_def sent_on_def)

lemma manager_send_up:
  assumes "link_up m addr c" "sendable (JsonFrame v)"
  shows "\<exists>m'. manager_send m addr v = (Sent, m') \<and> link_up m' addr c \<and>
    sent_on m' c = sent_on m c @ wire_bytes (JsonFrame v)"
  unfolding manager_send_def
  using assms sendable_wire [OF assms(2)]
  by (intro send_bytes_up) (simp_all add: write_frame_def encode_any_def)

lemma manager_send_binary_up:
  assumes "link_up m addr c" "sendable (BinaryFrame p)"
  shows "\<exists>m'. manager_send_binary m addr p = (Sent, m') \<and> link_up m' addr c \<and>
    sent_on m' c = sent_on m c @ wire_bytes (BinaryFrame p)"
  unfolding manager_send_binary_def
  using assms sendable_wire [OF assms(2)]
  by (intro send_bytes_up) (simp_all add: write_binary_frame_def encode_any_def)

definition chunk_payload :: "bytes \<Rightarrow> chunk \<Rightarrow> bytes" where
  "chunk_payload u = (\<lambda>(i, off, c). u @ be_bytes 4 i @ be_bytes 8 off @ c)"

definition chunk_dispatch :: "bytes \<Rightarrow> chunk \<Rightarrow> dispatch" where
  "chunk_dispatch u = (\<lambda>(i, off, c).
     DispatchFile \<lparr>fd_transfer_id = uuid_str u, fd_sequence = i, fd_offset = off, fd_data = c\<rparr>)"

definition chunk_fits :: "chunk \<Rightarrow> bool" where
  "chunk_fits = (\<lambda>(i, off, c). i < 2 ^ 32 \<and> off < 2 ^ 64 \<and> length c \<le> CHUNK_SIZE)"

lemma chunk_payload_ok:
  assumes "length u = 16" "chunk_fits (i, off, c)"
  shows "encode_file_data (uuid_str u) (int i) (int off) c = Inr (chunk_payload u (i, off, c))"
    and "dispatch_of (BinaryFrame (chunk_payload u (i, off, c))) = Some (chunk_dispatch u (i, off, c))"
    and "sendable (BinaryFrame (chunk_payload u (i, off, c)))"
proof -
  have "be_nat (be_bytes 4 i) = i" "be_nat (be_bytes 8 off) = off"
    using assms(2) by (simp_all add: chunk_fits_def)
  then show "dispatch_of (BinaryFrame (chunk_payload u (i, off, c))) = Some (chunk_dispatch u (i, off, c))"
    using assms(1)
    by (simp add: dispatch_of_def decode_file_data_def HEADER_SIZE_def chunk_payload_def chunk_dispatch_def)
  show "encode_file_data (uuid_str u) (int i) (int off) c = Inr (chunk_payload u (i, off, c))"
    using assms by (simp add: encode_file_data_def uuid_parse_str chunk_payload_def chunk_fits_def)
  show "sendable (BinaryFrame (chunk_payload u (i, off, c)))"
    using assms by (auto simp: sendable_def chunk_payload_def chunk_fits_def CHUNK_SIZE_def DEFAULT_CHUNK_SIZE_def
        MAX_MESSAGE_SIZE_def)
qed

lemma send_chunk_list_up:
  assumes "length u = 16" "list_all chunk_fits cs" "link_up (ts_manager s) (ot_addr_key x) c"
  shows "\<exists>s'. send_chunk_list s (uuid_str u) x n cs = (ChunksSent, s') \<and>
    link_up (ts_manager s') (ot_addr_key x) c \<and>
    sent_on (ts_manager s') c =
      sent_on (ts_manager s) c @ concat (map (wire_bytes \<circ> BinaryFrame \<circ> chunk_payload u) cs)"
  using assms(2,3)
proof (induction cs arbitrary: s n)
  case (Cons chunk cs)
  obtain i off d where chunk: "chunk = (i, off, d)" by (cases chunk)
  then have fits: "chunk_fits (i, off, d)" using Cons.prems(1) by simp
  note ok = chunk_payload_ok [OF assms(1) fits]
  from manager_send_binary_up [OF Cons.prems(2) ok(3)] obtain m where
    m: "manager_send_binary (ts_manager s) (ot_addr_key x) (chunk_payload u (i, off, d)) = (Sent, m)"
      "link_up m (ot_addr_key x) c"
      "sent_on m c = sent_on (ts_manager s) c @ wire_bytes (BinaryFrame (chunk_payload u (i, off, d)))"
    by blast
  let ?s = "notify_progress (s\<lparr>ts_manager := m\<rparr>) (JStr (uuid_str u)) (n + length d) (int (ot_size x)) True"
  have "ts_manager ?s = m" by (simp add: notify_progress_def)
  with Cons.IH [of ?s "n + length d"] Cons.prems(1) m show ?case
    by (auto simp: chunk ok(1))
qed simp

lemma chunk_loop_fits:
  "0 < n \<Longrightarrow> n \<le> CHUNK_SIZE \<Longrightarrow> s + length rest \<le> 2 ^ 32 \<Longrightarrow> off + length rest \<le> 2 ^ 64 \<Longrightarrow>
     list_all chunk_fits (chunk_loop n s off rest)"
proof (induction n s off rest rule: chunk_loop.induct)
  case (1 n s off rest)
  show ?case
  proof (cases "rest = []")
    case False
    then have pos: "0 < length rest" by simp
    have "list_all chunk_fits (chunk_loop n (Suc s) (off + length (take n rest)) (drop n rest))"
    proof (rule "1.IH" [OF refl])
      show "take n rest \<noteq> []" "0 < n" "n \<le> CHUNK_SIZE" using 1 False by simp_all
      have "length (drop n rest) < length rest" "length (take n rest) + length (drop n rest) = length rest"
        using 1 pos by simp_all
      with 1 show "Suc s + length (drop n rest) \<le> 2 ^ 32" "off + length (take n rest) + length (drop n rest) \<le> 2 ^ 64"
        by linarith+
    qed
    moreover have "s < 2 ^ 32" "off < 2 ^ 64" using 1 pos by linarith+
    then have "chunk_fits (s, off, take n rest)" using 1 by (simp add: chunk_fits_def)
    ultimately show ?thesis
      using 1 False by (subst chunk_loop.simps) (simp add: Let_def)
  qed (subst chunk_loop.simps, simp)
qed

section \<open>The closing messages\<close>

lemma uuid_str_plain: "length u = 16 \<Longrightarrow> length (uuid_str u) = 36" "list_all is_ascii (uuid_str u)"
  using bytes_hex_ascii [of u]
  by (auto simp: uuid_str_def Let_def list_all_iff is_ascii_def dest: in_set_takeD in_set_dropD)

lemma closing_sendable:
  assumes "length u = 16"
  shows "sendable (JsonFrame (make_file_done (uuid_str u) (sha256_hex content)))"
    and "sendable (JsonFrame (make_file_complete_ack (uuid_str u) True []))"
proof -
  note b = json_dumps_leaf(1) [of "uuid_str u"] json_dumps_leaf(1) [of "sha256_hex content"] json_dumps_leaf(1) [of "[]"]
  note plain = uuid_str_plain(1) [OF assms] wf_str_ascii [OF uuid_str_plain(2)] wf_str_ascii [OF sha256_hex_ascii]
  have leaf: "length (json_dumps (JBool True)) = 4" by (simp add: json_dumps_def lit_def)
  note size = length_json_dumps_typed [THEN order_trans]
  have "length (json_dumps (make_file_done (uuid_str u) (sha256_hex content))) \<le> MAX_MESSAGE_SIZE"
    "length (json_dumps (make_file_complete_ack (uuid_str u) True [])) \<le> MAX_MESSAGE_SIZE"
    unfolding make_file_done_def make_file_complete_ack_def
    by (rule size; use b plain leaf in \<open>simp add: member_size_def MAX_MESSAGE_SIZE_def\<close>)+
  moreover have "wf_json (make_file_done (uuid_str u) (sha256_hex content))"
    "wf_json (make_file_complete_ack (uuid_str u) True [])"
    using plain by (simp_all add: make_file_done_def make_file_complete_ack_def typed_def dict_ok_def)
  ultimately show "sendable (JsonFrame (make_file_done (uuid_str u) (sha256_hex content)))"
    "sendable (JsonFrame (make_file_complete_ack (uuid_str u) True []))"
    by (simp_all add: sendable_def)
qed

lemma send_then_sendable:
  "sendable (JsonFrame msg) \<Longrightarrow> \<exists>m. send_then s a msg k = k (s\<lparr>ts_manager := m\<rparr>)"
  using sendable_wire [of "JsonFrame msg"]
  by (cases s, intro exI [of _ "snd (manager_send (ts_manager s) a msg)"])
    (simp add: send_then_def manager_send_def send_bytes_def write_frame_def encode_any_def Let_def split: option.split)

section \<open>The receiving session\<close>

definition deliver :: "pystr \<Rightarrow> pystr \<Rightarrow> FileTransferSession \<Rightarrow> dispatch list \<Rightarrow> FileTransferSession" where
  "deliver stamp a = foldl (\<lambda>s d. snd (dispatch_transfer s stamp a d))"

definition entry_at :: "FileTransferSession \<Rightarrow> json \<Rightarrow> IncomingTransfer \<Rightarrow> bytes \<Rightarrow> bool" where
  "entry_at s k t got \<longleftrightarrow> map_of (ts_incoming s) k = Some t \<and> it_bytes_received t = length got \<and>
     (\<exists>h. it_handle t = Some h \<and> h_pos h = length got \<and> fs_data (ts_fs s) (h_inode h) = got \<and>
        map_of (fs_names (ts_fs s)) (it_part_path t) = Some (h_inode h))"

definition same_offer :: "IncomingTransfer \<Rightarrow> IncomingTransfer \<Rightarrow> bool" where
  "same_offer t t' \<longleftrightarrow> it_size t' = it_size t \<and> it_dest_path t' = it_dest_path t \<and> it_part_path t' = it_part_path t \<and>
     it_expected_checksum t' = it_expected_checksum t \<and> it_transfer_id t' = it_transfer_id t"

lemma deliver_chunk:
  assumes "entry_at s (JStr (uuid_str u)) t got" "it_expected_chunk_index t = i"
    and "int (length got + length d) \<le> it_size t"
  shows "\<exists>t'. entry_at (snd (dispatch_transfer s stamp a (chunk_dispatch u (i, length got, d)))) (JStr (uuid_str u)) t' (got @ d) \<and>
    it_expected_chunk_index t' = Suc i \<and> same_offer t t'"
  using assms
  by (auto simp: entry_at_def dispatch_transfer_def chunk_dispatch_def handle_chunk_def equals_nat_def write_incoming_def
      handle_write_def notify_progress_def same_offer_def write_at_end)

lemma deliver_chunks:
  assumes "0 < n"
  shows "entry_at s (JStr (uuid_str u)) t got \<Longrightarrow> it_expected_chunk_index t = i \<Longrightarrow>
    int (length got + length rest) \<le> it_size t \<Longrightarrow>
    \<exists>t'. entry_at (deliver stamp a s (map (chunk_dispatch u) (chunk_loop n i (length got) rest))) (JStr (uuid_str u)) t'
      (got @ rest) \<and> same_offer t t'"
proof (induction "length rest" arbitrary: s t got i rest rule: less_induct)
  case less
  show ?case
  proof (cases "rest = []")
    case True
    with less.prems show ?thesis
      by (subst chunk_loop.simps) (auto simp: deliver_def same_offer_def)
  next
    case False
    let ?c = "take n rest"
    let ?s = "snd (dispatch_transfer s stamp a (chunk_dispatch u (i, length got, ?c)))"
    have "int (length got + length ?c) \<le> it_size t" using less.prems(3) by simp
    from deliver_chunk [OF less.prems(1,2) this] obtain t1 where
      t1: "entry_at ?s (JStr (uuid_str u)) t1 (got @ ?c)" "it_expected_chunk_index t1 = Suc i" "same_offer t t1"
      by blast
    have "int (length (got @ ?c) + length (drop n rest)) \<le> it_size t1"
      using less.prems(3) t1(3) by (simp add: same_offer_def)
    from less.hyps [OF _ t1(1,2) this] False assms obtain t2 where
      "entry_at (deliver stamp a ?s (map (chunk_dispatch u) (chunk_loop n (Suc i) (length (got @ ?c)) (drop n rest))))
        (JStr (uuid_str u)) t2 ((got @ ?c) @ drop n rest)" "same_offer t1 t2"
      by auto
    with False assms t1(3) show ?thesis
      by (subst chunk_loop.simps) (auto simp: Let_def deliver_def same_offer_def)
  qed
qed

lemma deliver_done:
  assumes "length u = 16" "entry_at s (JStr (uuid_str u)) t content" "it_transfer_id t = JStr (uuid_str u)"
    and "it_size t = int (length content)" "it_expected_checksum t = sha256_hex content"
  shows "\<exists>c. ts_completed (snd (dispatch_transfer s stamp a (DispatchJson (make_file_done (uuid_str u) ck)))) =
      ts_completed s @ [c] \<and> co_success c \<and> co_filepath c = Some (it_dest_path t) \<and>
    read_file (ts_fs (snd (dispatch_transfer s stamp a (DispatchJson (make_file_done (uuid_str u) ck))))) (it_dest_path t)
      = Some content"
proof -
  have r: "read_file (ts_fs s) (it_part_path t) = Some content"
    using assms(2) by (auto simp: entry_at_def read_file_def)
  let ?s = "s\<lparr>ts_incoming := dict_pop (ts_incoming s) (JStr (uuid_str u))\<rparr>"
  obtain m where m: "send_then ?s a (make_file_complete_ack (uuid_str u) True []) (done_tail t True)
      = done_tail t True (?s\<lparr>ts_manager := m\<rparr>)"
    using send_then_sendable [OF closing_sendable(2) [OF assms(1)]] by blast
  have "dispatch_transfer s stamp a (DispatchJson (make_file_done (uuid_str u) ck))
      = send_then ?s a (make_file_complete_ack (uuid_str u) True []) (done_tail t True)"
    using assms r
    by (simp add: dispatch_transfer_def handle_done_def make_file_done_def typed_def lit_def entry_at_def sha256_file_whole
        done_tail_def transfer_reply_str Let_def)
  with m done_tail_result [of "?s\<lparr>ts_manager := m\<rparr>" t content True] r show ?thesis
    by (auto simp: notify_complete_def)
qed

section \<open>From file to file\<close>

lemma read_loop_frames:
  "list_all (\<lambda>(f, d). sendable f \<and> dispatch_of f = Some d) fs \<Longrightarrow>
     fst (read_loop (concat (map (wire_bytes \<circ> fst) fs))) = map snd fs"
  by (induction fs) (auto simp: read_loop_frame read_loop_Nil)

lemma sender_writes:
  assumes "length u = 16" "map_of (ts_objects s) (uuid_str u) = Some x" "length content \<le> 2 ^ 31"
    and "read_file (ts_fs s) (ot_filepath x) = Some content" "ot_checksum x = sha256_hex content"
    and "link_up (ts_manager s) (ot_addr_key x) c" "sent_on (ts_manager s) c = []"
  shows "fst (send_chunks s (uuid_str u)) = Finished \<and>
    fst (read_loop (sent_on (ts_manager (snd (send_chunks s (uuid_str u)))) c)) =
      map (chunk_dispatch u) (chunk_loop CHUNK_SIZE 0 0 content) @
      [DispatchJson (make_file_done (uuid_str u) (sha256_hex content))]"
proof -
  let ?cs = "chunk_loop CHUNK_SIZE 0 0 content"
  let ?done = "make_file_done (uuid_str u) (sha256_hex content)"
  have fits: "list_all chunk_fits ?cs"
    using assms(3) by (intro chunk_loop_fits) (simp_all add: CHUNK_SIZE_def)
  from send_chunk_list_up [OF assms(1) fits assms(6), of 0] obtain s1 where
    s1: "send_chunk_list s (uuid_str u) x 0 ?cs = (ChunksSent, s1)" "link_up (ts_manager s1) (ot_addr_key x) c"
      "sent_on (ts_manager s1) c = concat (map (wire_bytes \<circ> BinaryFrame \<circ> chunk_payload u) ?cs)"
    using assms(7) by auto
  from manager_send_up [OF s1(2) closing_sendable(1) [OF assms(1)]] obtain m where
    m: "manager_send (ts_manager s1) (ot_addr_key x) ?done = (Sent, m)"
      "sent_on m c = sent_on (ts_manager s1) c @ wire_bytes (JsonFrame ?done)"
    by blast
  have run: "send_chunks s (uuid_str u) =
      (Finished, set_object (s1\<lparr>ts_manager := m\<rparr>) (uuid_str u) (x\<lparr>ot_status := AwaitingAck\<rparr>))"
    using assms(2,4,5) s1(1) m(1)
    by (simp add: send_chunks_def read_chunks_def send_then_def CHUNK_SIZE_def DEFAULT_CHUNK_SIZE_def)
  let ?fs = "map (\<lambda>ch. (BinaryFrame (chunk_payload u ch), chunk_dispatch u ch)) ?cs @ [(JsonFrame ?done, DispatchJson ?done)]"
  have "conforms ?done" using file_messages_conform(5) [of "[0]" "[0]" 0 0] by simp
  with fits have "list_all (\<lambda>(f, d). sendable f \<and> dispatch_of f = Some d) ?fs"
    using closing_sendable(1) [OF assms(1)] chunk_payload_ok(2,3) [OF assms(1)]
    by (auto simp: list_all_iff dispatch_of_def [of "JsonFrame _"])
  from read_loop_frames [OF this] show ?thesis
    by (simp add: run set_object_def m(2) s1(3) comp_def)
qed

lemma asking_fields:
  assumes "handle_offer r stamp b (make_file_offer now t sid name fname sz checksum) = (Asking p, r')"
  shows "po_transfer_id p = JStr t" "po_size p = sz" "po_checksum p = checksum" "sz \<le> MAX_INCOMING_FILE_SIZE"
proof -
  have no: "send_then r b msg (Pair Finished) \<noteq> (Asking p, r')" for msg
    by (rule send_then_rule) simp_all
  from assms show "po_transfer_id p = JStr t" "po_size p = sz" "po_checksum p = checksum" "sz \<le> MAX_INCOMING_FILE_SIZE"
    by (auto simp: handle_offer_def make_file_offer_def typed_def lit_def Let_def no
        split: if_splits option.splits sum.splits transfer_error.splits)
qed

lemma accepted_entry_at:
  assumes "po_transfer_id p = JStr t" "get_part_path (po_dest_path p) \<notin> set (fs_locked (ts_fs r))"
  shows "\<exists>e. entry_at (snd (offer_decided r stamp p True)) (JStr t) e [] \<and> it_expected_chunk_index e = 0 \<and>
    it_size e = po_size p \<and> it_expected_checksum e = po_checksum p \<and> it_dest_path e = po_dest_path p \<and>
    it_transfer_id e = JStr t"
proof -
  have key: "dict_key (po_transfer_id p) = Some (JStr t)" using assms(1) by simp
  have "fs_data (ts_fs (snd (offer_decided r stamp p True))) (fs_next (ts_fs r)) = []"
    using assms(2) by (simp add: offer_decided_def Let_def open_wb_def cleanup_names_iff send_then_Pair_frame key)
  with accepted_offer(1,2) [OF key assms(2), of stamp] assms(1) show ?thesis
    by (auto simp: entry_at_def)
qed


section \<open>Witness\<close>

definition toy_sending :: FileTransferSession where
  "toy_sending = toy_session\<lparr>ts_manager := add_connection (new_manager 4) (lit ''b'') False,
     ts_objects := [(uuid_str (replicate 16 7),
       \<lparr>ot_addr_key = lit ''b'', ot_filepath = lit ''/s/f'', ot_filename = lit ''g'', ot_size = 3,
        ot_checksum = sha256_hex [1, 2, 3], ot_status = Sending, ot_ack_event = False, ot_ack_success = False\<rparr>)]\<rparr>"


end
