(* ===== verification/Recovery_Code.thy ===== *)
theory Recovery_Code
  imports Security_Events Files
begin

text \<open>
  Recovery codes, \<^verbatim>\<open>core/vault/recovery_code.py\<close>: twenty bytes in Crockford's base 32 with a check
  character modulo 37. The random bytes are an argument. Every failure of the reader is the one
  exception \<^verbatim>\<open>RecoveryCodeError\<close>, \<open>None\<close> here.
\<close>

section \<open>Alphabets\<close>

definition RECOVERY_CODE_BYTES :: nat where
  "RECOVERY_CODE_BYTES = 20"

definition GROUP_SIZE :: nat where
  "GROUP_SIZE = 5"

definition DATA_ALPHABET :: pystr where
  "DATA_ALPHABET = lit ''0123456789ABCDEFGHJKMNPQRSTVWXYZ''"

definition CHECK_ALPHABET :: pystr where
  "CHECK_ALPHABET = DATA_ALPHABET @ lit ''*~$=U''"

definition DATA_INDEX :: "nat \<Rightarrow> nat option" where
  "DATA_INDEX ch = map_of (zip DATA_ALPHABET [0..<32]) ch"

section \<open>Encoding\<close>

definition encode_crockford :: "bytes \<Rightarrow> pystr" where
  "encode_crockford data =
     (let value = be_nat data; n_chars = (length data * 8 + 4) div 5 in
      map (\<lambda>i. DATA_ALPHABET ! (value div 2 ^ (5 * (n_chars - 1 - i)) mod 32)) [0..<n_chars])"

fun decode_value :: "nat \<Rightarrow> pystr \<Rightarrow> nat option" where
  "decode_value value [] = Some value"
| "decode_value value (ch # text) =
     (case DATA_INDEX ch of None \<Rightarrow> None | Some d \<Rightarrow> decode_value (value * 32 + d) text)"

definition decode_crockford :: "pystr \<Rightarrow> bytes option" where
  "decode_crockford text =
     (case decode_value 0 text of
        None \<Rightarrow> None
      | Some value \<Rightarrow>
          let n_bytes = length text * 5 div 8 in
          if value < 256 ^ n_bytes then Some (be_bytes n_bytes value) else None)"

definition checksum_char :: "bytes \<Rightarrow> nat" where
  "checksum_char data = CHECK_ALPHABET ! (be_nat data mod 37)"

definition generate_recovery_code :: "bytes \<Rightarrow> pystr" where
  "generate_recovery_code raw =
     (let full = encode_crockford raw @ [checksum_char raw] in
      join_with (lit ''-'')
        (map (\<lambda>i. take GROUP_SIZE (drop (GROUP_SIZE * i) full))
          [0..<(length full + GROUP_SIZE - 1) div GROUP_SIZE]))"

section \<open>Reading a code\<close>

text \<open>
  \<^verbatim>\<open>str.upper\<close> as far as a code can see it: besides the ASCII letters, ten characters have an upper
  case made of ASCII letters only. Every other character has an upper case with a character
  outside ASCII in it, which no alphabet has.
\<close>

definition upper_char :: "nat \<Rightarrow> pystr" where
  "upper_char c =
     (if 97 \<le> c \<and> c \<le> 122 then [c - 32]
      else case map_of [(0xdf, ''SS''), (0x131, ''I''), (0x17f, ''S''), (0xfb00, ''FF''), (0xfb01, ''FI''),
          (0xfb02, ''FL''), (0xfb03, ''FFI''), (0xfb04, ''FFL''), (0xfb05, ''ST''), (0xfb06, ''ST'')] c of
        Some s \<Rightarrow> lit s
      | None \<Rightarrow> [c])"

definition upper :: "pystr \<Rightarrow> pystr" where
  "upper s = concat (map upper_char s)"

definition NORMALIZE :: "nat \<Rightarrow> nat" where
  "NORMALIZE c = (if c \<in> {79, 111} then 48 else if c \<in> {73, 105, 76, 108} then 49 else c)"

definition clean_code :: "pystr \<Rightarrow> pystr" where
  "clean_code code =
     map NORMALIZE (filter (\<lambda>c. c \<noteq> 32) (filter (\<lambda>c. c \<noteq> 45) (upper (py_strip is_py_space code))))"

definition normalize_recovery_code :: "pystr \<Rightarrow> bytes option" where
  "normalize_recovery_code code =
     (let cleaned = clean_code code in
      if length cleaned < 2 then None
      else case decode_crockford (butlast cleaned) of
        None \<Rightarrow> None
      | Some raw \<Rightarrow>
          if length raw \<noteq> RECOVERY_CODE_BYTES then None
          else if last cleaned \<noteq> checksum_char raw then None
          else Some raw)"

section \<open>Values and digits\<close>

lemma length_alphabets [simp]: "length DATA_ALPHABET = 32" "length CHECK_ALPHABET = 37"
  by (simp_all add: DATA_ALPHABET_def CHECK_ALPHABET_def)

lemma distinct_CHECK: "distinct CHECK_ALPHABET"
  by (simp add: CHECK_ALPHABET_def DATA_ALPHABET_def lit_def)

lemma distinct_DATA: "distinct DATA_ALPHABET"
  using distinct_CHECK by (simp add: CHECK_ALPHABET_def)

lemma DATA_INDEX_nth [simp]: "d < 32 \<Longrightarrow> DATA_INDEX (DATA_ALPHABET ! d) = Some d"
  using map_of_zip_nth [of DATA_ALPHABET "[0..<32]" d] by (simp add: DATA_INDEX_def distinct_DATA)

lemma DATA_INDEX_less: "DATA_INDEX ch = Some d \<Longrightarrow> d < 32 \<and> ch = DATA_ALPHABET ! d"
  by (auto simp: DATA_INDEX_def dest!: map_of_SomeD simp: set_zip)

definition digits_value :: "nat list \<Rightarrow> nat" where
  "digits_value ds = foldl (\<lambda>v d. v * 32 + d) 0 ds"

lemma foldl_digits: "foldl (\<lambda>v d. v * 32 + d) v ds = v * 32 ^ length ds + digits_value ds"
proof (induction ds rule: rev_induct)
  case (snoc d ds)
  then show ?case by (simp add: digits_value_def algebra_simps)
qed (simp add: digits_value_def)

lemma digits_value_append: "digits_value (xs @ ys) = digits_value xs * 32 ^ length ys + digits_value ys"
  using foldl_digits [of "digits_value xs" ys] by (simp add: digits_value_def)

lemma digits_value_single [simp]: "digits_value [] = 0" "digits_value [d] = d"
  by (simp_all add: digits_value_def)

lemma digits_value_less: "\<forall>d \<in> set ds. d < 32 \<Longrightarrow> digits_value ds < 32 ^ length ds"
proof (induction ds rule: rev_induct)
  case (snoc d ds)
  then have "digits_value ds + 1 \<le> 32 ^ length ds" "d < 32" by simp_all
  then have "(digits_value ds + 1) * 32 \<le> 32 ^ length ds * 32" by (intro mult_right_mono) simp_all
  with \<open>d < 32\<close> show ?case by (simp add: digits_value_append)
qed simp

lemma decode_value_digits:
  "\<forall>d \<in> set ds. d < 32 \<Longrightarrow> decode_value v (map (\<lambda>d. DATA_ALPHABET ! d) ds) = Some (v * 32 ^ length ds + digits_value ds)"
proof (induction ds arbitrary: v)
  case (Cons d ds)
  have "digits_value (d # ds) = d * 32 ^ length ds + digits_value ds"
    using digits_value_append [of "[d]" ds] by simp
  with Cons show ?case by (simp add: algebra_simps)
qed simp

definition code_digits :: "nat \<Rightarrow> nat \<Rightarrow> nat list" where
  "code_digits n value = map (\<lambda>i. value div 2 ^ (5 * (n - 1 - i)) mod 32) [0..<n]"

lemma code_digits_less: "\<forall>d \<in> set (code_digits n value). d < 32"
  by (auto simp: code_digits_def)

lemma length_code_digits [simp]: "length (code_digits n value) = n"
  by (simp add: code_digits_def)

lemma code_digits_Suc: "code_digits (Suc n) value = code_digits n (value div 32) @ [value mod 32]"
proof -
  have "value div 2 ^ (5 * (n - i)) = value div 32 div 2 ^ (5 * (n - 1 - i))" if "i < n" for i
  proof -
    have "5 * (n - i) = 5 + 5 * (n - 1 - i)" using that by simp
    then show ?thesis by (simp only: power_add div_mult2_eq) simp
  qed
  then show ?thesis by (simp add: code_digits_def)
qed

lemma digits_value_code_digits: "digits_value (code_digits n value) = value mod 32 ^ n"
proof (induction n arbitrary: "value")
  case 0
  then show ?case by (simp add: code_digits_def)
next
  case (Suc n)
  have "value mod 32 ^ Suc n = value div 32 mod 32 ^ n * 32 + value mod 32"
    using mod_mult2_eq [of "value" 32 "32 ^ n"] by (simp add: mult.commute)
  then show ?case by (simp add: code_digits_Suc digits_value_append Suc)
qed

lemma encode_crockford_digits:
  "encode_crockford data = map (\<lambda>d. DATA_ALPHABET ! d) (code_digits ((length data * 8 + 4) div 5) (be_nat data))"
  by (simp add: encode_crockford_def code_digits_def Let_def)

text \<open>Thirty-two characters are exactly twenty bytes.\<close>

lemma decode_crockford_digits:
  assumes "\<forall>d \<in> set ds. d < 32" "length ds = 32"
  shows "decode_crockford (map (\<lambda>d. DATA_ALPHABET ! d) ds) = Some (be_bytes 20 (digits_value ds))"
proof -
  have "(256 :: nat) ^ 20 = 32 ^ 32" by simp
  with digits_value_less [OF assms(1)] assms(2) have "digits_value ds < 256 ^ 20" by simp
  with assms show ?thesis
    by (simp add: decode_crockford_def decode_value_digits Let_def)
qed

section \<open>Cleaning\<close>

lemma CHECK_codes:
  "CHECK_ALPHABET =
     [48, 49, 50, 51, 52, 53, 54, 55, 56, 57, 65, 66, 67, 68, 69, 70, 71, 72, 74, 75, 77, 78, 80, 81, 82, 83, 84, 86, 87, 88, 89, 90, 42, 126, 36, 61, 85]"
  by (simp add: CHECK_ALPHABET_def DATA_ALPHABET_def lit_def)

lemma CHECK_chars: "c \<in> set CHECK_ALPHABET \<Longrightarrow> upper_char c = [c] \<and> NORMALIZE c = c \<and> c \<noteq> 32 \<and> c \<noteq> 45 \<and> \<not> is_py_space c"
proof -
  have "list_all (\<lambda>c. upper_char c = [c] \<and> NORMALIZE c = c \<and> c \<noteq> 32 \<and> c \<noteq> 45 \<and> \<not> is_py_space c) CHECK_ALPHABET"
    unfolding CHECK_codes list.pred_inject
    by (simp add: upper_char_def NORMALIZE_def is_py_space_def)
  then show "c \<in> set CHECK_ALPHABET \<Longrightarrow> upper_char c = [c] \<and> NORMALIZE c = c \<and> c \<noteq> 32 \<and> c \<noteq> 45 \<and> \<not> is_py_space c"
    unfolding list_all_iff by blast
qed

lemma upper_fixed: "\<forall>c \<in> set s. upper_char c = [c] \<Longrightarrow> upper s = s"
  by (induction s) (simp_all add: upper_def)

lemma py_strip_fixed:
  assumes "s \<noteq> []" "\<not> sp (hd s)" "\<not> sp (last s)"
  shows "py_strip sp s = s"
proof -
  have "dropWhile sp s = s" using assms(1,2) by (cases s) simp_all
  moreover have "dropWhile sp (rev s) = rev s" using assms(1,3) by (cases s rule: rev_cases) simp_all
  ultimately show ?thesis by (simp add: py_strip_def)
qed

text \<open>A text of symbols and dashes, neither first nor last a dash, is cleaned to its symbols.\<close>

lemma clean_code_symbols:
  assumes "set s \<subseteq> insert 45 (set CHECK_ALPHABET)" "s \<noteq> []" "hd s \<noteq> 45" "last s \<noteq> 45"
  shows "clean_code s = filter (\<lambda>c. c \<noteq> 45) s"
proof -
  have sym: "upper_char c = [c] \<and> c \<noteq> 32 \<and> \<not> is_py_space c \<and> (c \<noteq> 45 \<longrightarrow> NORMALIZE c = c)" if "c \<in> set s" for c
  proof (cases "c = 45")
    case True
    then show ?thesis by (simp add: upper_char_def is_py_space_def)
  next
    case False
    then have "c \<in> set CHECK_ALPHABET" using assms(1) that by blast
    from CHECK_chars [OF this] show ?thesis by blast
  qed
  have strip: "py_strip is_py_space s = s"
    by (rule py_strip_fixed [OF assms(2)]) (use sym assms(2) in simp_all)
  have up: "upper s = s" by (rule upper_fixed) (use sym in blast)
  have spaces: "filter (\<lambda>c. c \<noteq> 32) (filter (\<lambda>c. c \<noteq> 45) s) = filter (\<lambda>c. c \<noteq> 45) s"
    unfolding filter_filter by (rule filter_cong) (use sym in auto)
  have norm: "map NORMALIZE (filter (\<lambda>c. c \<noteq> 45) s) = filter (\<lambda>c. c \<noteq> 45) s"
    by (rule map_idI) (use sym in auto)
  show ?thesis by (simp only: clean_code_def strip up spaces norm)
qed

section \<open>Round trip\<close>

definition full_code :: "bytes \<Rightarrow> pystr" where
  "full_code raw = encode_crockford raw @ [checksum_char raw]"

lemma checksum_char_mem: "checksum_char raw \<in> set CHECK_ALPHABET"
  by (simp add: checksum_char_def)

lemma full_code_symbols: "set (full_code raw) \<subseteq> set CHECK_ALPHABET"
proof -
  have "set (encode_crockford raw) \<subseteq> set DATA_ALPHABET"
    using code_digits_less by (fastforce simp: encode_crockford_digits)
  then show ?thesis using checksum_char_mem by (auto simp: full_code_def CHECK_ALPHABET_def)
qed

lemma length_full_code: "length raw = 20 \<Longrightarrow> length (full_code raw) = 33"
  by (simp add: full_code_def encode_crockford_digits)

lemma filter_dash_symbols: "set s \<subseteq> set CHECK_ALPHABET \<Longrightarrow> filter (\<lambda>c. c \<noteq> 45) s = s"
  by (rule filter_True) (use CHECK_chars in blast)

lemma decode_full:
  assumes "length raw = 20"
  shows "decode_crockford (encode_crockford raw) = Some raw"
proof -
  have "be_nat raw < 32 ^ 32" using be_nat_less [of raw] assms by simp
  then have "digits_value (code_digits 32 (be_nat raw)) = be_nat raw"
    by (simp add: digits_value_code_digits)
  with assms show ?thesis
    by (simp add: encode_crockford_digits decode_crockford_digits code_digits_less)
qed

lemma normalize_cleaned:
  assumes "length raw = 20" "clean_code code = full_code raw"
  shows "normalize_recovery_code code = Some raw"
proof -
  have "length (encode_crockford raw) = 32" using assms(1) by (simp add: encode_crockford_digits)
  then show ?thesis
    using assms decode_full [OF assms(1)]
    by (simp add: normalize_recovery_code_def full_code_def RECOVERY_CODE_BYTES_def Let_def)
qed

lemma concat_groups:
  assumes "0 < g"
  shows "concat (map (\<lambda>i. take g (drop (g * i) xs)) [0..<n]) = take (g * n) xs"
proof (induction n)
  case (Suc n)
  then show ?case by (simp add: take_add flip: take_add) (simp add: take_add add.commute)
qed simp

lemma filter_dash_join:
  "\<forall>g \<in> set gs. set g \<subseteq> set CHECK_ALPHABET \<Longrightarrow> filter (\<lambda>c. c \<noteq> 45) (join_with (lit ''-'') gs) = concat gs"
  by (induction gs rule: induct_list012) (simp_all add: filter_dash_symbols lit_def)

lemma set_join_dash:
  "\<forall>g \<in> set gs. set g \<subseteq> S \<Longrightarrow> set (join_with (lit ''-'') gs) \<subseteq> insert 45 S"
  by (induction gs rule: induct_list012) (auto simp: lit_def)

lemma join_ends:
  "gs \<noteq> [] \<Longrightarrow> \<forall>g \<in> set gs. g \<noteq> [] \<Longrightarrow>
     join_with sep gs \<noteq> [] \<and> hd (join_with sep gs) = hd (hd gs) \<and> last (join_with sep gs) = last (last gs)"
  by (induction gs rule: induct_list012) auto

text \<open>The seven groups of a code: symbols only, none empty, and nothing lost.\<close>

definition code_groups :: "bytes \<Rightarrow> pystr list" where
  "code_groups raw = map (\<lambda>i. take 5 (drop (5 * i) (full_code raw))) [0..<7]"

lemma code_groups:
  assumes "length raw = 20"
  shows "generate_recovery_code raw = join_with (lit ''-'') (code_groups raw)"
    and "concat (code_groups raw) = full_code raw"
    and "g \<in> set (code_groups raw) \<Longrightarrow> g \<noteq> [] \<and> set g \<subseteq> set CHECK_ALPHABET"
proof -
  note len = length_full_code [OF assms]
  show "generate_recovery_code raw = join_with (lit ''-'') (code_groups raw)"
    using len by (simp add: generate_recovery_code_def code_groups_def GROUP_SIZE_def Let_def flip: full_code_def)
  show "concat (code_groups raw) = full_code raw"
    using concat_groups [of 5 "full_code raw" 7] len by (simp add: code_groups_def)
  assume "g \<in> set (code_groups raw)"
  then obtain i where i: "i < 7" "g = take 5 (drop (5 * i) (full_code raw))" by (auto simp: code_groups_def)
  then have "g \<noteq> []" using len by simp
  moreover have "set g \<subseteq> set CHECK_ALPHABET"
    using i full_code_symbols [of raw] by (auto dest!: in_set_takeD in_set_dropD)
  ultimately show "g \<noteq> [] \<and> set g \<subseteq> set CHECK_ALPHABET" ..
qed

lemma clean_generated:
  assumes "length raw = 20"
  shows "clean_code (generate_recovery_code raw) = full_code raw"
proof -
  note g = code_groups [OF assms]
  have ne: "code_groups raw \<noteq> []" by (simp add: code_groups_def)
  have ends: "join_with (lit ''-'') (code_groups raw) \<noteq> []"
    "hd (join_with (lit ''-'') (code_groups raw)) = hd (hd (code_groups raw))"
    "last (join_with (lit ''-'') (code_groups raw)) = last (last (code_groups raw))"
    using join_ends [OF ne] g(3) by blast+
  have "hd (hd (code_groups raw)) \<in> set CHECK_ALPHABET" "last (last (code_groups raw)) \<in> set CHECK_ALPHABET"
    using g(3) [OF hd_in_set [OF ne]] g(3) [OF last_in_set [OF ne]] by auto
  then have "clean_code (generate_recovery_code raw) = filter (\<lambda>c. c \<noteq> 45) (join_with (lit ''-'') (code_groups raw))"
    unfolding g(1) using ends set_join_dash [of "code_groups raw" "set CHECK_ALPHABET"] g(3) CHECK_chars
    by (intro clean_code_symbols) auto
  also have "\<dots> = full_code raw" using filter_dash_join g(2,3) by simp
  finally show ?thesis .
qed

section \<open>Mistakes are caught\<close>

text \<open>The digits of a code, and the value and check character they stand for.\<close>

lemma accepted_digits:
  assumes "\<forall>d \<in> set ds. d < 32" "length ds = 32" "c \<in> set CHECK_ALPHABET"
  shows "normalize_recovery_code (map (\<lambda>d. DATA_ALPHABET ! d) ds @ [c]) =
    (if c = CHECK_ALPHABET ! (digits_value ds mod 37) then Some (be_bytes 20 (digits_value ds)) else None)"
proof -
  let ?s = "map (\<lambda>d. DATA_ALPHABET ! d) ds @ [c]"
  have "set ?s \<subseteq> set CHECK_ALPHABET"
    using assms(1,3) by (auto simp: CHECK_ALPHABET_def)
  moreover have "hd ?s \<noteq> 45" "last ?s \<noteq> 45"
    using calculation CHECK_chars [of "hd ?s"] CHECK_chars [of c] hd_in_set [of ?s] assms(3) by auto
  ultimately have clean: "clean_code ?s = ?s"
    using clean_code_symbols [of ?s] filter_dash_symbols [of ?s] by (simp add: subset_insertI2)
  have "digits_value ds < 256 ^ 20" using digits_value_less [OF assms(1)] assms(2) by simp
  then have "be_nat (be_bytes 20 (digits_value ds)) = digits_value ds" by (rule be_nat_be_bytes)
  then show ?thesis
    using assms(2) decode_crockford_digits [OF assms(1,2)]
    by (simp add: normalize_recovery_code_def clean checksum_char_def RECOVERY_CODE_BYTES_def Let_def)
qed

lemma check_symbols_differ: "CHECK_ALPHABET ! (x mod 37) = CHECK_ALPHABET ! (y mod 37) \<longleftrightarrow> x mod 37 = y mod 37"
  using nth_eq_iff_index_eq [OF distinct_CHECK, of "x mod 37" "y mod 37"] by simp

lemma digits_value_update:
  assumes "i < length ds"
  shows "int (digits_value (ds[i := d])) = int (digits_value ds) + (int d - int (ds ! i)) * 32 ^ (length ds - 1 - i)"
proof -
  define k where "k = length ds - 1 - i"
  have split: "digits_value (xs @ e # ys) = digits_value xs * 32 ^ Suc (length ys) + e * 32 ^ length ys + digits_value ys"
    for xs ys e
    using digits_value_append [of xs "e # ys"] digits_value_append [of "[e]" ys] by simp
  have "ds = take i ds @ ds ! i # drop (Suc i) ds" using assms by (rule id_take_nth_drop)
  then have "digits_value ds = digits_value (take i ds) * 32 ^ Suc k + ds ! i * 32 ^ k + digits_value (drop (Suc i) ds)"
    using split [of "take i ds" "ds ! i" "drop (Suc i) ds"] assms by (simp add: k_def)
  moreover have "digits_value (ds[i := d]) = digits_value (take i ds) * 32 ^ Suc k + d * 32 ^ k + digits_value (drop (Suc i) ds)"
    using split [of "take i ds" d "drop (Suc i) ds"] assms by (simp add: k_def upd_conv_take_nth_drop)
  ultimately show ?thesis unfolding k_def [symmetric] by (simp add: algebra_simps)
qed

lemma coprime_37: "coprime (37 :: int) 32" "coprime (37 :: int) 31"
  by code_simp+

lemma not_37_dvd:
  assumes "x \<noteq> 0" "\<bar>x\<bar> < 37"
  shows "\<not> 37 dvd x * (32 :: int) ^ k"
proof
  assume "37 dvd x * (32 :: int) ^ k"
  moreover have "coprime (37 :: int) (32 ^ k)" using coprime_37(1) by simp
  ultimately have "37 dvd x" using coprime_dvd_mult_left_iff by blast
  with assms show False using zdvd_imp_le by (auto dest: dvd_imp_le_int)
qed

lemma changed_mod_37:
  assumes "int b = int a + x" "\<not> 37 dvd x"
  shows "b mod 37 \<noteq> a mod (37 :: nat)"
proof
  assume "b mod 37 = a mod 37"
  then have "int b mod 37 = int a mod 37" by (metis of_nat_mod of_nat_numeral)
  then have "37 dvd int b - int a" by (simp add: mod_eq_dvd_iff)
  with assms show False by simp
qed

text \<open>The digits of a generated code.\<close>

lemma full_code_digits:
  assumes "length raw = 20"
  obtains ds where "\<forall>d \<in> set ds. d < 32" "length ds = 32"
    "full_code raw = map (\<lambda>d. DATA_ALPHABET ! d) ds @ [CHECK_ALPHABET ! (digits_value ds mod 37)]"
proof
  let ?ds = "code_digits 32 (be_nat raw)"
  show "\<forall>d \<in> set ?ds. d < 32" by (rule code_digits_less)
  have "be_nat raw < 256 ^ 20" using be_nat_less [of raw] assms by simp
  then have v: "digits_value ?ds = be_nat raw" by (simp add: digits_value_code_digits)
  show "full_code raw = map (\<lambda>d. DATA_ALPHABET ! d) ?ds @ [CHECK_ALPHABET ! (digits_value ?ds mod 37)]"
    using assms by (simp add: full_code_def encode_crockford_digits checksum_char_def v)
qed simp

lemma CHECK_not_DATA: "c \<in> set CHECK_ALPHABET \<Longrightarrow> (\<exists>d < 32. c = DATA_ALPHABET ! d) \<or> DATA_INDEX c = None"
  using DATA_INDEX_less [of c] by (cases "DATA_INDEX c") auto

lemma decode_value_None: "c \<in> set s \<Longrightarrow> DATA_INDEX c = None \<Longrightarrow> decode_value v s = None"
  by (induction s arbitrary: v) (auto split: option.splits)

lemma refuse_non_digit:
  assumes "set s \<subseteq> set CHECK_ALPHABET" "c \<in> set (butlast s)" "DATA_INDEX c = None"
  shows "normalize_recovery_code s = None"
proof -
  have "s \<noteq> []" using assms(2) by auto
  then have "hd s \<noteq> 45" "last s \<noteq> 45" using assms(1) CHECK_chars hd_in_set [of s] last_in_set [of s] by blast+
  then have "clean_code s = s"
    using clean_code_symbols [of s] filter_dash_symbols [of s] assms(1) \<open>s \<noteq> []\<close> by (simp add: subset_insertI2)
  then show ?thesis
    using decode_value_None [OF assms(2,3), of 0] by (simp add: normalize_recovery_code_def decode_crockford_def)
qed

lemma wrong_digit:
  assumes "\<forall>d \<in> set ds. d < 32" "length ds = 32" "i < 32" "d < 32" "d \<noteq> ds ! i"
  shows "digits_value (ds[i := d]) mod 37 \<noteq> digits_value ds mod 37"
proof (rule changed_mod_37 [OF digits_value_update])
  have "ds ! i < 32" using assms(1-3) by simp
  with assms(4,5) show "\<not> 37 dvd (int d - int (ds ! i)) * 32 ^ (length ds - 1 - i)"
    by (intro not_37_dvd) auto
qed (use assms in simp)

lemma swapped_digits:
  assumes "\<forall>d \<in> set ds. d < 32" "length ds = 32" "Suc i < 32" "ds ! i \<noteq> ds ! Suc i"
  shows "digits_value (ds[i := ds ! Suc i, Suc i := ds ! i]) mod 37 \<noteq> digits_value ds mod 37"
proof -
  define a b where "a = int (ds ! i)" and "b = int (ds ! Suc i)"
  have "32 - 1 - i = Suc (30 - i)" "32 - 1 - Suc i = 30 - i" using assms(3) by simp_all
  then have "int (digits_value (ds[i := ds ! Suc i, Suc i := ds ! i])) =
      int (digits_value ds) + (b - a) * 32 ^ Suc (30 - i) + (a - b) * 32 ^ (30 - i)"
    using digits_value_update [of "Suc i" "ds[i := ds ! Suc i]" "ds ! i"] digits_value_update [of i ds "ds ! Suc i"] assms
    by (simp add: a_def b_def)
  also have "\<dots> = int (digits_value ds) + 31 * ((b - a) * 32 ^ (30 - i))" by (simp add: algebra_simps)
  finally show ?thesis
  proof (rule changed_mod_37)
    have "ds ! i < 32" "ds ! Suc i < 32" using assms(1-3) by simp_all
    with assms(4) have "\<not> 37 dvd (b - a) * 32 ^ (30 - i)" by (intro not_37_dvd) (auto simp: a_def b_def)
    then show "\<not> 37 dvd 31 * ((b - a) * 32 ^ (30 - i))"
      using coprime_dvd_mult_right_iff coprime_37(2) by blast
  qed
qed

lemma undashed_code: "length raw = 20 \<Longrightarrow> filter (\<lambda>c. c \<noteq> 45) (generate_recovery_code raw) = full_code raw"
  using code_groups [of raw] filter_dash_join [of "code_groups raw"] by simp

lemma generated_symbols: "length raw = 20 \<Longrightarrow> set (generate_recovery_code raw) \<subseteq> insert 45 (set CHECK_ALPHABET)"
  using code_groups [of raw] set_join_dash [of "code_groups raw" "set CHECK_ALPHABET"] by simp

lemma refuse_typo:
  assumes raw: "length raw = 20" and "i < 33" "c \<in> set CHECK_ALPHABET" "c \<noteq> full_code raw ! i"
  shows "normalize_recovery_code ((full_code raw)[i := c]) = None"
proof -
  obtain ds where ds: "\<forall>d \<in> set ds. d < 32" "length ds = 32"
    "full_code raw = map (\<lambda>d. DATA_ALPHABET ! d) ds @ [CHECK_ALPHABET ! (digits_value ds mod 37)]"
    by (rule full_code_digits [OF raw])
  consider "i = 32" | d where "i < 32" "d < 32" "c = DATA_ALPHABET ! d" | "i < 32" "DATA_INDEX c = None"
    using CHECK_not_DATA [OF assms(3)] assms(2) less_Suc_eq [of i 32] by auto
  then show ?thesis
  proof cases
    case 1
    with assms(4) ds have "c \<noteq> CHECK_ALPHABET ! (digits_value ds mod 37)" by (simp add: nth_append)
    moreover have "(full_code raw)[i := c] = map (\<lambda>d. DATA_ALPHABET ! d) ds @ [c]"
      unfolding ds(3) 1 using ds(2) by (simp add: list_update_append)
    ultimately show ?thesis using accepted_digits [OF ds(1,2) assms(3)] by simp
  next
    case 2
    then have "\<forall>d \<in> set (ds[i := d]). d < 32" using ds(1) set_update_subset_insert [of ds i d] by auto
    moreover have "d \<noteq> ds ! i" using assms(4) 2 ds(2,3) by (auto simp: nth_append)
    then have "digits_value (ds[i := d]) mod 37 \<noteq> digits_value ds mod 37" using wrong_digit [OF ds(1,2)] 2 by blast
    moreover have "(full_code raw)[i := c] = map (\<lambda>d. DATA_ALPHABET ! d) (ds[i := d]) @ [CHECK_ALPHABET ! (digits_value ds mod 37)]"
      unfolding ds(3) 2(3) using 2(1) ds(2) by (simp add: list_update_append map_update)
    ultimately show ?thesis
      using ds(2) accepted_digits [of "ds[i := d]" "CHECK_ALPHABET ! (digits_value ds mod 37)"]
      by (simp add: check_symbols_differ)
  next
    case 3
    have "set ((full_code raw)[i := c]) \<subseteq> set CHECK_ALPHABET"
      using full_code_symbols [of raw] assms(3) set_update_subset_insert [of "full_code raw" i c] by auto
    moreover have "c \<in> set (butlast ((full_code raw)[i := c]))"
      using 3(1) ds(2) unfolding ds(3) by (simp add: list_update_append set_update_memI)
    ultimately show ?thesis using refuse_non_digit 3(2) by blast
  qed
qed

lemma refuse_swap:
  assumes raw: "length raw = 20" and "Suc i < 32" "full_code raw ! i \<noteq> full_code raw ! Suc i"
  shows "normalize_recovery_code ((full_code raw)[i := full_code raw ! Suc i, Suc i := full_code raw ! i]) = None"
proof -
  obtain ds where ds: "\<forall>d \<in> set ds. d < 32" "length ds = 32"
    "full_code raw = map (\<lambda>d. DATA_ALPHABET ! d) ds @ [CHECK_ALPHABET ! (digits_value ds mod 37)]"
    by (rule full_code_digits [OF raw])
  let ?ds = "ds[i := ds ! Suc i, Suc i := ds ! i]"
  have nth: "full_code raw ! j = DATA_ALPHABET ! (ds ! j)" if "j < 32" for j
    using that ds(2,3) by (simp add: nth_append)
  have "ds ! i \<noteq> ds ! Suc i" using assms(2,3) nth [of i] nth [of "Suc i"] by auto
  then have "digits_value ?ds mod 37 \<noteq> digits_value ds mod 37" using swapped_digits [OF ds(1,2) assms(2)] by blast
  moreover have "set ?ds = set ds" using assms(2) ds(2) by (simp add: set_swap)
  moreover have "(full_code raw)[i := full_code raw ! Suc i, Suc i := full_code raw ! i] =
      map (\<lambda>d. DATA_ALPHABET ! d) ?ds @ [CHECK_ALPHABET ! (digits_value ds mod 37)]"
    using nth [of i] nth [of "Suc i"] assms(2) ds(2) unfolding ds(3) by (simp add: list_update_append map_update)
  ultimately show ?thesis
    using ds(1,2) accepted_digits [of ?ds "CHECK_ALPHABET ! (digits_value ds mod 37)"]
    by (simp add: check_symbols_differ)
qed

text \<open>Lower case.\<close>

lemma lower_symbol:
  "c \<in> insert 45 (set CHECK_ALPHABET) \<Longrightarrow> \<exists>b. lower_char c = [b] \<and> upper_char b = [c] \<and> \<not> is_py_space b"
proof -
  have "list_all (\<lambda>c. \<exists>b. lower_char c = [b] \<and> upper_char b = [c] \<and> \<not> is_py_space b) (45 # CHECK_ALPHABET)"
    unfolding CHECK_codes list.pred_inject by (simp add: upper_char_def lower_char_def is_py_space_def)
  then show "c \<in> insert 45 (set CHECK_ALPHABET) \<Longrightarrow> \<exists>b. lower_char c = [b] \<and> upper_char b = [c] \<and> \<not> is_py_space b"
    unfolding list_all_iff list.set by blast
qed

lemma lower_symbols:
  "set s \<subseteq> insert 45 (set CHECK_ALPHABET) \<Longrightarrow> upper (lower s) = s \<and> (\<forall>b \<in> set (lower s). \<not> is_py_space b)"
proof (induction s)
  case (Cons c s)
  obtain b where "lower_char c = [b]" "upper_char b = [c]" "\<not> is_py_space b"
    using lower_symbol [of c] Cons.prems by auto
  with Cons show ?case by (simp add: lower_def upper_def)
qed (simp add: lower_def upper_def)

lemma py_strip_no_space: "\<forall>b \<in> set s. \<not> sp b \<Longrightarrow> py_strip sp s = s"
  by (cases "s = []") (simp add: py_strip_def, simp add: py_strip_fixed)

lemma clean_lower:
  assumes "set s \<subseteq> insert 45 (set CHECK_ALPHABET)"
  shows "clean_code (lower s) = clean_code s"
proof -
  have sym: "upper_char c = [c] \<and> \<not> is_py_space c" if "c \<in> set s" for c
    using assms that CHECK_chars [of c] by (cases "c = 45") (auto simp: upper_char_def is_py_space_def)
  then have "upper s = s" by (intro upper_fixed) simp
  with sym lower_symbols [OF assms] show ?thesis by (simp add: clean_code_def py_strip_no_space)
qed

text \<open>
  A recovery code is read back as the twenty bytes it was made from,
  as it was displayed, in lower case, or with its dashes left out.
\<close>

theorem recovery_code_roundtrip:
  assumes "length raw = RECOVERY_CODE_BYTES"
  shows "normalize_recovery_code (generate_recovery_code raw) = Some raw \<and>
    normalize_recovery_code (lower (generate_recovery_code raw)) = Some raw \<and>
    normalize_recovery_code (filter (\<lambda>c. c \<noteq> 45) (generate_recovery_code raw)) = Some raw"
proof (intro conjI)
  have raw: "length raw = 20" using assms by (simp add: RECOVERY_CODE_BYTES_def)
  show "normalize_recovery_code (generate_recovery_code raw) = Some raw"
    by (rule normalize_cleaned [OF raw clean_generated [OF raw]])
  show "normalize_recovery_code (lower (generate_recovery_code raw)) = Some raw"
    by (rule normalize_cleaned [OF raw]) (simp add: clean_lower generated_symbols raw clean_generated)
  have "full_code raw \<noteq> []" by (simp add: full_code_def)
  then have "clean_code (full_code raw) = full_code raw"
    using clean_code_symbols [of "full_code raw"] full_code_symbols [of raw] CHECK_chars filter_dash_symbols [of "full_code raw"]
      hd_in_set [of "full_code raw"] last_in_set [of "full_code raw"] by (metis subset_insertI2 subsetD)
  then show "normalize_recovery_code (filter (\<lambda>c. c \<noteq> 45) (generate_recovery_code raw)) = Some raw"
    unfolding undashed_code [OF raw] by (rule normalize_cleaned [OF raw])
qed

theorem recovery_code_roundtrip_witness:
  "normalize_recovery_code (generate_recovery_code (map of_nat [0..<20])) = Some (map of_nat [0..<20])"
  by (rule recovery_code_roundtrip [THEN conjunct1]) (simp add: RECOVERY_CODE_BYTES_def)

text \<open>
  Claim C21. The check character catches the usual copying mistakes: a code in
  which one symbol is replaced by any other symbol of the alphabet, or in which two different
  neighbours among the 32 data symbols are exchanged, is refused.
\<close>

theorem recovery_code_detects_typo:
  assumes "length raw = RECOVERY_CODE_BYTES" "s = filter (\<lambda>c. c \<noteq> 45) (generate_recovery_code raw)"
  shows "(\<forall>i c. i < length s \<and> c \<in> set CHECK_ALPHABET \<and> c \<noteq> s ! i \<longrightarrow> normalize_recovery_code (s[i := c]) = None) \<and>
    (\<forall>i. Suc i < 32 \<and> s ! i \<noteq> s ! Suc i \<longrightarrow> normalize_recovery_code (s[i := s ! Suc i, Suc i := s ! i]) = None)"
proof -
  have raw: "length raw = 20" using assms(1) by (simp add: RECOVERY_CODE_BYTES_def)
  then have "s = full_code raw" by (simp add: assms(2) undashed_code)
  then show ?thesis
    using refuse_typo [OF raw] refuse_swap [OF raw] length_full_code [OF raw] by simp
qed

text \<open>Twenty zero bytes are 33 zeros; a one in the fourth place is a mistake.\<close>

lemma zero_code: "filter (\<lambda>c. c \<noteq> 45) (generate_recovery_code (replicate 20 0)) = replicate 33 48"
proof -
  have "be_nat (replicate n 0) = 0" for n by (induction n) (simp_all add: be_nat_def)
  moreover have "DATA_ALPHABET ! 0 = 48" "CHECK_ALPHABET ! 0 = 48"
    by (simp_all add: DATA_ALPHABET_def CHECK_ALPHABET_def lit_def)
  ultimately have "full_code (replicate 20 0) = replicate 32 48 @ [48]"
    unfolding full_code_def encode_crockford_def checksum_char_def Let_def length_replicate
    by (simp only: div_0 mod_0 map_replicate_const length_upt) simp
  then show ?thesis using undashed_code [of "replicate 20 0"] replicate_append_same [of 32 48] by (simp flip: replicate_Suc)
qed

theorem recovery_code_detects_typo_witness:
  "normalize_recovery_code ((replicate 33 48)[3 := 49]) = None"
  using recovery_code_detects_typo [OF _ zero_code [symmetric], THEN conjunct1, rule_format, of 3 49]
  by (simp add: RECOVERY_CODE_BYTES_def CHECK_codes)

end
