(* ===== verification/Json_Indent.thy ===== *)
theory Json_Indent
  imports Json_Roundtrip
begin

text \<open>
  \<^verbatim>\<open>json.dump(..., indent=2)\<close>, the form of the files the program keeps, and that it reads back.
  The reading is proved for every text that spells a value with white space around its
  separators, of which the indented form is one.
\<close>

section \<open>The indented form\<close>

definition new_line :: "nat \<Rightarrow> pystr" where
  "new_line level = 10 # replicate (2 * level) 32"

fun dump_indent :: "nat \<Rightarrow> json \<Rightarrow> pystr"
  and indent_elems :: "nat \<Rightarrow> json list \<Rightarrow> pystr list"
  and indent_members :: "nat \<Rightarrow> (pystr \<times> json) list \<Rightarrow> pystr list" where
  "dump_indent level (JList vs) =
     (if vs = [] then lit ''[]''
      else [91] @ new_line (Suc level) @ join_with (44 # new_line (Suc level)) (indent_elems (Suc level) vs)
        @ new_line level @ [93])"
| "dump_indent level (JObj kvs) =
     (if kvs = [] then lit ''{}''
      else [123] @ new_line (Suc level) @ join_with (44 # new_line (Suc level)) (indent_members (Suc level) kvs)
        @ new_line level @ [125])"
| "dump_indent level v = json_dumps v"
| "indent_elems level [] = []"
| "indent_elems level (v # vs) = dump_indent level v # indent_elems level vs"
| "indent_members level [] = []"
| "indent_members level ((k, v) # kvs) =
     (dump_str k @ lit '': '' @ dump_indent level v) # indent_members level kvs"

definition json_dump_indent :: "json \<Rightarrow> pystr" where
  "json_dump_indent v = dump_indent 0 v"

section \<open>Texts that spell a value\<close>

definition all_ws :: "pystr \<Rightarrow> bool" where
  "all_ws w \<longleftrightarrow> (\<forall>c \<in> set w. is_ws c)"

fun scalar :: "json \<Rightarrow> bool" where
  "scalar (JList _) = False"
| "scalar (JObj _) = False"
| "scalar _ = True"

inductive spells :: "json \<Rightarrow> pystr \<Rightarrow> bool"
  and spells_elems :: "json list \<Rightarrow> pystr \<Rightarrow> bool"
  and spells_members :: "(pystr \<times> json) list \<Rightarrow> pystr \<Rightarrow> bool" where
  spell_scalar: "scalar v \<Longrightarrow> spells v (json_dumps v)"
| spell_empty_list: "all_ws w \<Longrightarrow> spells (JList []) (91 # w @ [93])"
| spell_list: "all_ws w \<Longrightarrow> spells_elems vs s \<Longrightarrow> spells (JList vs) (91 # w @ s)"
| spell_empty_obj: "all_ws w \<Longrightarrow> spells (JObj []) (123 # w @ [125])"
| spell_obj: "all_ws w \<Longrightarrow> spells_members kvs s \<Longrightarrow> spells (JObj kvs) (123 # w @ s)"
| spell_last_elem: "spells v s \<Longrightarrow> all_ws w \<Longrightarrow> spells_elems [v] (s @ w @ [93])"
| spell_elem: "spells v s \<Longrightarrow> all_ws w \<Longrightarrow> all_ws w' \<Longrightarrow> spells_elems vs t \<Longrightarrow>
    spells_elems (v # vs) (s @ w @ 44 # w' @ t)"
| spell_last_member: "spells v s \<Longrightarrow> all_ws u \<Longrightarrow> all_ws u' \<Longrightarrow> all_ws w \<Longrightarrow>
    spells_members [(k, v)] (dump_str k @ u @ 58 # u' @ s @ w @ [125])"
| spell_member: "spells v s \<Longrightarrow> all_ws u \<Longrightarrow> all_ws u' \<Longrightarrow> all_ws w \<Longrightarrow> all_ws w' \<Longrightarrow> spells_members kvs t \<Longrightarrow>
    spells_members ((k, v) # kvs) (dump_str k @ u @ 58 # u' @ s @ w @ 44 # w' @ t)"

lemma all_ws_simps [simp]: "all_ws []" "all_ws (c # w) \<longleftrightarrow> is_ws c \<and> all_ws w" "all_ws (new_line level)"
  by (auto simp: all_ws_def new_line_def is_ws_def)

lemma skip_all_ws: "all_ws w \<Longrightarrow> skip_ws (w @ s) = skip_ws s"
  by (induction w) simp_all

lemma num_stop_all_ws: "all_ws w \<Longrightarrow> c \<in> {44, 93, 125} \<Longrightarrow> num_stop (w @ c # r)"
  by (cases w) (auto simp: num_stop_def is_digit_def is_ws_def)

text \<open>The first character of a spelling is not white space and closes nothing.\<close>

lemma spells_hd:
  "spells v s \<Longrightarrow> wf_json v \<Longrightarrow> \<exists>c cs. s = c # cs \<and> \<not> is_ws c \<and> c \<noteq> 93 \<and> c \<noteq> 125"
  by (erule spells.cases) (use dump_hd in \<open>auto simp: json_dumps_def is_ws_def\<close>)

lemma spells_elems_hd:
  "spells_elems vs s \<Longrightarrow> wf_elems vs \<Longrightarrow> \<exists>c cs. s = c # cs \<and> \<not> is_ws c \<and> c \<noteq> 93"
  by (erule spells_elems.cases) (use spells_hd in fastforce)+

lemma spells_members_hd: "spells_members kvs s \<Longrightarrow> \<exists>cs. s = 34 # cs"
  by (erule spells_members.cases) (auto simp: dump_str_def)

lemma parse_scalar:
  "scalar v \<Longrightarrow> wf_json v \<Longrightarrow> num_stop r \<Longrightarrow> \<exists>n. parse_value n (json_dumps v @ r) = Some (v, r)"
  unfolding json_dumps_def by (rule parse_value_dump) simp_all

lemma skip_spells: "spells v s \<Longrightarrow> wf_json v \<Longrightarrow> all_ws w \<Longrightarrow> skip_ws (w @ s @ r) = s @ r"
  using spells_hd [of v s] by (auto simp: skip_all_ws)

lemma skip_spells_elems: "spells_elems vs s \<Longrightarrow> wf_elems vs \<Longrightarrow> all_ws w \<Longrightarrow> skip_ws (w @ s @ r) = s @ r"
  using spells_elems_hd [of vs s] by (auto simp: skip_all_ws)

lemma skip_spells_members: "spells_members kvs s \<Longrightarrow> all_ws w \<Longrightarrow> skip_ws (w @ s @ r) = s @ r"
  using spells_members_hd [of kvs s] by (auto simp: skip_all_ws is_ws_def)

lemma skip_stop: "all_ws w \<Longrightarrow> c \<in> {44, 58, 93, 125} \<Longrightarrow> skip_ws (w @ c # r) = c # r"
  by (auto simp: skip_all_ws is_ws_def)

lemma spells_parse:
  "spells v s \<Longrightarrow> wf_json v \<Longrightarrow> num_stop r \<Longrightarrow> \<exists>n. parse_value n (s @ r) = Some (v, r)"
  "spells_elems vs s \<Longrightarrow> wf_elems vs \<Longrightarrow> \<exists>n. parse_elems n (s @ r) = Some (vs, r)"
  "spells_members kvs s \<Longrightarrow> wf_members kvs \<Longrightarrow> \<exists>n. parse_members n (s @ r) = Some (kvs, r)"
proof (induction arbitrary: r and r and r rule: spells_spells_elems_spells_members.inducts)
  case (spell_scalar v)
  then show ?case by (rule parse_scalar)
next
  case (spell_empty_list w)
  have "parse_value (Suc 0) (91 # w @ 93 # r) = Some (JList [], r)"
    using spell_empty_list(1) by (simp add: parse_unfold skip_stop Let_def is_ws_def)
  then show ?case by auto
next
  case (spell_list w vs s)
  then obtain n where n: "parse_elems n (s @ r) = Some (vs, r)" by auto
  have wf: "wf_elems vs" using spell_list.prems by simp
  obtain c cs where "s = c # cs" "c \<noteq> 93" using spells_elems_hd [OF spell_list(2) wf] by blast
  then have "parse_value (Suc n) (91 # w @ s @ r) = Some (JList vs, r)"
    using n skip_spells_elems [OF spell_list(2) wf spell_list(1), of r] by (simp add: parse_unfold)
  then show ?case by auto
next
  case (spell_empty_obj w)
  have "parse_value (Suc 0) (123 # w @ 125 # r) = Some (JObj [], r)"
    using spell_empty_obj(1) by (simp add: parse_unfold skip_stop Let_def is_ws_def)
  then show ?case by auto
next
  case (spell_obj w kvs s)
  then obtain n where n: "parse_members n (s @ r) = Some (kvs, r)" by auto
  obtain cs where "s = 34 # cs" using spells_members_hd [OF spell_obj(2)] by blast
  then have "parse_value (Suc n) (123 # w @ s @ r) = Some (JObj kvs, r)"
    using n skip_spells_members [OF spell_obj(2,1), of r] spell_obj.prems
    by (simp add: parse_unfold dict_of_dict_ok)
  then show ?case by auto
next
  case (spell_last_elem v s w)
  have "num_stop (w @ 93 # r)" using spell_last_elem(2) by (simp add: num_stop_all_ws)
  with spell_last_elem obtain n where "parse_value n (s @ w @ 93 # r) = Some (v, w @ 93 # r)" by auto
  then have "parse_elems (Suc n) (s @ w @ 93 # r) = Some ([v], r)"
    using spell_last_elem(2) by (simp add: parse_unfold skip_stop)
  then show ?case by auto
next
  case (spell_elem v s w w' vs t)
  have "num_stop (w @ 44 # w' @ t @ r)" using spell_elem(2) by (simp add: num_stop_all_ws)
  with spell_elem obtain n m where "parse_value n (s @ w @ 44 # w' @ t @ r) = Some (v, w @ 44 # w' @ t @ r)"
    and "parse_elems m (t @ r) = Some (vs, r)" by fastforce
  then have "parse_elems (Suc (max n m)) (s @ w @ 44 # w' @ t @ r) = Some (v # vs, r)"
    using spell_elem.prems skip_spells_elems [OF spell_elem(4) _ spell_elem(3), of r]
    by (intro parse_elems_step [where r' = "w' @ t @ r"]) (auto simp: skip_stop spell_elem(2))
  then show ?case by auto
next
  case (spell_last_member v s u u' w k)
  have "num_stop (w @ 125 # r)" using spell_last_member(4) by (simp add: num_stop_all_ws)
  with spell_last_member obtain n where n: "parse_value n (s @ w @ 125 # r) = Some (v, w @ 125 # r)" by auto
  have "scan_str (concat (map esc_char k) @ 34 # x) = Some (k, x)" for x
    using spell_last_member.prems by (simp add: scan_str_dump)
  then have "parse_members (Suc n) (dump_str k @ u @ 58 # u' @ s @ w @ 125 # r) = Some ([(k, v)], r)"
    using n spell_last_member.prems skip_spells [OF spell_last_member(1) _ spell_last_member(3)]
    by (simp add: parse_unfold dump_str_def skip_stop spell_last_member(2,4))
  then show ?case by auto
next
  case (spell_member v s u u' w w' kvs t k)
  have "num_stop (w @ 44 # w' @ t @ r)" using spell_member(4) by (simp add: num_stop_all_ws)
  with spell_member obtain n m where n: "parse_value n (s @ w @ 44 # w' @ t @ r) = Some (v, w @ 44 # w' @ t @ r)"
    and m: "parse_members m (t @ r) = Some (kvs, r)" by fastforce
  have key: "scan_str (concat (map esc_char k) @ 34 # u @ 58 # u' @ s @ w @ 44 # w' @ t @ r)
      = Some (k, u @ 58 # u' @ s @ w @ 44 # w' @ t @ r)"
    using spell_member.prems by (simp add: scan_str_dump)
  have "parse_members (Suc (max n m)) (34 # concat (map esc_char k) @ 34 # u @ 58 # u' @ s @ w @ 44 # w' @ t @ r)
      = Some ((k, v) # kvs, r)"
    using n m spell_member.prems skip_spells [OF spell_member(1) _ spell_member(3)]
      skip_spells_members [OF spell_member(6,5), of r]
    by (intro parse_members_step [OF key]) (auto simp: skip_stop spell_member(2,4))
  then show ?case by (auto simp: dump_str_def)
qed

section \<open>Reading back\<close>

lemma spells_indent_elems:
  assumes "vs \<noteq> []" "\<And>v. v \<in> set vs \<Longrightarrow> spells v (dump_indent level v)" "all_ws w" "all_ws w'"
  shows "spells_elems vs (join_with (44 # w) (indent_elems level vs) @ w' @ [93])"
  using assms(1,2)
proof (induction vs)
  case (Cons v vs)
  show ?case
  proof (cases "vs = []")
    case True
    then show ?thesis using spell_last_elem [of v "dump_indent level v" w'] Cons.prems(2) assms(4) by simp
  next
    case False
    then have "indent_elems level vs \<noteq> []" by (cases vs) simp_all
    with False Cons show ?thesis
      using spell_elem [of v "dump_indent level v" "[]" w vs] assms(3) by (simp add: join_with_Cons)
  qed
qed simp

lemma spells_indent_members:
  assumes "kvs \<noteq> []" "\<And>k v. (k, v) \<in> set kvs \<Longrightarrow> spells v (dump_indent level v)" "all_ws w" "all_ws w'"
  shows "spells_members kvs (join_with (44 # w) (indent_members level kvs) @ w' @ [125])"
  using assms(1,2)
proof (induction kvs)
  case (Cons kv kvs)
  obtain k v where kv: "kv = (k, v)" by fastforce
  have v: "spells v (dump_indent level v)" using Cons.prems(2) [of k v] kv by simp
  show ?case
  proof (cases "kvs = []")
    case True
    then show ?thesis
      using spell_last_member [OF v, of "[]" "[32]" w' k] assms(4) by (simp add: kv lit_def is_ws_def)
  next
    case False
    then have "indent_members level kvs \<noteq> []" by (cases kvs) auto
    moreover have "spells_members kvs (join_with (44 # w) (indent_members level kvs) @ w' @ [125])"
      using Cons.IH [OF False] Cons.prems(2) by auto
    ultimately show ?thesis
      using spell_member [OF v, of "[]" "[32]" "[]" w kvs _ k] assms(3)
      by (simp add: kv lit_def is_ws_def join_with_Cons)
  qed
qed simp

lemma spells_indent: "spells v (dump_indent level v)"
proof (induction v arbitrary: level)
  case (JList vs)
  show ?case
  proof (cases "vs = []")
    case False
    from spell_list [OF _ spells_indent_elems [OF False JList.IH], of "new_line (Suc level)"] False show ?thesis
      by simp
  qed (use spell_empty_list [of "[]"] in \<open>simp add: lit_def\<close>)
next
  case (JObj kvs)
  show ?case
  proof (cases "kvs = []")
    case False
    have "spells v (dump_indent l v)" if "(k, v) \<in> set kvs" for k v l
      using JObj.IH [OF that] by auto
    from spell_obj [OF _ spells_indent_members [OF False this], of "new_line (Suc level)"] False show ?thesis
      by simp
  qed (use spell_empty_obj [of "[]"] in \<open>simp add: lit_def\<close>)
qed (auto intro: spell_scalar)

text \<open>The white space and the characters of the parts are all ASCII.\<close>

lemma ws_ascii: "all_ws w \<Longrightarrow> list_all is_ascii w"
  by (auto simp: all_ws_def list_all_iff is_ws_def is_ascii_def)

lemma spells_ascii:
  "spells v s \<Longrightarrow> wf_json v \<Longrightarrow> list_all is_ascii s"
  "spells_elems vs s \<Longrightarrow> wf_elems vs \<Longrightarrow> list_all is_ascii s"
  "spells_members kvs s \<Longrightarrow> wf_members kvs \<Longrightarrow> list_all is_ascii s"
proof (induction rule: spells_spells_elems_spells_members.inducts)
  case (spell_scalar v)
  then show ?case unfolding json_dumps_def by (intro dump_ascii(1)) simp_all
qed (auto simp: ws_ascii dump_str_ascii is_ascii_def [of 91] is_ascii_def [of 93] is_ascii_def [of 123]
    is_ascii_def [of 125] is_ascii_def [of 44] is_ascii_def [of 58])

lemma json_loads_spelled:
  assumes "spells v s" "wf_json v"
  shows "json_loads s = Some v"
proof -
  obtain n where n: "parse_value n (s @ []) = Some (v, [])"
    using spells_parse(1) [OF assms, of "[]"] by auto
  obtain c cs where c: "s = c # cs" "\<not> is_ws c" using spells_hd [OF assms] by blast
  then have skip: "skip_ws s = s" by simp
  have "parse_value (2 * length s + 1) (skip_ws s) = Some (v, [])"
    by (rule parse_fuel_enough [of n]) (use n skip in simp)
  moreover have "hd s \<noteq> 0xFEFF" using spells_ascii(1) [OF assms] c by (auto simp: is_ascii_def)
  ultimately show ?thesis by (simp add: json_loads_def skip)
qed

lemma json_loads_indent: "wf_json v \<Longrightarrow> json_loads (json_dump_indent v) = Some v"
  unfolding json_dump_indent_def by (rule json_loads_spelled [OF spells_indent])

lemma json_dump_indent_ascii: "wf_json v \<Longrightarrow> list_all is_ascii (json_dump_indent v)"
  unfolding json_dump_indent_def by (rule spells_ascii(1) [OF spells_indent])

end
