(* ===== verification/Text_Files.thy ===== *)
theory Text_Files
  imports Files Json_Indent
begin

text \<open>
  Text files and the directories they are put in, as the program uses them for its identity
  and its vault: \<^verbatim>\<open>os.path.dirname\<close>, \<^verbatim>\<open>os.makedirs(..., exist_ok=True)\<close>, \<^verbatim>\<open>open(path, "w")\<close> with one
  write, and \<^verbatim>\<open>open(path, "r").read()\<close>. The encoding is UTF-8, and reading turns every line end
  into a newline character. Writing truncates the file before anything is written, which the
  states in between show.
\<close>

datatype file_error = NoSuchFile | NotWritable | BadText

section \<open>Directories\<close>

definition path_dirname :: "pystr \<Rightarrow> pystr" where
  "path_dirname p =
     (let head = take (length p - length (path_basename p)) p in
      if list_all (\<lambda>c. c = SEP) head then head else rev (dropWhile (\<lambda>c. c = SEP) (rev head)))"

definition ancestors :: "pystr \<Rightarrow> pystr list" where
  "ancestors p = map (\<lambda>i. take i p) (filter (\<lambda>i. 0 < i \<and> p ! i = SEP) [0..<length p])"

text \<open>A file in the place of a directory is the one failure.\<close>

definition os_makedirs :: "filesystem \<Rightarrow> pystr \<Rightarrow> filesystem option" where
  "os_makedirs fs d =
     (let ds = ancestors d @ [d] in
      if list_ex (path_isfile fs) ds then None
      else Some (fs\<lparr>fs_dirs := fs_dirs fs @ filter (\<lambda>x. x \<notin> set (fs_dirs fs)) ds\<rparr>))"

section \<open>Writing and reading a text\<close>

fun universal_newlines :: "pystr \<Rightarrow> pystr" where
  "universal_newlines (c # d # s) =
     (if c = 13 then 10 # universal_newlines (if d = 10 then s else d # s)
      else c # universal_newlines (d # s))"
| "universal_newlines [c] = [if c = 13 then 10 else c]"
| "universal_newlines [] = []"

definition write_text :: "filesystem \<Rightarrow> pystr \<Rightarrow> pystr \<Rightarrow> (file_error + unit) \<times> filesystem" where
  "write_text fs p s =
     (if p \<in> set (fs_dirs fs) then (Inl NotWritable, fs)
      else let (h, fs1) = open_wb fs p in
        case utf8_encode s of
          None \<Rightarrow> (Inl BadText, fs1)
        | Some data \<Rightarrow> (Inr (), snd (handle_write fs1 h data)))"

definition read_text :: "filesystem \<Rightarrow> pystr \<Rightarrow> file_error + pystr" where
  "read_text fs p =
     (case read_file fs p of
        None \<Rightarrow> Inl NoSuchFile
      | Some data \<Rightarrow> (case utf8_decode data of None \<Rightarrow> Inl BadText | Some s \<Rightarrow> Inr (universal_newlines s)))"

text \<open>\<^verbatim>\<open>json.load\<close>: a text that is not JSON raises a \<^verbatim>\<open>ValueError\<close>, as a text that does not decode does.\<close>

definition load_json :: "filesystem \<Rightarrow> pystr \<Rightarrow> file_error + json" where
  "load_json fs p =
     res_bind (read_text fs p) (\<lambda>s. case json_loads s of None \<Rightarrow> Inl BadText | Some v \<Rightarrow> Inr v)"

text \<open>
  The states of the file system that a crash while the file is written can leave: untouched,
  truncated, or with any part of the text.
\<close>

definition write_states :: "filesystem \<Rightarrow> pystr \<Rightarrow> bytes \<Rightarrow> filesystem list" where
  "write_states fs p data =
     (let (h, fs1) = open_wb fs p in
      fs # map (\<lambda>n. snd (handle_write fs1 h (take n data))) [0..<Suc (length data)])"

section \<open>Facts\<close>

lemma universal_newlines_id: "13 \<notin> set s \<Longrightarrow> universal_newlines s = s"
  by (induction s rule: universal_newlines.induct) auto

lemma isfile_makedirs: "os_makedirs fs d = Some fs' \<Longrightarrow> path_isfile fs' p = path_isfile fs p"
  by (auto simp: os_makedirs_def Let_def path_isfile_def split: if_splits)

lemma makedirs_names:
  "os_makedirs fs d = Some fs' \<Longrightarrow>
     fs_names fs' = fs_names fs \<and> fs_data fs' = fs_data fs \<and> fs_next fs' = fs_next fs"
  by (auto simp: os_makedirs_def Let_def split: if_splits)

lemma makedirs_dirs:
  "os_makedirs fs d = Some fs' \<Longrightarrow> set (fs_dirs fs') = set (fs_dirs fs) \<union> set (ancestors d) \<union> {d}"
  by (auto simp: os_makedirs_def Let_def split: if_splits)

lemma fs_ok_makedirs: "fs_ok fs \<Longrightarrow> os_makedirs fs d = Some fs' \<Longrightarrow> fs_ok fs'"
  using makedirs_names [of fs d fs'] by (simp add: fs_ok_def)

lemma read_file_makedirs: "os_makedirs fs d = Some fs' \<Longrightarrow> read_file fs' p = read_file fs p"
  using makedirs_names [of fs d fs'] by (simp add: read_file_def)

lemma read_file_open_write:
  assumes "fs_ok fs" "open_wb fs p = (h, fs1)"
  shows "read_file (snd (handle_write fs1 h data)) q = (if q = p then Some data else read_file fs q)"
proof -
  have uniq: "map_of (fs_names fs) q = Some i \<Longrightarrow> i \<noteq> fs_next fs \<and> (map_of (fs_names fs) p = Some i \<longrightarrow> q = p)" for i
    using assms(1) unfolding fs_ok_def by blast
  show ?thesis
  proof (cases "map_of (fs_names fs) p")
    case None
    with assms(2) have "h = \<lparr>h_inode = fs_next fs, h_pos = 0\<rparr>"
      "fs_names fs1 = dict_set (fs_names fs) p (fs_next fs)" "fs_data fs1 = (fs_data fs)(fs_next fs := [])"
      by (auto simp: open_wb_def)
    then show ?thesis
      using uniq by (cases "map_of (fs_names fs) q") (auto simp: handle_write_def read_file_def write_at_def)
  next
    case (Some i)
    with assms(2) have "h = \<lparr>h_inode = i, h_pos = 0\<rparr>" "fs_names fs1 = fs_names fs" "fs_data fs1 = (fs_data fs)(i := [])"
      by (auto simp: open_wb_def)
    then show ?thesis
      using uniq Some by (cases "map_of (fs_names fs) q") (auto simp: handle_write_def read_file_def write_at_def)
  qed
qed

lemma handle_write_Nil [simp]: "snd (handle_write fs h []) = fs"
  by (simp add: handle_write_def write_at_def)

lemma read_file_write_text_other:
  assumes "fs_ok fs" "q \<noteq> p"
  shows "read_file (snd (write_text fs p s)) q = read_file fs q"
proof -
  obtain h fs1 where o: "open_wb fs p = (h, fs1)" by fastforce
  then show ?thesis
    using read_file_open_write [OF assms(1) o] read_file_open_write [OF assms(1) o, of "[]"] assms(2)
    by (auto simp: write_text_def split: option.splits)
qed

lemma read_file_write_states:
  assumes "fs_ok fs" "fs' \<in> set (write_states fs p data)"
  shows "read_file fs' q = (if q = p then read_file fs' p else read_file fs q)"
    and "read_file fs' p = read_file fs p \<or> (\<exists>n \<le> length data. read_file fs' p = Some (take n data))"
proof -
  obtain h fs1 where o: "open_wb fs p = (h, fs1)" by fastforce
  from assms(2) o consider "fs' = fs" | n where "n \<le> length data" "fs' = snd (handle_write fs1 h (take n data))"
    by (force simp: write_states_def less_Suc_eq_le simp del: upt_Suc)
  note cs = this
  show "read_file fs' q = (if q = p then read_file fs' p else read_file fs q)"
    using cs by cases (simp_all add: read_file_open_write [OF assms(1) o])
  show "read_file fs' p = read_file fs p \<or> (\<exists>n \<le> length data. read_file fs' p = Some (take n data))"
  proof (cases rule: cs)
    case (2 n)
    then have "read_file fs' p = Some (take n data)" by (simp add: read_file_open_write [OF assms(1) o])
    with 2(1) show ?thesis by blast
  qed simp
qed

lemma write_text_Inr:
  assumes "write_text fs p s = (Inr (), fs')" "fs_ok fs"
  obtains data where "utf8_encode s = Some data"
    "\<And>q. read_file fs' q = (if q = p then Some data else read_file fs q)"
    "fs_dirs fs' = fs_dirs fs" "p \<notin> set (fs_dirs fs)"
proof -
  obtain h fs1 where o: "open_wb fs p = (h, fs1)" by fastforce
  then have "fs_dirs fs1 = fs_dirs fs" by (auto simp: open_wb_def split: option.splits)
  then show ?thesis
    using assms(1) o that read_file_open_write [OF assms(2) o]
    by (auto simp: write_text_def handle_write_def split: if_splits option.splits)
qed

lemma write_text_ascii:
  assumes "list_all is_ascii s" "p \<notin> set (fs_dirs fs)"
  shows "fst (write_text fs p s) = Inr ()"
  using assms by (simp add: write_text_def utf8_encode_ascii split: prod.splits)

lemma fs_ok_write_text: "fs_ok fs \<Longrightarrow> fs_ok (snd (write_text fs p s))"
  using fs_ok_open_wb [of fs p] fs_ok_handle_write
  by (auto simp: write_text_def split: prod.splits option.splits)

lemma read_write_text:
  assumes "write_text fs p s = (Inr (), fs')" "fs_ok fs"
  shows "read_text fs' q = (if q = p then Inr (universal_newlines s) else read_text fs q)"
proof -
  obtain data where "utf8_encode s = Some data" "read_file fs' q = (if q = p then Some data else read_file fs q)"
    using write_text_Inr [OF assms] by metis
  then show ?thesis by (simp add: read_text_def utf8_decode_encode)
qed

section \<open>JSON files\<close>

text \<open>The indented form has no carriage return, so the reading of line ends leaves it alone.\<close>

lemma hex_digit_no_cr: "hex_digit d \<noteq> 13"
  by (simp add: hex_digit_def)

lemma dump_str_no_cr: "13 \<notin> set (dump_str s)"
proof -
  have "13 \<notin> set (esc_char c)" for c
    by (auto simp: esc_char_def u_escape_def Let_def dest: sym [of 13] simp: hex_digit_no_cr)
  then show ?thesis by (auto simp: dump_str_def)
qed

lemma dec_int_no_cr: "13 \<notin> set (dec_int i)"
  using dec_nat_digits [of "nat i"] dec_nat_digits [of "nat (- i)"]
  by (auto simp: dec_int_def is_digit_def)

lemma scan_number_no_cr:
  assumes "scan_number s = Some (JFloat l, r)"
  shows "13 \<notin> set l"
proof -
  have "scan_int_part s = Some (ds, r) \<Longrightarrow> 13 \<notin> set ds" for s ds r
    by (fastforce simp: scan_int_part_def is_digit_def split: list.splits if_splits dest: set_takeWhileD)
  moreover have "13 \<notin> set (fst (scan_frac s))" for s
    by (auto simp: scan_frac_def is_digit_def split: list.splits dest: set_takeWhileD)
  moreover have "13 \<notin> set (fst (scan_exp s))" for s
    by (auto simp: scan_exp_def scan_sign_def is_digit_def split: list.splits dest: set_takeWhileD)
  ultimately show ?thesis
    using assms by (auto simp: scan_number_def Let_def case_prod_unfold split: option.splits if_splits)
qed

lemma scalar_no_cr:
  assumes "wf_json v" "scalar v"
  shows "13 \<notin> set (json_dumps v)"
  using assms scan_number_no_cr
  by (cases v) (auto simp: json_dumps_def dump_str_no_cr dec_int_no_cr wf_float_def lit_def)

lemma join_no_cr: "13 \<notin> set sep \<Longrightarrow> \<forall>x \<in> set xs. 13 \<notin> set x \<Longrightarrow> 13 \<notin> set (join_with sep xs)"
  using join_with_set [of sep xs] by auto

lemma new_line_no_cr: "13 \<notin> set (new_line level)"
  by (simp add: new_line_def)

lemma dump_indent_no_cr:
  "wf_json v \<Longrightarrow> 13 \<notin> set (dump_indent level v)"
  "wf_elems vs \<Longrightarrow> \<forall>x \<in> set (indent_elems level vs). 13 \<notin> set x"
  "wf_members kvs \<Longrightarrow> \<forall>x \<in> set (indent_members level kvs). 13 \<notin> set x"
proof (induction level v and level vs and level kvs rule: dump_indent_indent_elems_indent_members.induct)
  case (1 level vs)
  show ?case
  proof (cases "vs = []")
    case False
    then have "13 \<notin> set (join_with (44 # new_line (Suc level)) (indent_elems (Suc level) vs))"
      using 1 by (intro join_no_cr) (simp_all add: new_line_no_cr)
    with False show ?thesis by (simp add: new_line_no_cr)
  qed (simp add: lit_def)
next
  case (2 level kvs)
  show ?case
  proof (cases "kvs = []")
    case False
    then have "13 \<notin> set (join_with (44 # new_line (Suc level)) (indent_members (Suc level) kvs))"
      using 2 by (intro join_no_cr) (simp_all add: new_line_no_cr)
    with False show ?thesis by (simp add: new_line_no_cr)
  qed (simp add: lit_def)
qed (simp_all add: scalar_no_cr dump_str_no_cr, simp_all add: lit_def)

lemma newlines_indent: "wf_json v \<Longrightarrow> universal_newlines (json_dump_indent v) = json_dump_indent v"
  by (simp add: universal_newlines_id json_dump_indent_def dump_indent_no_cr)

lemma load_written_json:
  assumes "write_text fs p (json_dump_indent v) = (Inr (), fs')" "fs_ok fs" "wf_json v"
  shows "load_json fs' q = (if q = p then Inr v else load_json fs q)"
  using read_write_text [OF assms(1,2)] assms(3)
  by (simp add: load_json_def newlines_indent json_loads_indent res_bind_def)

lemma load_json_bytes:
  assumes "read_file fs p = Some data" "utf8_encode (json_dump_indent v) = Some data" "wf_json v"
  shows "load_json fs p = Inr v"
  using assms by (simp add: load_json_def read_text_def utf8_decode_encode newlines_indent json_loads_indent res_bind_def)

lemma load_json_cong: "read_file fs p = read_file fs' p \<Longrightarrow> load_json fs p = load_json fs' p"
  by (simp add: load_json_def read_text_def)

section \<open>A concrete file system\<close>

definition home_fs :: filesystem where
  "home_fs =
     \<lparr>fs_names = [], fs_data = (\<lambda>_. []), fs_next = 0, fs_dirs = [lit ''/h''], fs_locked = [], fs_realpath = Some,
      fs_free = None\<rparr>"

lemma home_fs_ok: "fs_ok home_fs"
  by (simp add: fs_ok_def home_fs_def dict_ok_def)

lemma wf_float_zero: "wf_float (lit ''0.0'')"
  by code_simp

end
