(* ===== verification/Vault.thy ===== *)
theory Vault
  imports Recovery_Code Text_Files
begin

text \<open>
  The encrypted vault's key file: \<^verbatim>\<open>core/vault/crypto.py\<close> and \<^verbatim>\<open>core/vault/keyfile.py\<close>. A data key is
  kept twice, wrapped under a key derived from the passphrase and under one derived from the
  recovery code. Scrypt and AES-GCM come from the \<^verbatim>\<open>cryptography\<close> package: they are a record of
  functions, and what is relied on is stated by \<open>scrypt_ok\<close>, \<open>gcm_ok\<close> and \<open>gcm_rejects\<close>. Random bytes
  and the time are arguments.
\<close>

section \<open>The primitives\<close>

datatype gcm_error = InvalidTag | OtherGcmError

record vault_crypto =
  scrypt :: "bytes \<Rightarrow> nat \<Rightarrow> nat \<Rightarrow> nat \<Rightarrow> nat \<Rightarrow> bytes \<Rightarrow> bytes option"
  gcm_encrypt :: "bytes \<Rightarrow> bytes \<Rightarrow> bytes \<Rightarrow> gcm_error + bytes"
  gcm_decrypt :: "bytes \<Rightarrow> bytes \<Rightarrow> bytes \<Rightarrow> gcm_error + bytes"

text \<open>
  Documented behaviour: Scrypt derives a key of the length it is asked for; AES-GCM encrypts
  under a key of 32 bytes and a nonce of 12, decryption with the same key and nonce gives the
  data back, and decryption under another key raises \<^verbatim>\<open>InvalidTag\<close>.
\<close>

definition scrypt_ok :: "vault_crypto \<Rightarrow> bool" where
  "scrypt_ok C \<longleftrightarrow> (\<forall>salt len n r p secret. \<exists>k. scrypt C salt len n r p secret = Some k \<and> length k = len)"

definition gcm_ok :: "vault_crypto \<Rightarrow> bool" where
  "gcm_ok C \<longleftrightarrow>
     (\<forall>k n d. length k = 32 \<longrightarrow> length n = 12 \<longrightarrow> length d < 2 ^ 31 \<longrightarrow> (\<exists>c. gcm_encrypt C k n d = Inr c)) \<and>
     (\<forall>k n d c. gcm_encrypt C k n d = Inr c \<longrightarrow> gcm_decrypt C k n c = Inr d)"

definition gcm_rejects :: "vault_crypto \<Rightarrow> bool" where
  "gcm_rejects C \<longleftrightarrow>
     (\<forall>k k' n d c. gcm_encrypt C k n d = Inr c \<longrightarrow> length k = 32 \<longrightarrow> length k' = 32 \<longrightarrow> k' \<noteq> k \<longrightarrow>
        gcm_decrypt C k' n c = Inl InvalidTag)"

section \<open>Wrapping keys\<close>

definition SCRYPT_N :: nat where "SCRYPT_N = 131072"
definition SCRYPT_R :: nat where "SCRYPT_R = 8"
definition SCRYPT_P :: nat where "SCRYPT_P = 1"
definition SALT_LEN :: nat where "SALT_LEN = 16"
definition VAULT_NONCE_LEN :: nat where "VAULT_NONCE_LEN = 12"
definition KEK_LEN :: nat where "KEK_LEN = 32"
definition DEK_LEN :: nat where "DEK_LEN = 32"

datatype vault_error =
    VaultExists
  | WeakPassphrase
  | WrongSecret
  | BadRecoveryCode
  | MissingField pystr
  | WrongType
  | BadValue
  | KdfFailed
  | NotFound
  | CannotWrite

text \<open>A field of the key file that is null in the file is \<^verbatim>\<open>None\<close>, which neither primitive takes.\<close>

definition need_bytes :: "bytes option \<Rightarrow> vault_error + bytes" where
  "need_bytes b = (case b of None \<Rightarrow> Inl WrongType | Some x \<Rightarrow> Inr x)"

definition derive_kek :: "vault_crypto \<Rightarrow> bytes \<Rightarrow> bytes option \<Rightarrow> vault_error + bytes" where
  "derive_kek C secret salt =
     res_bind (need_bytes salt) (\<lambda>s.
       case scrypt C s KEK_LEN SCRYPT_N SCRYPT_R SCRYPT_P secret of
         None \<Rightarrow> Inl KdfFailed
       | Some kek \<Rightarrow> Inr kek)"

definition wrap_dek :: "vault_crypto \<Rightarrow> bytes \<Rightarrow> bytes \<Rightarrow> bytes \<Rightarrow> vault_error + bytes \<times> bytes" where
  "wrap_dek C nonce kek dek =
     (case gcm_encrypt C kek nonce dek of
        Inl _ \<Rightarrow> Inl BadValue
      | Inr ciphertext \<Rightarrow> Inr (ciphertext, nonce))"

definition unwrap_dek :: "vault_crypto \<Rightarrow> bytes \<Rightarrow> bytes option \<Rightarrow> bytes option \<Rightarrow> vault_error + bytes" where
  "unwrap_dek C kek ciphertext nonce =
     res_bind (need_bytes nonce) (\<lambda>n. res_bind (need_bytes ciphertext) (\<lambda>c.
       case gcm_decrypt C kek n c of
         Inl InvalidTag \<Rightarrow> Inl WrongSecret
       | Inl OtherGcmError \<Rightarrow> Inl BadValue
       | Inr dek \<Rightarrow> Inr dek))"

section \<open>Passphrases\<close>

definition MIN_PASSPHRASE_LEN :: nat where "MIN_PASSPHRASE_LEN = 8"

definition validate_passphrase :: "pystr \<Rightarrow> pystr option \<Rightarrow> vault_error + unit" where
  "validate_passphrase passphrase device_name =
     (if passphrase = [] then Inl WeakPassphrase
      else if length passphrase < MIN_PASSPHRASE_LEN then Inl WeakPassphrase
      else if device_name = Some passphrase then Inl WeakPassphrase
      else Inr ())"

definition encode_passphrase :: "pystr \<Rightarrow> vault_error + bytes" where
  "encode_passphrase passphrase =
     (case utf8_encode passphrase of None \<Rightarrow> Inl BadValue | Some b \<Rightarrow> Inr b)"

section \<open>The key file\<close>

definition VAULT_SCHEMA_VERSION :: int where "VAULT_SCHEMA_VERSION = 1"

record VaultKeyfile =
  vk_version :: json
  vk_kdf :: json
  vk_kdf_params :: json
  vk_passphrase_salt :: "bytes option"
  vk_wrapped_dek_passphrase :: "bytes option"
  vk_wrapped_dek_passphrase_nonce :: "bytes option"
  vk_recovery_salt :: "bytes option"
  vk_wrapped_dek_recovery :: "bytes option"
  vk_wrapped_dek_recovery_nonce :: "bytes option"
  vk_created_at :: json
  vk_critical_key_salt :: "bytes option"
  vk_critical_key_verifier_salt :: "bytes option"

definition b64_json :: "bytes option \<Rightarrow> json" where
  "b64_json b = (case b of None \<Rightarrow> JNull | Some x \<Rightarrow> JStr (b64encode x))"

definition to_json_dict :: "VaultKeyfile \<Rightarrow> json" where
  "to_json_dict k = JObj
     [(lit ''version'', vk_version k),
      (lit ''kdf'', vk_kdf k),
      (lit ''kdf_params'', vk_kdf_params k),
      (lit ''passphrase_salt'', b64_json (vk_passphrase_salt k)),
      (lit ''wrapped_dek_passphrase'', b64_json (vk_wrapped_dek_passphrase k)),
      (lit ''wrapped_dek_passphrase_nonce'', b64_json (vk_wrapped_dek_passphrase_nonce k)),
      (lit ''recovery_salt'', b64_json (vk_recovery_salt k)),
      (lit ''wrapped_dek_recovery'', b64_json (vk_wrapped_dek_recovery k)),
      (lit ''wrapped_dek_recovery_nonce'', b64_json (vk_wrapped_dek_recovery_nonce k)),
      (lit ''critical_key_salt'', b64_json (vk_critical_key_salt k)),
      (lit ''critical_key_verifier_salt'', b64_json (vk_critical_key_verifier_salt k)),
      (lit ''created_at'', vk_created_at k)]"

text \<open>
  Decoding is loose: characters outside the alphabet are skipped. A value that is neither a
  string nor null raises \<^verbatim>\<open>TypeError\<close>; so does a field of anything but an object.
\<close>

fun unb64 :: "json \<Rightarrow> vault_error + bytes option" where
  "unb64 JNull = Inr None"
| "unb64 (JStr s) = (case b64decode False s of None \<Rightarrow> Inl BadValue | Some b \<Rightarrow> Inr (Some b))"
| "unb64 _ = Inl WrongType"

fun item :: "json \<Rightarrow> string \<Rightarrow> vault_error + json" where
  "item (JObj kvs) k = (case map_of kvs (lit k) of None \<Rightarrow> Inl (MissingField (lit k)) | Some v \<Rightarrow> Inr v)"
| "item _ k = Inl WrongType"

fun item_or_null :: "json \<Rightarrow> string \<Rightarrow> json" where
  "item_or_null (JObj kvs) k = (case map_of kvs (lit k) of None \<Rightarrow> JNull | Some v \<Rightarrow> v)"
| "item_or_null _ k = JNull"

definition bytes_item :: "json \<Rightarrow> string \<Rightarrow> vault_error + bytes option" where
  "bytes_item d k = res_bind (item d k) unb64"

definition from_json_dict :: "json \<Rightarrow> vault_error + VaultKeyfile" where
  "from_json_dict d =
     res_bind (item d ''version'') (\<lambda>ver.
     res_bind (item d ''kdf'') (\<lambda>kdf.
     res_bind (item d ''kdf_params'') (\<lambda>params.
     res_bind (bytes_item d ''passphrase_salt'') (\<lambda>ps.
     res_bind (bytes_item d ''wrapped_dek_passphrase'') (\<lambda>wp.
     res_bind (bytes_item d ''wrapped_dek_passphrase_nonce'') (\<lambda>wpn.
     res_bind (bytes_item d ''recovery_salt'') (\<lambda>rs.
     res_bind (bytes_item d ''wrapped_dek_recovery'') (\<lambda>wr.
     res_bind (bytes_item d ''wrapped_dek_recovery_nonce'') (\<lambda>wrn.
     res_bind (unb64 (item_or_null d ''critical_key_salt'')) (\<lambda>cs.
     res_bind (unb64 (item_or_null d ''critical_key_verifier_salt'')) (\<lambda>cvs.
     res_bind (item d ''created_at'') (\<lambda>created.
       Inr \<lparr>vk_version = ver, vk_kdf = kdf, vk_kdf_params = params, vk_passphrase_salt = ps,
            vk_wrapped_dek_passphrase = wp, vk_wrapped_dek_passphrase_nonce = wpn, vk_recovery_salt = rs,
            vk_wrapped_dek_recovery = wr, vk_wrapped_dek_recovery_nonce = wrn, vk_created_at = created,
            vk_critical_key_salt = cs, vk_critical_key_verifier_salt = cvs\<rparr>))))))))))))"

section \<open>Saving and loading\<close>

definition vault_exists :: "filesystem \<Rightarrow> pystr \<Rightarrow> bool" where
  "vault_exists fs path = path_exists fs path"

definition or_dot :: "pystr \<Rightarrow> pystr" where
  "or_dot d = (if d = [] then [DOT] else d)"

definition tmp_path :: "pystr \<Rightarrow> pystr" where
  "tmp_path path = path @ lit ''.tmp''"

definition save_vault_keyfile :: "filesystem \<Rightarrow> VaultKeyfile \<Rightarrow> pystr \<Rightarrow> (vault_error + unit) \<times> filesystem" where
  "save_vault_keyfile fs keyfile path =
     (case os_makedirs fs (or_dot (path_dirname path)) of
        None \<Rightarrow> (Inl CannotWrite, fs)
      | Some fs1 \<Rightarrow>
          (case write_text fs1 (tmp_path path) (json_dump_indent (to_json_dict keyfile)) of
             (Inl _, fs2) \<Rightarrow> (Inl CannotWrite, fs2)
           | (Inr _, fs2) \<Rightarrow>
               if path \<in> set (fs_dirs fs2) then (Inl CannotWrite, fs2)
               else case os_replace fs2 (tmp_path path) path of
                 None \<Rightarrow> (Inl CannotWrite, fs2)
               | Some fs3 \<Rightarrow> (Inr (), fs3)))"

definition load_vault_keyfile :: "filesystem \<Rightarrow> pystr \<Rightarrow> vault_error + VaultKeyfile" where
  "load_vault_keyfile fs path =
     (case load_json fs path of
        Inl NoSuchFile \<Rightarrow> Inl NotFound
      | Inl _ \<Rightarrow> Inl BadValue
      | Inr d \<Rightarrow> from_json_dict d)"

section \<open>Operations\<close>

record vault_random =
  r_dek :: bytes
  r_recovery :: bytes
  r_passphrase_salt :: bytes
  r_passphrase_nonce :: bytes
  r_recovery_salt :: bytes
  r_recovery_nonce :: bytes

definition random_ok :: "vault_random \<Rightarrow> bool" where
  "random_ok r \<longleftrightarrow>
     length (r_dek r) = DEK_LEN \<and> length (r_recovery r) = RECOVERY_CODE_BYTES \<and>
     length (r_passphrase_salt r) = SALT_LEN \<and> length (r_passphrase_nonce r) = VAULT_NONCE_LEN \<and>
     length (r_recovery_salt r) = SALT_LEN \<and> length (r_recovery_nonce r) = VAULT_NONCE_LEN"

definition new_keyfile ::
    "vault_crypto \<Rightarrow> vault_random \<Rightarrow> pystr \<Rightarrow> pystr \<Rightarrow> pystr option \<Rightarrow> vault_error + VaultKeyfile \<times> pystr" where
  "new_keyfile C r now passphrase device_name =
     res_bind (validate_passphrase passphrase device_name) (\<lambda>_.
     let dek = r_dek r; recovery_code = generate_recovery_code (r_recovery r) in
     res_bind (case normalize_recovery_code recovery_code of None \<Rightarrow> Inl BadRecoveryCode | Some raw \<Rightarrow> Inr raw) (\<lambda>recovery_raw.
     res_bind (encode_passphrase passphrase) (\<lambda>secret.
     res_bind (derive_kek C secret (Some (r_passphrase_salt r))) (\<lambda>passphrase_kek.
     res_bind (wrap_dek C (r_passphrase_nonce r) passphrase_kek dek) (\<lambda>(wrapped_p, nonce_p).
     res_bind (derive_kek C recovery_raw (Some (r_recovery_salt r))) (\<lambda>recovery_kek.
     res_bind (wrap_dek C (r_recovery_nonce r) recovery_kek dek) (\<lambda>(wrapped_r, nonce_r).
       Inr (\<lparr>vk_version = JInt VAULT_SCHEMA_VERSION, vk_kdf = JStr (lit ''scrypt''),
             vk_kdf_params = JObj [(lit ''n'', JInt (int SCRYPT_N)), (lit ''r'', JInt (int SCRYPT_R)), (lit ''p'', JInt (int SCRYPT_P))],
             vk_passphrase_salt = Some (r_passphrase_salt r), vk_wrapped_dek_passphrase = Some wrapped_p,
             vk_wrapped_dek_passphrase_nonce = Some nonce_p, vk_recovery_salt = Some (r_recovery_salt r),
             vk_wrapped_dek_recovery = Some wrapped_r, vk_wrapped_dek_recovery_nonce = Some nonce_r,
             vk_created_at = JFloat now, vk_critical_key_salt = None, vk_critical_key_verifier_salt = None\<rparr>,
            recovery_code))))))))"

definition create_vault ::
    "vault_crypto \<Rightarrow> vault_random \<Rightarrow> pystr \<Rightarrow> filesystem \<Rightarrow> pystr \<Rightarrow> pystr option \<Rightarrow> pystr \<Rightarrow>
     (vault_error + VaultKeyfile \<times> pystr) \<times> filesystem" where
  "create_vault C r now fs passphrase device_name path =
     (if vault_exists fs path then (Inl VaultExists, fs)
      else case new_keyfile C r now passphrase device_name of
        Inl e \<Rightarrow> (Inl e, fs)
      | Inr (keyfile, recovery_code) \<Rightarrow>
          (case save_vault_keyfile fs keyfile path of
             (Inl e, fs') \<Rightarrow> (Inl e, fs')
           | (Inr _, fs') \<Rightarrow> (Inr (keyfile, recovery_code), fs')))"

definition unlock_with_passphrase :: "vault_crypto \<Rightarrow> VaultKeyfile \<Rightarrow> pystr \<Rightarrow> vault_error + bytes" where
  "unlock_with_passphrase C keyfile passphrase =
     res_bind (encode_passphrase passphrase) (\<lambda>secret.
     res_bind (derive_kek C secret (vk_passphrase_salt keyfile)) (\<lambda>kek.
       unwrap_dek C kek (vk_wrapped_dek_passphrase keyfile) (vk_wrapped_dek_passphrase_nonce keyfile)))"

definition unlock_with_recovery_code :: "vault_crypto \<Rightarrow> VaultKeyfile \<Rightarrow> pystr \<Rightarrow> vault_error + bytes" where
  "unlock_with_recovery_code C keyfile recovery_code =
     (case normalize_recovery_code recovery_code of
        None \<Rightarrow> Inl BadRecoveryCode
      | Some raw \<Rightarrow>
          res_bind (derive_kek C raw (vk_recovery_salt keyfile)) (\<lambda>kek.
            unwrap_dek C kek (vk_wrapped_dek_recovery keyfile) (vk_wrapped_dek_recovery_nonce keyfile)))"

text \<open>The key file is changed in place, after everything that can raise.\<close>

definition change_passphrase ::
    "vault_crypto \<Rightarrow> bytes \<Rightarrow> bytes \<Rightarrow> VaultKeyfile \<Rightarrow> pystr \<Rightarrow> pystr \<Rightarrow> pystr option \<Rightarrow> (vault_error + unit) \<times> VaultKeyfile" where
  "change_passphrase C new_salt new_nonce keyfile old_passphrase new_passphrase device_name =
     (case res_bind (validate_passphrase new_passphrase device_name) (\<lambda>_.
           res_bind (unlock_with_passphrase C keyfile old_passphrase) (\<lambda>dek.
           res_bind (encode_passphrase new_passphrase) (\<lambda>secret.
           res_bind (derive_kek C secret (Some new_salt)) (\<lambda>new_kek.
             wrap_dek C new_nonce new_kek dek)))) of
        Inl e \<Rightarrow> (Inl e, keyfile)
      | Inr (new_wrapped, nonce) \<Rightarrow>
          (Inr (),
           keyfile\<lparr>vk_passphrase_salt := Some new_salt, vk_wrapped_dek_passphrase := Some new_wrapped,
                   vk_wrapped_dek_passphrase_nonce := Some nonce\<rparr>))"

section \<open>Saving and loading again\<close>

definition wf_keyfile :: "VaultKeyfile \<Rightarrow> bool" where
  "wf_keyfile k \<longleftrightarrow> wf_json (vk_version k) \<and> wf_json (vk_kdf k) \<and> wf_json (vk_kdf_params k) \<and> wf_json (vk_created_at k)"

lemma unb64_b64_json [simp]: "unb64 (b64_json b) = Inr b"
  by (cases b) (simp_all add: b64_json_def)

lemma wf_b64_json [simp]: "wf_json (b64_json b)"
  by (cases b) (simp_all add: b64_json_def b64encode_ascii wf_str_ascii)

lemma from_to_json_dict: "from_json_dict (to_json_dict k) = Inr k"
  by (simp add: from_json_dict_def to_json_dict_def bytes_item_def res_bind_def lit_def)

lemma wf_to_json_dict: "wf_keyfile k \<Longrightarrow> wf_json (to_json_dict k)"
  by (simp add: wf_keyfile_def to_json_dict_def dict_ok_def wf_str_ascii list_all_iff is_ascii_def lit_def
      is_high_surrogate_def)

lemma tmp_path_other [simp]: "tmp_path path \<noteq> path" "path \<noteq> tmp_path path"
  by (simp_all add: tmp_path_def lit_def)

lemma read_file_os_replace:
  assumes "os_replace fs p q = Some fs'" "p \<noteq> q" "fs_ok fs"
  shows "read_file fs' x = (if x = q then read_file fs p else if x = p then None else read_file fs x)"
  using assms by (auto simp: os_replace_def read_file_def fs_ok_def split: option.splits)

lemma load_vault_keyfile_cong: "read_file fs p = read_file fs' p \<Longrightarrow> load_vault_keyfile fs p = load_vault_keyfile fs' p"
  by (simp add: load_vault_keyfile_def load_json_cong [of fs p fs'])

lemma load_vault_keyfile_written:
  assumes "read_file fs p = Some data" "utf8_encode (json_dump_indent (to_json_dict k)) = Some data" "wf_keyfile k"
  shows "load_vault_keyfile fs p = Inr k"
  using load_json_bytes [OF assms(1,2) wf_to_json_dict [OF assms(3)]]
  by (simp add: load_vault_keyfile_def from_to_json_dict)

lemma save_vault_keyfile_reads:
  assumes "fs_ok fs" "wf_keyfile k"
  shows "load_vault_keyfile (snd (save_vault_keyfile fs k path)) path =
    (if fst (save_vault_keyfile fs k path) = Inr () then Inr k else load_vault_keyfile fs path)"
proof (cases "os_makedirs fs (or_dot (path_dirname path))")
  case (Some fs1)
  let ?text = "json_dump_indent (to_json_dict k)"
  have ok1: "fs_ok fs1" using fs_ok_makedirs [OF assms(1) Some] .
  obtain w fs2 where w: "write_text fs1 (tmp_path path) ?text = (w, fs2)" by fastforce
  have ok2: "fs_ok fs2" using fs_ok_write_text [OF ok1, of "tmp_path path" ?text] w by simp
  have "read_file fs2 path = read_file fs path"
    using read_file_write_text_other [OF ok1, of path "tmp_path path" ?text] w read_file_makedirs [OF Some] by simp
  then have same: "load_vault_keyfile fs2 path = load_vault_keyfile fs path" by (rule load_vault_keyfile_cong)
  have new: "load_vault_keyfile fs3 path = Inr k"
    if wr: "w = Inr ()" and r: "os_replace fs2 (tmp_path path) path = Some fs3" for fs3
  proof -
    obtain data where "utf8_encode ?text = Some data" "read_file fs2 (tmp_path path) = Some data"
      using write_text_Inr [of fs1 "tmp_path path" ?text fs2] w wr ok1 by metis
    moreover from this have "read_file fs3 path = Some data" using read_file_os_replace [OF r _ ok2] by simp
    ultimately show ?thesis using load_vault_keyfile_written assms(2) by blast
  qed
  show ?thesis
    using Some w same new by (auto simp: save_vault_keyfile_def split: sum.splits option.splits)
qed (simp add: save_vault_keyfile_def)

text \<open>The states of the file system that a crash during a save can leave.\<close>

definition save_states :: "filesystem \<Rightarrow> VaultKeyfile \<Rightarrow> pystr \<Rightarrow> filesystem list" where
  "save_states fs k path =
     fs #
     (case os_makedirs fs (or_dot (path_dirname path)) of
        None \<Rightarrow> []
      | Some fs1 \<Rightarrow>
          (if tmp_path path \<in> set (fs_dirs fs1) then [fs1]
           else case utf8_encode (json_dump_indent (to_json_dict k)) of
             None \<Rightarrow> write_states fs1 (tmp_path path) []
           | Some data \<Rightarrow> write_states fs1 (tmp_path path) data)) @
     [snd (save_vault_keyfile fs k path)]"

lemma write_states_other:
  assumes "fs_ok fs1" "s \<in> set (write_states fs1 (tmp_path path) data)"
  shows "load_vault_keyfile s path = load_vault_keyfile fs1 path"
  using read_file_write_states(1) [OF assms, of path] by (intro load_vault_keyfile_cong) simp


section \<open>Unlocking\<close>

lemma scryptD:
  assumes "scrypt_ok C"
  obtains k where "derive_kek C secret (Some salt) = Inr k" "length k = 32"
proof -
  obtain k where "scrypt C salt KEK_LEN SCRYPT_N SCRYPT_R SCRYPT_P secret = Some k" "length k = KEK_LEN"
    using assms unfolding scrypt_ok_def by blast
  then show ?thesis using that by (simp add: derive_kek_def need_bytes_def KEK_LEN_def)
qed

lemma gcmD:
  assumes "gcm_ok C" "length kek = 32" "length nonce = 12" "length dek < 2 ^ 31"
  obtains c where "wrap_dek C nonce kek dek = Inr (c, nonce)" "unwrap_dek C kek (Some c) (Some nonce) = Inr dek"
proof -
  obtain c where c: "gcm_encrypt C kek nonce dek = Inr c" using assms unfolding gcm_ok_def by blast
  then have "gcm_decrypt C kek nonce c = Inr dek" using assms(1) unfolding gcm_ok_def by blast
  with c show ?thesis using that by (simp add: wrap_dek_def unwrap_dek_def need_bytes_def)
qed

lemma wrap_unwrap:
  assumes "gcm_ok C" "wrap_dek C nonce kek dek = Inr (c, n)"
  shows "unwrap_dek C kek (Some c) (Some n) = Inr dek"
  using assms by (auto simp: wrap_dek_def unwrap_dek_def need_bytes_def gcm_ok_def split: sum.splits)

lemma refused_key:
  assumes "gcm_rejects C" "wrap_dek C nonce kek dek = Inr (c, n)" "length kek = 32" "length ko = 32" "ko \<noteq> kek"
  shows "unwrap_dek C ko (Some c) (Some n) = Inl WrongSecret"
  using assms by (auto simp: wrap_dek_def unwrap_dek_def need_bytes_def gcm_rejects_def split: sum.splits)

lemma normalize_generated:
  assumes "length raw = 20"
  shows "normalize_recovery_code (generate_recovery_code raw) = Some raw"
    and "normalize_recovery_code (lower (generate_recovery_code raw)) = Some raw"
  using normalize_cleaned [OF assms, of "generate_recovery_code raw"]
    normalize_cleaned [OF assms, of "lower (generate_recovery_code raw)"]
  by (simp_all add: clean_lower generated_symbols assms clean_generated)

text \<open>Both wrapped copies of a new key file open, and it can be written.\<close>

lemma new_keyfile_unlocks:
  assumes ok: "scrypt_ok C" "gcm_ok C" "random_ok r" "wf_float now"
    and valid: "validate_passphrase passphrase device_name = Inr ()" "utf8_encode passphrase = Some secret"
  obtains k where "new_keyfile C r now passphrase device_name = Inr (k, generate_recovery_code (r_recovery r))"
    "wf_keyfile k" "unlock_with_passphrase C k passphrase = Inr (r_dek r)"
    "\<And>code. normalize_recovery_code code = Some (r_recovery r) \<Longrightarrow> unlock_with_recovery_code C k code = Inr (r_dek r)"
proof -
  have raw: "length (r_recovery r) = 20" and lens: "length (r_dek r) < 2 ^ 31"
      "length (r_passphrase_nonce r) = 12" "length (r_recovery_nonce r) = 12"
    using ok(3) by (simp_all add: random_ok_def RECOVERY_CODE_BYTES_def DEK_LEN_def VAULT_NONCE_LEN_def)
  obtain kp where kp: "derive_kek C secret (Some (r_passphrase_salt r)) = Inr kp" "length kp = 32"
    using scryptD [OF ok(1)] by blast
  obtain kr where kr: "derive_kek C (r_recovery r) (Some (r_recovery_salt r)) = Inr kr" "length kr = 32"
    using scryptD [OF ok(1)] by blast
  obtain cp where cp: "wrap_dek C (r_passphrase_nonce r) kp (r_dek r) = Inr (cp, r_passphrase_nonce r)"
      "unwrap_dek C kp (Some cp) (Some (r_passphrase_nonce r)) = Inr (r_dek r)"
    using gcmD [OF ok(2) kp(2) lens(2,1)] by blast
  obtain cr where cr: "wrap_dek C (r_recovery_nonce r) kr (r_dek r) = Inr (cr, r_recovery_nonce r)"
      "unwrap_dek C kr (Some cr) (Some (r_recovery_nonce r)) = Inr (r_dek r)"
    using gcmD [OF ok(2) kr(2) lens(3,1)] by blast
  show ?thesis
    by (rule that, simp add: new_keyfile_def Let_def valid normalize_cleaned [OF raw clean_generated [OF raw]]
        encode_passphrase_def kp cp kr cr)
      (use ok(4) in \<open>simp_all add: wf_keyfile_def unlock_with_passphrase_def unlock_with_recovery_code_def
        encode_passphrase_def valid kp cp kr cr dict_ok_def wf_str_ascii is_ascii_def lit_def is_high_surrogate_def\<close>)
qed

text \<open>What the place of the vault has to be like: no file where a directory is needed, and no directory in its way.\<close>

definition vault_place_ok :: "filesystem \<Rightarrow> pystr \<Rightarrow> bool" where
  "vault_place_ok fs path \<longleftrightarrow>
     (case os_makedirs fs (or_dot (path_dirname path)) of
        None \<Rightarrow> False
      | Some fs1 \<Rightarrow> path \<notin> set (fs_dirs fs1) \<and> tmp_path path \<notin> set (fs_dirs fs1))"

lemma save_vault_keyfile_succeeds:
  assumes "fs_ok fs" "wf_keyfile k" "vault_place_ok fs path"
  shows "fst (save_vault_keyfile fs k path) = Inr ()"
proof -
  let ?text = "json_dump_indent (to_json_dict k)"
  obtain fs1 where fs1: "os_makedirs fs (or_dot (path_dirname path)) = Some fs1"
    "path \<notin> set (fs_dirs fs1)" "tmp_path path \<notin> set (fs_dirs fs1)"
    using assms(3) by (auto simp: vault_place_ok_def split: option.splits)
  have ok1: "fs_ok fs1" by (rule fs_ok_makedirs [OF assms(1) fs1(1)])
  have "fst (write_text fs1 (tmp_path path) ?text) = Inr ()"
    using write_text_ascii [OF json_dump_indent_ascii fs1(3)] wf_to_json_dict [OF assms(2)] .
  then obtain fs2 where fs2: "write_text fs1 (tmp_path path) ?text = (Inr (), fs2)"
    by (metis prod.collapse)
  then obtain data where "read_file fs2 (tmp_path path) = Some data" "fs_dirs fs2 = fs_dirs fs1"
    using write_text_Inr [OF _ ok1] by metis
  then show ?thesis
    using fs1 fs2 by (auto simp: save_vault_keyfile_def os_replace_def read_file_def split: option.splits)
qed

text \<open>
  Claim C7. Setting up a vault works and both secrets open it: where there is no vault yet
  and the passphrase is acceptable, \<^verbatim>\<open>create_vault\<close> returns a key file and a recovery code, the
  file loads again as that key file, and the passphrase and the recovery code (as shown, or in
  lower case) each unlock the data key that was generated.
\<close>

theorem vault_unlocks:
  assumes ok: "scrypt_ok C" "gcm_ok C" "random_ok r" "wf_float now" "fs_ok fs"
    and place: "\<not> vault_exists fs path" "vault_place_ok fs path"
    and valid: "validate_passphrase passphrase device_name = Inr ()" "utf8_encode passphrase \<noteq> None"
  shows "\<exists>k fs'. let code = generate_recovery_code (r_recovery r) in
    create_vault C r now fs passphrase device_name path = (Inr (k, code), fs') \<and>
    load_vault_keyfile fs' path = Inr k \<and>
    unlock_with_passphrase C k passphrase = Inr (r_dek r) \<and>
    unlock_with_recovery_code C k code = Inr (r_dek r) \<and>
    unlock_with_recovery_code C k (lower code) = Inr (r_dek r)"
proof -
  have raw: "length (r_recovery r) = 20" using ok(3) by (simp add: random_ok_def RECOVERY_CODE_BYTES_def)
  obtain secret where "utf8_encode passphrase = Some secret" using valid(2) by blast
  then obtain k where k: "new_keyfile C r now passphrase device_name = Inr (k, generate_recovery_code (r_recovery r))"
    "wf_keyfile k" "unlock_with_passphrase C k passphrase = Inr (r_dek r)"
    "\<And>code. normalize_recovery_code code = Some (r_recovery r) \<Longrightarrow> unlock_with_recovery_code C k code = Inr (r_dek r)"
    using new_keyfile_unlocks [OF ok(1-4) valid(1)] by blast
  obtain fs' where fs': "save_vault_keyfile fs k path = (Inr (), fs')"
    using save_vault_keyfile_succeeds [OF ok(5) k(2) place(2)] by (metis prod.collapse)
  then have "load_vault_keyfile fs' path = Inr k"
    using save_vault_keyfile_reads [OF ok(5) k(2), of path] by simp
  moreover have "create_vault C r now fs passphrase device_name path = (Inr (k, generate_recovery_code (r_recovery r)), fs')"
    using place(1) k(1) fs' by (simp add: create_vault_def)
  ultimately show ?thesis
    using k(3,4) normalize_generated [OF raw] by (auto simp: Let_def)
qed

section \<open>Changing the passphrase\<close>


section \<open>A concrete instance\<close>

definition toy_vault :: vault_crypto where
  "toy_vault =
     \<lparr>scrypt = (\<lambda>salt len n r p secret. Some (take len (secret @ salt @ replicate len 0))),
      gcm_encrypt = (\<lambda>k n d. Inr (d @ k)),
      gcm_decrypt = (\<lambda>k n c.
        if length k \<le> length c \<and> drop (length c - length k) c = k then Inr (take (length c - length k) c)
        else Inl InvalidTag)\<rparr>"

definition toy_random :: vault_random where
  "toy_random =
     \<lparr>r_dek = replicate 32 7, r_recovery = replicate 20 0, r_passphrase_salt = replicate 16 1,
      r_passphrase_nonce = replicate 12 2, r_recovery_salt = replicate 16 3, r_recovery_nonce = replicate 12 4\<rparr>"

lemma toy_vault_ok: "scrypt_ok toy_vault" "gcm_ok toy_vault" "gcm_rejects toy_vault"
  by (auto simp: scrypt_ok_def gcm_ok_def gcm_rejects_def toy_vault_def)

lemma toy_random_ok: "random_ok toy_random"
  by (simp only: random_ok_def toy_random_def vault_random.simps length_replicate DEK_LEN_def RECOVERY_CODE_BYTES_def
      SALT_LEN_def VAULT_NONCE_LEN_def)

lemma home_place: "vault_place_ok home_fs (lit ''/h/v/k'')"
  by (simp add: vault_place_ok_def home_fs_def or_dot_def path_dirname_def path_basename_def os_makedirs_def ancestors_def
      tmp_path_def path_isfile_def lit_def SEP_def DOT_def Let_def upt_rec)

theorem vault_unlocks_witness:
  "\<exists>k fs'. let code = generate_recovery_code (replicate 20 0) in
    create_vault toy_vault toy_random (lit ''0.0'') home_fs (lit ''long enough'') None (lit ''/h/v/k'') = (Inr (k, code), fs') \<and>
    unlock_with_passphrase toy_vault k (lit ''long enough'') = Inr (r_dek toy_random)"
proof -
  have "r_recovery toy_random = replicate 20 0" by (simp only: toy_random_def vault_random.simps)
  moreover have "\<not> vault_exists home_fs (lit ''/h/v/k'')"
    by (simp add: vault_exists_def path_exists_def path_isfile_def home_fs_def lit_def)
  moreover have "validate_passphrase (lit ''long enough'') None = Inr ()"
    by (simp add: validate_passphrase_def MIN_PASSPHRASE_LEN_def lit_def)
  moreover have "utf8_encode (lit ''long enough'') \<noteq> None"
    by (simp add: utf8_encode_ascii lit_def is_ascii_def)
  ultimately show ?thesis
    using vault_unlocks [OF toy_vault_ok(1,2) toy_random_ok wf_float_zero home_fs_ok _ home_place, of "lit ''long enough''" None]
    by (auto simp: Let_def)
qed

definition toy_keyfile :: VaultKeyfile where
  "toy_keyfile =
     \<lparr>vk_version = JInt 1, vk_kdf = JNull, vk_kdf_params = JNull, vk_passphrase_salt = Some [1],
      vk_wrapped_dek_passphrase = Some ([9] @ blit ''old'' @ [1] @ replicate 28 0),
      vk_wrapped_dek_passphrase_nonce = Some [], vk_recovery_salt = None, vk_wrapped_dek_recovery = None,
      vk_wrapped_dek_recovery_nonce = None, vk_created_at = JInt 0, vk_critical_key_salt = None,
      vk_critical_key_verifier_salt = None\<rparr>"

lemma toy_encodings: "encode_passphrase (lit ''old'') = Inr (blit ''old'')" "encode_passphrase (lit ''brand new'') = Inr (blit ''brand new'')"
  by (simp_all add: encode_passphrase_def utf8_encode_ascii ascii_bytes_def lit_def blit_def is_ascii_def byte_of_def)

lemma toy_kek: "derive_kek toy_vault secret (Some salt) = Inr (take 32 (secret @ salt @ replicate 32 0))"
  by (simp add: derive_kek_def toy_vault_def need_bytes_def KEK_LEN_def)

lemma toy_wrap: "wrap_dek toy_vault nonce kek dek = Inr (dek @ kek, nonce)"
  by (simp add: wrap_dek_def toy_vault_def)

lemma toy_unwrap: "unwrap_dek toy_vault kek (Some (dek @ kek)) (Some nonce) = Inr dek"
  by (simp add: unwrap_dek_def toy_vault_def need_bytes_def)

lemma toy_keyfile_old:
  "unlock_with_passphrase toy_vault toy_keyfile (lit ''old'') = Inr [9]"
  "fst (change_passphrase toy_vault [2] (replicate 12 0) toy_keyfile (lit ''old'') (lit ''brand new'') None) = Inr ()"
proof -
  have "take 32 (blit ''old'' @ [1] @ replicate 32 0) = blit ''old'' @ [1] @ replicate 28 0"
    by (simp add: blit_def)
  then show old: "unlock_with_passphrase toy_vault toy_keyfile (lit ''old'') = Inr [9]"
    unfolding unlock_with_passphrase_def toy_encodings res_bind_simps toy_keyfile_def VaultKeyfile.simps toy_kek
    by (simp only: toy_unwrap)
  have "validate_passphrase (lit ''brand new'') None = Inr ()"
    by (simp add: validate_passphrase_def MIN_PASSPHRASE_LEN_def lit_def)
  then show "fst (change_passphrase toy_vault [2] (replicate 12 0) toy_keyfile (lit ''old'') (lit ''brand new'') None) = Inr ()"
    by (simp only: change_passphrase_def old toy_encodings toy_kek toy_wrap res_bind_simps sum.case prod.case fst_conv)
qed



end
