(* ===== verification/Identity_File.thy ===== *)
theory Identity_File
  imports Rotation Text_Files Py_Values
begin

text \<open>
  Where a device keeps its identity: \<^verbatim>\<open>core/identity/key_storage.py\<close> (the private key, in the
  keyring of the operating system or in a file) and \<^verbatim>\<open>core/identity/identity_file.py\<close> (the public
  metadata in \<^verbatim>\<open>identity.json\<close>, its creation, loading and rotation). The \<^verbatim>\<open>keyring\<close> package is a
  record of functions on a state of its own; a call that raises \<^verbatim>\<open>KeyringError\<close> gives \<open>None\<close>, and a
  keyring that raises anything else is not covered. Fresh keys and the time are arguments.
\<close>

section \<open>The keyring\<close>

record 'k keyring =
  kr_usable :: "'k \<Rightarrow> bool"
  kr_set :: "pystr \<Rightarrow> pystr \<Rightarrow> pystr \<Rightarrow> 'k \<Rightarrow> 'k option"
  kr_get :: "pystr \<Rightarrow> pystr \<Rightarrow> 'k \<Rightarrow> pystr option option"
  kr_delete :: "pystr \<Rightarrow> pystr \<Rightarrow> 'k \<Rightarrow> 'k option"

text \<open>Documented behaviour: a password that was set is the one that is read.\<close>

definition keyring_ok :: "'k keyring \<Rightarrow> bool" where
  "keyring_ok K \<longleftrightarrow> (\<forall>svc user pw s s'. kr_set K svc user pw s = Some s' \<longrightarrow> kr_get K svc user s' = Some (Some pw))"

record 'k storage =
  st_fs :: filesystem
  st_keyring :: 'k

datatype backend = Keyring | PlaintextFile

record KeyStore =
  ks_plaintext_fallback_path :: pystr
  ks_backend_name :: backend

definition SERVICE_NAME :: pystr where
  "SERVICE_NAME = lit ''peerc-device-identity''"

definition KEYRING_USERNAME :: pystr where
  "KEYRING_USERNAME = lit ''device-identity''"

definition new_key_store :: "'k keyring \<Rightarrow> 'k storage \<Rightarrow> pystr \<Rightarrow> KeyStore" where
  "new_key_store K st plaintext_fallback_path =
     \<lparr>ks_plaintext_fallback_path = plaintext_fallback_path,
      ks_backend_name = (if kr_usable K (st_keyring st) then Keyring else PlaintextFile)\<rparr>"

text \<open>\<^verbatim>\<open>if directory: os.makedirs(directory, exist_ok=True)\<close>, before a file is written.\<close>

definition make_parent :: "filesystem \<Rightarrow> pystr \<Rightarrow> filesystem option" where
  "make_parent fs p = (if path_dirname p = [] then Some fs else os_makedirs fs (path_dirname p))"

definition save_plaintext :: "'k storage \<Rightarrow> KeyStore \<Rightarrow> pystr \<Rightarrow> (file_error + unit) \<times> 'k storage" where
  "save_plaintext st ks key_pem =
     (case make_parent (st_fs st) (ks_plaintext_fallback_path ks) of
        None \<Rightarrow> (Inl NotWritable, st)
      | Some fs1 \<Rightarrow>
          let (r, fs2) = write_text fs1 (ks_plaintext_fallback_path ks) key_pem in (r, st\<lparr>st_fs := fs2\<rparr>))"

definition load_plaintext :: "'k storage \<Rightarrow> KeyStore \<Rightarrow> file_error + pystr option" where
  "load_plaintext st ks =
     (if \<not> path_exists (st_fs st) (ks_plaintext_fallback_path ks) then Inr None
      else case read_text (st_fs st) (ks_plaintext_fallback_path ks) of Inl e \<Rightarrow> Inl e | Inr s \<Rightarrow> Inr (Some s))"

definition save_private_key ::
    "'k keyring \<Rightarrow> 'k storage \<Rightarrow> KeyStore \<Rightarrow> pystr \<Rightarrow> pystr \<Rightarrow> (file_error + backend) \<times> 'k storage" where
  "save_private_key K st ks username key_pem =
     (case (if ks_backend_name ks = Keyring then kr_set K SERVICE_NAME username key_pem (st_keyring st) else None) of
        Some s' \<Rightarrow> (Inr Keyring, st\<lparr>st_keyring := s'\<rparr>)
      | None \<Rightarrow>
          (case save_plaintext st ks key_pem of
             (Inl e, st') \<Rightarrow> (Inl e, st')
           | (Inr _, st') \<Rightarrow> (Inr PlaintextFile, st')))"

definition load_private_key :: "'k keyring \<Rightarrow> 'k storage \<Rightarrow> KeyStore \<Rightarrow> pystr \<Rightarrow> file_error + pystr option" where
  "load_private_key K st ks username =
     (case (if ks_backend_name ks = Keyring then kr_get K SERVICE_NAME username (st_keyring st) else None) of
        Some (Some value) \<Rightarrow> Inr (Some value)
      | _ \<Rightarrow> load_plaintext st ks)"

definition delete_private_key :: "'k keyring \<Rightarrow> 'k storage \<Rightarrow> KeyStore \<Rightarrow> pystr \<Rightarrow> (file_error + unit) \<times> 'k storage" where
  "delete_private_key K st ks username =
     (let st1 =
        (case (if ks_backend_name ks = Keyring then kr_delete K SERVICE_NAME username (st_keyring st) else None) of
           Some s' \<Rightarrow> st\<lparr>st_keyring := s'\<rparr>
         | None \<Rightarrow> st) in
      if path_exists (st_fs st1) (ks_plaintext_fallback_path ks) then
        (case os_remove (st_fs st1) (ks_plaintext_fallback_path ks) of
           None \<Rightarrow> (Inl NotWritable, st1)
         | Some fs' \<Rightarrow> (Inr (), st1\<lparr>st_fs := fs'\<rparr>))
      else (Inr (), st1))"

section \<open>The identity file\<close>

definition IDENTITY_SCHEMA_VERSION :: int where
  "IDENTITY_SCHEMA_VERSION = 1"

record DeviceIdentity =
  di_keypair :: DeviceKeypair
  di_name :: json
  di_created_at :: json
  di_storage_backend :: backend

datatype id_file_error = IdentityErr identity_error | FileErr file_error | RotationErr rotation_error

definition file_res :: "file_error + 'a \<Rightarrow> id_file_error + 'a" where
  "file_res r = (case r of Inl e \<Rightarrow> Inl (FileErr e) | Inr x \<Rightarrow> Inr x)"

definition or_peer :: "json \<Rightarrow> json" where
  "or_peer v = (if truthy v then v else JStr (lit ''peer''))"

text \<open>\<^verbatim>\<open>meta.get\<close> of something that is not an object raises \<^verbatim>\<open>AttributeError\<close>, here \<open>NotAnIdentityObject\<close>.\<close>

definition load_existing ::
    "'x ed25519_scheme \<Rightarrow> 'k keyring \<Rightarrow> pystr \<Rightarrow> 'k storage \<Rightarrow> pystr \<Rightarrow> KeyStore \<Rightarrow> id_file_error + DeviceIdentity" where
  "load_existing C K now st identity_file ks =
     res_bind (file_res (load_json (st_fs st) identity_file)) (\<lambda>meta.
     res_bind (file_res (load_private_key K st ks KEYRING_USERNAME)) (\<lambda>pem.
       case pem of
         None \<Rightarrow> Inl (IdentityErr PrivateKeyMissing)
       | Some key \<Rightarrow>
           (case keypair_from_private_pem C key of
              Inl e \<Rightarrow> Inl (IdentityErr e)
            | Inr keypair \<Rightarrow>
                if \<not> is_obj meta then Inl (IdentityErr NotAnIdentityObject)
                else if jget meta (lit ''device_id'') \<noteq> Some (JStr (kp_device_id keypair)) then Inl (IdentityErr OutOfSync)
                else Inr
                  \<lparr>di_keypair = keypair,
                   di_name = or_peer (case jget meta (lit ''name'') of None \<Rightarrow> JNull | Some v \<Rightarrow> v),
                   di_created_at = (case jget meta (lit ''created_at'') of None \<Rightarrow> JFloat now | Some v \<Rightarrow> v),
                   di_storage_backend = ks_backend_name ks\<rparr>)))"

definition identity_meta :: "DeviceKeypair \<Rightarrow> json \<Rightarrow> pystr \<Rightarrow> (pystr \<times> json) list" where
  "identity_meta keypair name created_at =
     [(lit ''version'', JInt IDENTITY_SCHEMA_VERSION),
      (lit ''device_id'', JStr (kp_device_id keypair)),
      (lit ''public_key'', JStr (b64encode (kp_public keypair))),
      (lit ''name'', name),
      (lit ''created_at'', JFloat created_at)]"

text \<open>The directory is made and the metadata written over the file, in place.\<close>

definition write_meta :: "'k storage \<Rightarrow> pystr \<Rightarrow> json \<Rightarrow> (id_file_error + unit) \<times> 'k storage" where
  "write_meta st identity_file meta =
     (case make_parent (st_fs st) identity_file of
        None \<Rightarrow> (Inl (FileErr NotWritable), st)
      | Some fs1 \<Rightarrow>
          let (r, fs2) = write_text fs1 identity_file (json_dump_indent meta) in (file_res r, st\<lparr>st_fs := fs2\<rparr>))"

definition create_new ::
    "'x ed25519_scheme \<Rightarrow> 'k keyring \<Rightarrow> bytes \<Rightarrow> pystr \<Rightarrow> 'k storage \<Rightarrow> pystr \<Rightarrow> pystr \<Rightarrow> KeyStore \<Rightarrow>
     (id_file_error + DeviceIdentity) \<times> 'k storage" where
  "create_new C K fresh now st name identity_file ks =
     (let keypair = generate_keypair C fresh in
      case save_private_key K st ks KEYRING_USERNAME (private_key_pem C keypair) of
        (Inl e, st1) \<Rightarrow> (Inl (FileErr e), st1)
      | (Inr backend_used, st1) \<Rightarrow>
          (case write_meta st1 identity_file (JObj (identity_meta keypair (JStr name) now)) of
             (Inl e, st2) \<Rightarrow> (Inl e, st2)
           | (Inr _, st2) \<Rightarrow>
               (Inr \<lparr>di_keypair = keypair, di_name = JStr name, di_created_at = JFloat now,
                     di_storage_backend = backend_used\<rparr>, st2)))"

definition load_or_create_identity ::
    "'x ed25519_scheme \<Rightarrow> 'k keyring \<Rightarrow> bytes \<Rightarrow> pystr \<Rightarrow> 'k storage \<Rightarrow> pystr option \<Rightarrow> pystr \<Rightarrow> KeyStore \<Rightarrow>
     (id_file_error + DeviceIdentity) \<times> 'k storage" where
  "load_or_create_identity C K fresh now st name identity_file ks =
     (if path_exists (st_fs st) identity_file then (load_existing C K now st identity_file ks, st)
      else create_new C K fresh now st
        (case name of Some n \<Rightarrow> if n = [] then lit ''peer'' else n | None \<Rightarrow> lit ''peer'') identity_file ks)"

text \<open>
  Rotation. The certificate's time is a double and the file's is the text of one. The result
  carries the security event that is emitted when everything is written.
\<close>

definition rotate_identity ::
    "'x ed25519_scheme \<Rightarrow> 'k keyring \<Rightarrow> bytes \<Rightarrow> double \<Rightarrow> pystr \<Rightarrow> 'k storage \<Rightarrow> DeviceIdentity \<Rightarrow> pystr option \<Rightarrow>
     pystr \<Rightarrow> KeyStore \<Rightarrow> (id_file_error + DeviceIdentity \<times> TransitionCertificate \<times> notice) \<times> 'k storage" where
  "rotate_identity C K fresh cert_now now st current new_name identity_file ks =
     (let new_keypair = generate_keypair C fresh in
      case create_transition_certificate C cert_now (di_keypair current) new_keypair of
        Inl e \<Rightarrow> (Inl (RotationErr e), st)
      | Inr cert \<Rightarrow>
          (case save_private_key K st ks KEYRING_USERNAME (private_key_pem C new_keypair) of
             (Inl e, st1) \<Rightarrow> (Inl (FileErr e), st1)
           | (Inr backend_used, st1) \<Rightarrow>
               let name = (case new_name of Some n \<Rightarrow> if n = [] then di_name current else JStr n | None \<Rightarrow> di_name current) in
               (case write_meta st1 identity_file
                   (JObj (identity_meta new_keypair name now @
                      [(lit ''rotated_from'', JStr (kp_device_id (di_keypair current)))])) of
                  (Inl e, st2) \<Rightarrow> (Inl e, st2)
                | (Inr _, st2) \<Rightarrow>
                    (Inr (\<lparr>di_keypair = new_keypair, di_name = name, di_created_at = JFloat now,
                           di_storage_backend = backend_used\<rparr>, cert,
                          (KEY_ROTATION, INFO, Some (kp_device_id new_keypair))), st2))))"

section \<open>What is stored is what is loaded\<close>

definition pem_lines :: "'x ed25519_scheme \<Rightarrow> bool" where
  "pem_lines C \<longleftrightarrow> (\<forall>sk. 13 \<notin> set (pem_dump C sk))"

definition no_stale :: "'k keyring \<Rightarrow> 'k storage \<Rightarrow> KeyStore \<Rightarrow> bool" where
  "no_stale K st ks \<longleftrightarrow>
     ks_backend_name ks = Keyring \<longrightarrow>
       (case kr_get K SERVICE_NAME KEYRING_USERNAME (st_keyring st) of Some (Some _) \<Rightarrow> False | _ \<Rightarrow> True)"

lemma fs_ok_make_parent: "make_parent fs p = Some fs' \<Longrightarrow> fs_ok fs \<Longrightarrow> fs_ok fs'"
  by (auto simp: make_parent_def fs_ok_makedirs split: if_splits)

lemma read_file_make_parent: "make_parent fs p = Some fs' \<Longrightarrow> read_file fs' q = read_file fs q"
  by (auto simp: make_parent_def read_file_makedirs split: if_splits)

lemma isfile_read_file: "path_isfile fs p \<longleftrightarrow> read_file fs p \<noteq> None"
  by (simp add: path_isfile_def read_file_def)

lemma load_plaintext_file:
  "read_text (st_fs st) (ks_plaintext_fallback_path ks) = Inr s \<Longrightarrow> load_plaintext st ks = Inr (Some s)"
  by (auto simp: load_plaintext_def path_exists_def isfile_read_file read_text_def split: option.splits)

lemma save_private_key_loads:
  assumes "save_private_key K st ks KEYRING_USERNAME pem = (Inr b, st')" "keyring_ok K" "fs_ok (st_fs st)" "13 \<notin> set pem"
    and "b = PlaintextFile \<longrightarrow> no_stale K st ks"
  shows "load_private_key K st' ks KEYRING_USERNAME = Inr (Some pem)"
proof (cases "if ks_backend_name ks = Keyring then kr_set K SERVICE_NAME KEYRING_USERNAME pem (st_keyring st) else None")
  case (Some s')
  then have "st' = st\<lparr>st_keyring := s'\<rparr>" "ks_backend_name ks = Keyring"
    "kr_get K SERVICE_NAME KEYRING_USERNAME s' = Some (Some pem)"
    using assms(1,2) by (auto simp: save_private_key_def keyring_ok_def split: if_splits)
  then show ?thesis by (simp add: load_private_key_def)
next
  case None
  with assms(1) have sp: "save_plaintext st ks pem = (Inr (), st')" and "b = PlaintextFile"
    unfolding save_private_key_def None by (auto split: prod.splits sum.splits)
  then have stale: "no_stale K st ks" using assms(5) by simp
  from sp obtain fs1 fs2 where fs1: "make_parent (st_fs st) (ks_plaintext_fallback_path ks) = Some fs1"
    and w: "write_text fs1 (ks_plaintext_fallback_path ks) pem = (Inr (), fs2)" and st': "st' = st\<lparr>st_fs := fs2\<rparr>"
    by (auto simp: save_plaintext_def split: option.splits prod.splits)
  have "read_text fs2 (ks_plaintext_fallback_path ks) = Inr pem"
    using read_write_text [OF w fs_ok_make_parent [OF fs1 assms(3)]] by (simp add: universal_newlines_id assms(4))
  then have "load_plaintext st' ks = Inr (Some pem)" by (intro load_plaintext_file) (simp add: st')
  then show ?thesis
    using stale st' by (auto simp: load_private_key_def no_stale_def split: option.splits if_splits)
qed

lemma fs_ok_save_plaintext: "fs_ok (st_fs st) \<Longrightarrow> fs_ok (st_fs (snd (save_plaintext st ks pem)))"
  using fs_ok_write_text fs_ok_make_parent
  by (cases "make_parent (st_fs st) (ks_plaintext_fallback_path ks)")
    (simp_all add: save_plaintext_def case_prod_unfold Let_def)

lemma fs_ok_save_private_key:
  assumes "save_private_key K st ks user pem = (r, st')" "fs_ok (st_fs st)"
  shows "fs_ok (st_fs st')"
proof (cases "if ks_backend_name ks = Keyring then kr_set K SERVICE_NAME user pem (st_keyring st) else None")
  case None
  have "st' = snd (save_plaintext st ks pem)"
    using assms(1) unfolding save_private_key_def None by (auto split: prod.splits sum.splits)
  then show ?thesis using fs_ok_save_plaintext [OF assms(2)] by simp
next
  case (Some s')
  then show ?thesis using assms unfolding save_private_key_def Some by auto
qed

text \<open>Writing the metadata leaves the key where it was.\<close>

lemma write_meta_loads:
  assumes "write_meta st p v = (Inr (), st')" "fs_ok (st_fs st)" "wf_json v" "ks_plaintext_fallback_path ks \<noteq> p"
  shows "load_json (st_fs st') p = Inr v" "path_exists (st_fs st') p"
    "load_private_key K st ks user = Inr (Some pem) \<Longrightarrow> load_private_key K st' ks user = Inr (Some pem)"
    "kr_get K svc user (st_keyring st') = kr_get K svc user (st_keyring st)"
proof -
  from assms(1) obtain fs1 fs2 where fs1: "make_parent (st_fs st) p = Some fs1"
    and w: "write_text fs1 p (json_dump_indent v) = (Inr (), fs2)" and st': "st' = st\<lparr>st_fs := fs2\<rparr>"
    by (auto simp: write_meta_def file_res_def split: option.splits prod.splits sum.splits)
  note ok1 = fs_ok_make_parent [OF fs1 assms(2)]
  show "load_json (st_fs st') p = Inr v" using load_written_json [OF w ok1 assms(3)] by (simp add: st')
  then show "path_exists (st_fs st') p"
    by (auto simp: path_exists_def isfile_read_file load_json_def read_text_def split: option.splits)
  show "kr_get K svc user (st_keyring st') = kr_get K svc user (st_keyring st)" by (simp add: st')
  have "read_text fs2 (ks_plaintext_fallback_path ks) = read_text (st_fs st) (ks_plaintext_fallback_path ks)"
    using read_write_text [OF w ok1] assms(4) read_file_make_parent [OF fs1] by (simp add: read_text_def)
  then show "load_private_key K st' ks user = Inr (Some pem)" if "load_private_key K st ks user = Inr (Some pem)"
    using that load_plaintext_file [of st' ks pem]
    by (auto simp: load_private_key_def load_plaintext_def st' split: option.splits if_splits sum.splits)
qed

text \<open>A key and the metadata that names it, stored one after the other, load as the identity they are.\<close>

lemma wf_identity_meta:
  assumes "wf_json name" "wf_float now" "rest = [] \<or> rest = [(lit ''rotated_from'', JStr old)]" "wf_str old"
    and "kp_device_id kp = compute_device_id pub"
  shows "wf_json (JObj (identity_meta kp name now @ rest))"
  using assms
  by (auto simp: identity_meta_def dict_ok_def wf_str_ascii b64encode_ascii compute_device_id_def sha256_hex_def bytes_hex_ascii
      lit_def is_ascii_def is_high_surrogate_def)

lemma stored_identity_loads:
  assumes ok: "pem_ok C" "pem_lines C" "keyring_ok K" "fs_ok (st_fs st)"
    and kp: "wf_keypair C kp" and fresh: "b = PlaintextFile \<longrightarrow> no_stale K st ks" "ks_plaintext_fallback_path ks \<noteq> p"
    and save: "save_private_key K st ks KEYRING_USERNAME (private_key_pem C kp) = (Inr b, st1)"
    and meta: "write_meta st1 p (JObj (identity_meta kp name now @ rest)) = (Inr (), st2)"
      "wf_json (JObj (identity_meta kp name now @ rest))"
  shows "load_or_create_identity C K fresh' now' st2 name' p ks =
    (Inr \<lparr>di_keypair = kp, di_name = or_peer name, di_created_at = JFloat now, di_storage_backend = ks_backend_name ks\<rparr>, st2)"
proof -
  have "load_private_key K st1 ks KEYRING_USERNAME = Inr (Some (private_key_pem C kp))"
    using ok(2) by (intro save_private_key_loads [OF save ok(3,4) _ fresh(1)]) (simp add: pem_lines_def private_key_pem_def)
  with write_meta_loads [OF meta(1) fs_ok_save_private_key [OF save ok(4)] meta(2) fresh(2)]
  have "load_private_key K st2 ks KEYRING_USERNAME = Inr (Some (private_key_pem C kp))"
    "load_json (st_fs st2) p = Inr (JObj (identity_meta kp name now @ rest))" "path_exists (st_fs st2) p" by blast+
  moreover have "keypair_from_private_pem C (private_key_pem C kp) = Inr kp"
    using ok(1) kp by (simp add: pem_ok_def keypair_from_private_pem_def private_key_pem_def keypair_eqI)
  ultimately show ?thesis
    by (simp add: load_or_create_identity_def load_existing_def file_res_def identity_meta_def lit_def)
qed

lemma create_new_parts:
  assumes "create_new C K fresh now st name p ks = (Inr ident, st')"
  obtains b st1 where
    "save_private_key K st ks KEYRING_USERNAME (private_key_pem C (generate_keypair C fresh)) = (Inr b, st1)"
    "write_meta st1 p (JObj (identity_meta (generate_keypair C fresh) (JStr name) now @ [])) = (Inr (), st')"
    "ident = \<lparr>di_keypair = generate_keypair C fresh, di_name = JStr name, di_created_at = JFloat now, di_storage_backend = b\<rparr>"
  using assms that by (auto simp: create_new_def Let_def split: prod.splits sum.splits)

lemma rotate_identity_parts:
  assumes "rotate_identity C K fresh cert_now now st current new_name p ks = (Inr (ident, cert, ev), st')"
  obtains b st1 where
    "create_transition_certificate C cert_now (di_keypair current) (generate_keypair C fresh) = Inr cert"
    "save_private_key K st ks KEYRING_USERNAME (private_key_pem C (generate_keypair C fresh)) = (Inr b, st1)"
    "write_meta st1 p (JObj (identity_meta (generate_keypair C fresh) (di_name ident) now @
       [(lit ''rotated_from'', JStr (kp_device_id (di_keypair current)))])) = (Inr (), st')"
    "ident = \<lparr>di_keypair = generate_keypair C fresh, di_name = di_name ident, di_created_at = JFloat now, di_storage_backend = b\<rparr>"
    "di_name ident = (case new_name of Some n \<Rightarrow> if n = [] then di_name current else JStr n | None \<Rightarrow> di_name current)"
  using assms that by (auto simp: rotate_identity_def Let_def split: prod.splits sum.splits)

lemma generated_id: "kp_device_id (generate_keypair C fresh) = compute_device_id (ed_public C fresh)"
  by (simp add: generate_keypair_def keypair_from_private_key_def Let_def)

lemma wf_generated: "wf_keypair C (generate_keypair C fresh)"
  by (simp add: generate_keypair_def)

text \<open>
  Claim C15. A device keeps its identity: after the first start has created one, every
  later start, whatever name it is given, loads the same keypair, name and creation time and
  changes nothing, whether the key went to the keyring or, because the keyring refused it, to
  the file. Only the backend reported may differ: it is the one the store prefers, not the one
  that holds the key.
\<close>

theorem identity_survives_restart:
  assumes ok: "pem_ok C" "pem_lines C" "keyring_ok K" "fs_ok (st_fs st)"
    and fresh: "no_stale K st ks" "ks_plaintext_fallback_path ks \<noteq> p" "\<not> path_exists (st_fs st) p"
    and wf: "\<forall>n. name = Some n \<longrightarrow> wf_str n" "wf_float now"
    and first: "load_or_create_identity C K fresh now st name p ks = (Inr ident, st')"
  shows "load_or_create_identity C K fresh' now' st' name' p ks = (Inr (ident\<lparr>di_storage_backend := ks_backend_name ks\<rparr>), st')"
proof -
  define n where "n = (case name of Some n \<Rightarrow> if n = [] then lit ''peer'' else n | None \<Rightarrow> lit ''peer'')"
  have n: "n \<noteq> []" "wf_str n"
    using wf(1) by (auto simp: n_def lit_def is_high_surrogate_def split: option.splits)
  have "create_new C K fresh now st n p ks = (Inr ident, st')"
    using first fresh(3) by (simp add: load_or_create_identity_def n_def)
  then obtain b st1 where parts:
    "save_private_key K st ks KEYRING_USERNAME (private_key_pem C (generate_keypair C fresh)) = (Inr b, st1)"
    "write_meta st1 p (JObj (identity_meta (generate_keypair C fresh) (JStr n) now @ [])) = (Inr (), st')"
    "ident = \<lparr>di_keypair = generate_keypair C fresh, di_name = JStr n, di_created_at = JFloat now, di_storage_backend = b\<rparr>"
    by (rule create_new_parts)
  have "wf_json (JObj (identity_meta (generate_keypair C fresh) (JStr n) now @ []))"
    using n wf(2) by (intro wf_identity_meta [where old = "[]" and pub = "ed_public C fresh"]) (simp_all add: generated_id)
  from stored_identity_loads [OF ok wf_generated _ fresh(2) parts(1,2) this] fresh(1) show ?thesis
    using n(1) by (simp add: parts(3) or_peer_def truthy_def)
qed


section \<open>Where an identity can be lost\<close>

text \<open>The states that a crash during a rotation can leave.\<close>

definition rotation_states ::
    "'x ed25519_scheme \<Rightarrow> 'k keyring \<Rightarrow> 'k storage \<Rightarrow> DeviceKeypair \<Rightarrow> json \<Rightarrow> pystr \<Rightarrow> KeyStore \<Rightarrow> 'k storage list" where
  "rotation_states C K st new_keypair meta p ks =
     st #
     (case save_private_key K st ks KEYRING_USERNAME (private_key_pem C new_keypair) of
        (Inl _, st1) \<Rightarrow> [st1]
      | (Inr _, st1) \<Rightarrow>
          st1 #
          (case (make_parent (st_fs st1) p, utf8_encode (json_dump_indent meta)) of
             (Some fs1, Some data) \<Rightarrow> map (\<lambda>fs. st1\<lparr>st_fs := fs\<rparr>) (write_states fs1 p data)
           | _ \<Rightarrow> []))"

lemma load_json_exists: "load_json fs p = Inr v \<Longrightarrow> path_exists fs p"
  by (auto simp: load_json_def read_text_def path_exists_def isfile_read_file split: option.splits)

lemma save_private_key_other_file:
  assumes "save_private_key K st ks user pem = (r, st')" "fs_ok (st_fs st)" "ks_plaintext_fallback_path ks \<noteq> p"
  shows "load_json (st_fs st') p = load_json (st_fs st) p"
proof (cases "if ks_backend_name ks = Keyring then kr_set K SERVICE_NAME user pem (st_keyring st) else None")
  case None
  have "st' = snd (save_plaintext st ks pem)"
    using assms(1) unfolding save_private_key_def None by (auto split: prod.splits sum.splits)
  moreover have "read_file (st_fs (snd (save_plaintext st ks pem))) p = read_file (st_fs st) p"
  proof (cases "make_parent (st_fs st) (ks_plaintext_fallback_path ks)")
    case (Some fs1)
    then show ?thesis
      using read_file_write_text_other [OF fs_ok_make_parent [OF Some assms(2)], of p "ks_plaintext_fallback_path ks" pem]
        read_file_make_parent [OF Some, of p] assms(3)
      by (simp add: save_plaintext_def case_prod_unfold Let_def)
  qed (simp add: save_plaintext_def)
  ultimately show ?thesis by (intro load_json_cong) simp
next
  case (Some s')
  then show ?thesis using assms unfolding save_private_key_def Some by auto
qed


text \<open>
  When the keyring refuses the new key, a rotation writes it to the file
  instead and returns normally, but loading asks the keyring first and gets the old key: the
  finished rotation has locked the device out. (The hypothesis says that the key the keyring
  still holds, if it is one, is not the new one.)
\<close>

theorem stale_keyring_locks_out:
  assumes ok: "fs_ok (st_fs st)" "ks_plaintext_fallback_path ks \<noteq> p"
    and wf: "wf_json (di_name current)" "wf_str (kp_device_id (di_keypair current))"
      "\<forall>n. new_name = Some n \<longrightarrow> wf_str n" "wf_float now"
    and keyring: "ks_backend_name ks = Keyring" "\<And>svc user pw s. kr_set K svc user pw s = None"
      "kr_get K SERVICE_NAME KEYRING_USERNAME (st_keyring st) = Some (Some stale)"
      "\<And>kp. keypair_from_private_pem C stale = Inr kp \<Longrightarrow> kp_device_id kp \<noteq> kp_device_id (generate_keypair C fresh)"
    and rotate: "rotate_identity C K fresh cert_now now st current new_name p ks = (Inr (ident, cert, ev), st')"
  shows "di_storage_backend ident = PlaintextFile \<and>
    load_or_create_identity C K fresh' now' st' name' p ks =
      (Inl (IdentityErr (case keypair_from_private_pem C stale of Inl e \<Rightarrow> e | Inr _ \<Rightarrow> OutOfSync)), st')"
proof -
  obtain b st1 where parts:
    "create_transition_certificate C cert_now (di_keypair current) (generate_keypair C fresh) = Inr cert"
    "save_private_key K st ks KEYRING_USERNAME (private_key_pem C (generate_keypair C fresh)) = (Inr b, st1)"
    "write_meta st1 p (JObj (identity_meta (generate_keypair C fresh) (di_name ident) now @
       [(lit ''rotated_from'', JStr (kp_device_id (di_keypair current)))])) = (Inr (), st')"
    "ident = \<lparr>di_keypair = generate_keypair C fresh, di_name = di_name ident, di_created_at = JFloat now, di_storage_backend = b\<rparr>"
    "di_name ident = (case new_name of Some n \<Rightarrow> if n = [] then di_name current else JStr n | None \<Rightarrow> di_name current)"
    using rotate by (rule rotate_identity_parts)
  let ?meta = "JObj (identity_meta (generate_keypair C fresh) (di_name ident) now @
      [(lit ''rotated_from'', JStr (kp_device_id (di_keypair current)))])"
  have "wf_json (di_name ident)" using wf(1,3) by (simp add: parts(5) split: option.splits)
  then have "wf_json ?meta"
    using wf(2,4) by (intro wf_identity_meta [where pub = "ed_public C fresh"]) (simp_all add: generated_id)
  note written = write_meta_loads [OF parts(3) fs_ok_save_private_key [OF parts(2) ok(1)] this ok(2)]
  have st1: "b = PlaintextFile" "st_keyring st1 = st_keyring st"
    using parts(2) keyring(1,2)
    by (auto simp: save_private_key_def save_plaintext_def split: option.splits prod.splits sum.splits)
  then have "load_private_key K st' ks KEYRING_USERNAME = Inr (Some stale)"
    using written(4) [of K SERVICE_NAME KEYRING_USERNAME] keyring(1,3) by (simp add: load_private_key_def)
  moreover have "jget ?meta (lit ''device_id'') = Some (JStr (kp_device_id (generate_keypair C fresh)))"
    by (simp add: identity_meta_def lit_def)
  moreover have "di_storage_backend ident = b" by (subst parts(4)) simp
  ultimately show ?thesis
    using written(1,2) keyring(4) st1(1)
    by (auto simp: load_or_create_identity_def load_existing_def file_res_def split: sum.splits)
qed

section \<open>Concrete runs\<close>

text \<open>A keyring that holds at most one password, and one that refuses every new one.\<close>

definition toy_keyring :: "pystr option keyring" where
  "toy_keyring =
     \<lparr>kr_usable = (\<lambda>_. True), kr_set = (\<lambda>svc user pw s. Some (Some pw)), kr_get = (\<lambda>svc user s. Some s),
      kr_delete = (\<lambda>svc user s. Some None)\<rparr>"

definition refusing_keyring :: "pystr option keyring" where
  "refusing_keyring = toy_keyring\<lparr>kr_set := (\<lambda>svc user pw s. None)\<rparr>"

definition toy_store :: KeyStore where
  "toy_store = \<lparr>ks_plaintext_fallback_path = lit ''/h/k'', ks_backend_name = Keyring\<rparr>"

definition toy_storage :: "pystr option \<Rightarrow> pystr option storage" where
  "toy_storage s = \<lparr>st_fs = home_fs, st_keyring = s\<rparr>"

definition toy_current :: DeviceIdentity where
  "toy_current =
     \<lparr>di_keypair = \<lparr>kp_private = [], kp_public = [], kp_device_id = []\<rparr>, di_name = JStr (lit ''me''), di_created_at = JNull,
      di_storage_backend = Keyring\<rparr>"

lemma toy_keyring_ok: "keyring_ok toy_keyring"
  by (simp add: keyring_ok_def toy_keyring_def)

lemma toy_pem_lines: "pem_lines toy_ed25519"
proof -
  have "13 \<notin> set (bytes_hex sk)" for sk
    using hex_digit_no_cr by (induction sk) (auto simp: hex_byte_def dest: sym [of 13])
  then show ?thesis by (simp add: pem_lines_def toy_ed25519_def)
qed

lemma home_parent:
  assumes "\<not> path_isfile fs (lit ''/h'')" "p = lit ''/h/i'' \<or> p = lit ''/h/k''"
  shows "\<exists>fs'. make_parent fs p = Some fs' \<and> set (fs_dirs fs') \<subseteq> insert (lit ''/h'') (set (fs_dirs fs))"
proof -
  have dir: "path_dirname p = lit ''/h''" using assms(2) by (auto simp: path_dirname_def path_basename_def lit_def SEP_def)
  have "ancestors (lit ''/h'') = []" by (simp add: ancestors_def lit_def SEP_def upt_rec)
  then show ?thesis
    using assms(1) makedirs_dirs [of fs "lit ''/h''"] unfolding make_parent_def dir
    by (auto simp: os_makedirs_def Let_def lit_def)
qed

lemma write_meta_home:
  assumes "wf_json v" "\<not> path_isfile (st_fs st) (lit ''/h'')" "fs_dirs (st_fs st) = [lit ''/h'']"
  shows "\<exists>st'. write_meta st (lit ''/h/i'') v = (Inr (), st')"
proof -
  have "lit ''/h/i'' \<noteq> lit ''/h''" by (simp add: lit_def)
  moreover obtain fs1 where "make_parent (st_fs st) (lit ''/h/i'') = Some fs1" "set (fs_dirs fs1) \<subseteq> {lit ''/h''}"
    using home_parent [OF assms(2), of "lit ''/h/i''"] by (auto simp: assms(3))
  ultimately have fs1: "make_parent (st_fs st) (lit ''/h/i'') = Some fs1" "lit ''/h/i'' \<notin> set (fs_dirs fs1)" by auto
  have "fst (write_text fs1 (lit ''/h/i'') (json_dump_indent v)) = Inr ()"
    by (rule write_text_ascii [OF json_dump_indent_ascii [OF assms(1)] fs1(2)])
  then show ?thesis by (auto simp: write_meta_def fs1(1) file_res_def split: prod.splits)
qed

lemma toy_storage_home: "\<not> path_isfile (st_fs (toy_storage s)) (lit ''/h'')" "fs_dirs (st_fs (toy_storage s)) = [lit ''/h'']"
  by (simp_all add: toy_storage_def home_fs_def path_isfile_def)

lemma toy_save: "save_private_key toy_keyring (toy_storage s) toy_store user pem = (Inr Keyring, toy_storage (Some pem))"
  by (simp add: save_private_key_def toy_keyring_def toy_store_def toy_storage_def)

lemma toy_paths: "ks_plaintext_fallback_path toy_store \<noteq> lit ''/h/i''"
  by (simp add: toy_store_def lit_def)

theorem identity_survives_restart_witness:
  "\<exists>ident st'. load_or_create_identity toy_ed25519 toy_keyring [1] (lit ''0.0'') (toy_storage None) None (lit ''/h/i'') toy_store
       = (Inr ident, st') \<and>
     load_or_create_identity toy_ed25519 toy_keyring [2] (lit ''0.0'') st' None (lit ''/h/i'') toy_store
       = (Inr (ident\<lparr>di_storage_backend := Keyring\<rparr>), st')"
proof -
  let ?kp = "generate_keypair toy_ed25519 [1]"
  have absent: "\<not> path_exists (st_fs (toy_storage None)) (lit ''/h/i'')"
    by (simp add: toy_storage_def home_fs_def path_exists_def path_isfile_def lit_def)
  have "wf_json (JObj (identity_meta ?kp (JStr (lit ''peer'')) (lit ''0.0'') @ []))"
    by (rule wf_identity_meta [where old = "[]" and pub = "ed_public toy_ed25519 [1]"])
      (simp_all add: generated_id wf_float_zero, simp add: lit_def is_high_surrogate_def)
  then obtain st' where "write_meta (toy_storage (Some (private_key_pem toy_ed25519 ?kp))) (lit ''/h/i'')
      (JObj (identity_meta ?kp (JStr (lit ''peer'')) (lit ''0.0'') @ [])) = (Inr (), st')"
    using write_meta_home toy_storage_home by blast
  then obtain ident where first: "load_or_create_identity toy_ed25519 toy_keyring [1] (lit ''0.0'') (toy_storage None) None
      (lit ''/h/i'') toy_store = (Inr ident, st')"
    using absent by (simp add: load_or_create_identity_def create_new_def toy_save Let_def)
  have stale: "no_stale toy_keyring (toy_storage None) toy_store" by (simp add: no_stale_def toy_keyring_def toy_storage_def)
  have fs: "fs_ok (st_fs (toy_storage None))" by (simp add: toy_storage_def home_fs_ok)
  have "load_or_create_identity toy_ed25519 toy_keyring [2] (lit ''0.0'') st' None (lit ''/h/i'') toy_store
      = (Inr (ident\<lparr>di_storage_backend := ks_backend_name toy_store\<rparr>), st')"
    by (rule identity_survives_restart [OF toy_pem_ok toy_pem_lines toy_keyring_ok fs stale toy_paths absent _ wf_float_zero first]) simp
  moreover have "ks_backend_name toy_store = Keyring" by (simp add: toy_store_def)
  ultimately show ?thesis using first by metis
qed

lemma toy_certificate:
  "\<exists>cert. create_transition_certificate toy_ed25519 0 (di_keypair toy_current) (generate_keypair toy_ed25519 [1]) = Inr cert"
proof -
  have "list_all is_ascii (kp_device_id (generate_keypair toy_ed25519 [1]))" "kp_device_id (generate_keypair toy_ed25519 [1]) \<noteq> []"
    by (simp_all add: generated_id compute_device_id_def sha256_hex_def bytes_hex_ascii flip: length_greater_0_conv)
  then obtain p where "build_payload [] (kp_device_id (generate_keypair toy_ed25519 [1])) (b64encode [])
      (b64encode (kp_public (generate_keypair toy_ed25519 [1]))) 0 = Some p"
    using build_payload_ascii [OF _ _ b64encode_ascii b64encode_ascii, of "[]"] by fastforce
  with \<open>kp_device_id (generate_keypair toy_ed25519 [1]) \<noteq> []\<close> show ?thesis
    by (auto simp: create_transition_certificate_def Let_def toy_current_def simp del: b64encode.simps)
qed

lemma toy_rotates:
  assumes "save_private_key K st toy_store KEYRING_USERNAME (private_key_pem toy_ed25519 (generate_keypair toy_ed25519 [1])) = (Inr b, st1)"
    and "\<not> path_isfile (st_fs st1) (lit ''/h'')" "fs_dirs (st_fs st1) = [lit ''/h'']"
  shows "\<exists>ident cert ev st'. rotate_identity toy_ed25519 K [1] 0 (lit ''0.0'') st toy_current None (lit ''/h/i'') toy_store =
    (Inr (ident, cert, ev), st') \<and> di_storage_backend ident = b"
proof -
  let ?kp = "generate_keypair toy_ed25519 [1]"
  have "wf_json (JObj (identity_meta ?kp (JStr (lit ''me'')) (lit ''0.0'') @ [(lit ''rotated_from'', JStr [])]))"
    by (rule wf_identity_meta [where old = "[]" and pub = "ed_public toy_ed25519 [1]"])
      (simp_all add: generated_id wf_float_zero, simp add: lit_def is_high_surrogate_def)
  then obtain st' where "write_meta st1 (lit ''/h/i'')
      (JObj (identity_meta ?kp (JStr (lit ''me'')) (lit ''0.0'') @ [(lit ''rotated_from'', JStr [])])) = (Inr (), st')"
    using write_meta_home assms(2,3) by blast
  then show ?thesis
    using toy_certificate assms(1) by (auto simp: rotate_identity_def Let_def) (simp_all add: toy_current_def)
qed

lemma toy_current_wf: "wf_json (di_name toy_current)" "wf_str (kp_device_id (di_keypair toy_current))"
  by (simp_all add: toy_current_def) (simp add: lit_def is_high_surrogate_def)


definition toy_written :: "pystr option \<Rightarrow> pystr option storage" where
  "toy_written s =
     \<lparr>st_fs = home_fs\<lparr>fs_names := [(lit ''/h/i'', 0)], fs_data := (\<lambda>_. ascii_bytes (lit ''{}'')), fs_next := 1\<rparr>, st_keyring = s\<rparr>"


lemma refused_save:
  "\<exists>st1. save_private_key refusing_keyring (toy_storage s) toy_store user
      (private_key_pem toy_ed25519 kp) = (Inr PlaintextFile, st1) \<and>
    \<not> path_isfile (st_fs st1) (lit ''/h'') \<and> fs_dirs (st_fs st1) = [lit ''/h'']"
proof -
  let ?pem = "private_key_pem toy_ed25519 kp"
  have parent: "make_parent home_fs (lit ''/h/k'') = Some home_fs"
    by (simp add: make_parent_def home_fs_def path_dirname_def path_basename_def os_makedirs_def ancestors_def
        path_isfile_def lit_def SEP_def Let_def upt_rec)
  have "list_all is_ascii ?pem" using toy_pem_ok by (simp add: pem_ok_def private_key_pem_def)
  then have "fst (write_text home_fs (lit ''/h/k'') ?pem) = Inr ()"
    by (rule write_text_ascii) (simp add: home_fs_def lit_def)
  then obtain fs2 where w: "write_text home_fs (lit ''/h/k'') ?pem = (Inr (), fs2)" by (metis prod.collapse)
  then obtain "read_file fs2 (lit ''/h'') = read_file home_fs (lit ''/h'')" "fs_dirs fs2 = fs_dirs home_fs"
  proof (rule write_text_Inr [OF _ home_fs_ok])
    fix data
    assume "\<And>q. read_file fs2 q = (if q = lit ''/h/k'' then Some data else read_file home_fs q)" "fs_dirs fs2 = fs_dirs home_fs"
      and thesis: "read_file fs2 (lit ''/h'') = read_file home_fs (lit ''/h'') \<Longrightarrow> fs_dirs fs2 = fs_dirs home_fs \<Longrightarrow> thesis"
    then show thesis by (intro thesis) (simp_all add: lit_def)
  qed
  then have "\<not> path_isfile fs2 (lit ''/h'')" "fs_dirs fs2 = [lit ''/h'']"
    by (simp_all add: isfile_read_file) (simp_all add: home_fs_def read_file_def)
  moreover have "save_private_key refusing_keyring (toy_storage s) toy_store user ?pem
      = (Inr PlaintextFile, (toy_storage s)\<lparr>st_fs := fs2\<rparr>)"
    using parent w by (simp add: save_private_key_def save_plaintext_def refusing_keyring_def toy_store_def toy_storage_def)
  ultimately show ?thesis by simp
qed

theorem stale_keyring_locks_out_witness:
  "\<exists>ident cert ev st'. rotate_identity toy_ed25519 refusing_keyring [1] 0 (lit ''0.0'') (toy_storage (Some (lit ''?''))) toy_current None
       (lit ''/h/i'') toy_store = (Inr (ident, cert, ev), st') \<and>
     load_or_create_identity toy_ed25519 refusing_keyring [2] (lit ''0.0'') st' None (lit ''/h/i'') toy_store
       = (Inl (IdentityErr ValueError), st')"
proof -
  obtain st1 where "save_private_key refusing_keyring (toy_storage (Some (lit ''?''))) toy_store KEYRING_USERNAME
      (private_key_pem toy_ed25519 (generate_keypair toy_ed25519 [1])) = (Inr PlaintextFile, st1)"
    "\<not> path_isfile (st_fs st1) (lit ''/h'')" "fs_dirs (st_fs st1) = [lit ''/h'']"
    using refused_save by blast
  then obtain ident cert ev st' where rot: "rotate_identity toy_ed25519 refusing_keyring [1] 0 (lit ''0.0'')
      (toy_storage (Some (lit ''?''))) toy_current None (lit ''/h/i'') toy_store = (Inr (ident, cert, ev), st')"
    using toy_rotates by blast
  have fs: "fs_ok (st_fs (toy_storage s))" for s by (simp add: toy_storage_def home_fs_ok)
  have bad: "keypair_from_private_pem toy_ed25519 (lit ''?'') = Inl ValueError"
    by (simp add: keypair_from_private_pem_def toy_ed25519_def lit_def is_ascii_def is_ascii_space_def)
  have "load_or_create_identity toy_ed25519 refusing_keyring [2] (lit ''0.0'') st' None (lit ''/h/i'') toy_store =
      (Inl (IdentityErr (case keypair_from_private_pem toy_ed25519 (lit ''?'') of Inl e \<Rightarrow> e | Inr _ \<Rightarrow> OutOfSync)), st')"
    by (rule conjunct2 [OF stale_keyring_locks_out [OF fs toy_paths toy_current_wf _ wf_float_zero _ _ _ _ rot]])
      (simp_all add: bad refusing_keyring_def toy_keyring_def toy_store_def toy_storage_def)
  then have "load_or_create_identity toy_ed25519 refusing_keyring [2] (lit ''0.0'') st' None (lit ''/h/i'') toy_store =
      (Inl (IdentityErr ValueError), st')" by (simp add: bad)
  with rot show ?thesis by blast
qed

end
