(* ===== verification/Json_Depth.thy ===== *)
theory Json_Depth
  imports Json_Indent
begin

text \<open>
  The decoder of \<^verbatim>\<open>json.loads\<close> calls itself for every array and object it is inside of, and the
  interpreter stops it with \<^verbatim>\<open>RecursionError\<close> when the calls go deeper than what is left of the
  recursion limit. \<open>deep_value\<close> follows the scanner and tells whether it gets deeper than \<open>limit\<close>
  before it ends or fails.
\<close>

fun deep_value :: "nat \<Rightarrow> nat \<Rightarrow> pystr \<Rightarrow> bool"
  and deep_elems :: "nat \<Rightarrow> nat \<Rightarrow> pystr \<Rightarrow> bool"
  and deep_members :: "nat \<Rightarrow> nat \<Rightarrow> pystr \<Rightarrow> bool" where
  "deep_value limit 0 s \<longleftrightarrow> False"
| "deep_value limit (Suc n) s \<longleftrightarrow>
     (case s of
        [] \<Rightarrow> False
      | c # r \<Rightarrow>
          if c = 91 then
            limit = 0 \<or> (let r' = skip_ws r in \<not> (r' \<noteq> [] \<and> hd r' = 93) \<and> deep_elems (limit - 1) n r')
          else if c = 123 then
            limit = 0 \<or> (let r' = skip_ws r in \<not> (r' \<noteq> [] \<and> hd r' = 125) \<and> deep_members (limit - 1) n r')
          else False)"
| "deep_elems limit 0 s \<longleftrightarrow> False"
| "deep_elems limit (Suc n) s \<longleftrightarrow>
     deep_value limit n s \<or>
     (case parse_value n s of
        None \<Rightarrow> False
      | Some (v, r) \<Rightarrow>
          (case skip_ws r of
             [] \<Rightarrow> False
           | c # r' \<Rightarrow> c = 44 \<and> deep_elems limit n (skip_ws r')))"
| "deep_members limit 0 s \<longleftrightarrow> False"
| "deep_members limit (Suc n) s \<longleftrightarrow>
     (case s of
        [] \<Rightarrow> False
      | q # s' \<Rightarrow>
          q = 34 \<and>
          (case scan_str s' of
             None \<Rightarrow> False
           | Some (k, r) \<Rightarrow>
               (case skip_ws r of
                  [] \<Rightarrow> False
                | c # r1 \<Rightarrow>
                    c = 58 \<and>
                    (deep_value limit n (skip_ws r1) \<or>
                     (case parse_value n (skip_ws r1) of
                        None \<Rightarrow> False
                      | Some (v, r2) \<Rightarrow>
                          (case skip_ws r2 of
                             [] \<Rightarrow> False
                           | d # r3 \<Rightarrow> d = 44 \<and> deep_members limit n (skip_ws r3)))))))"

datatype decoding = Decoded json | DecodeError | RecursionLimit

definition json_decode :: "nat \<Rightarrow> pystr \<Rightarrow> decoding" where
  "json_decode limit s =
     (if s \<noteq> [] \<and> hd s = 0xFEFF then DecodeError
      else if deep_value limit (2 * length s + 1) (skip_ws s) then RecursionLimit
      else case json_loads s of None \<Rightarrow> DecodeError | Some v \<Rightarrow> Decoded v)"

lemmas deep_unfold = deep_value.simps(2) deep_elems.simps(2) deep_members.simps(2)

declare deep_unfold [simp del]

section \<open>Brackets go as deep as one likes\<close>

lemma deep_brackets: "limit < k \<Longrightarrow> 2 * limit < n \<Longrightarrow> deep_value limit n (replicate k 91)"
proof (induction limit arbitrary: k n)
  case 0
  then show ?case by (cases k; cases n) (simp_all add: deep_unfold)
next
  case (Suc limit)
  obtain j where k: "k = Suc (Suc j)" using Suc.prems(1) by (cases k rule: nat.exhaust; cases "k - 1") auto
  obtain m where n: "n = Suc (Suc m)" "2 * limit < m" using Suc.prems(2) by (cases n; cases "n - 1") auto
  have "deep_value limit m (replicate (Suc j) 91)" using Suc.IH [of "Suc j" m] Suc.prems(1) n k by simp
  then show ?case by (simp add: k n deep_unfold is_ws_def)
qed

lemma json_decode_brackets: "limit < k \<Longrightarrow> json_decode limit (replicate k 91) = RecursionLimit"
proof -
  assume "limit < k"
  then have "skip_ws (replicate k 91) = replicate k 91" "replicate k (91 :: nat) \<noteq> [] \<longrightarrow> hd (replicate k 91) \<noteq> (0xFEFF :: nat)"
    by (cases k; simp add: is_ws_def)+
  with deep_brackets [of limit k "2 * k + 1"] \<open>limit < k\<close> show ?thesis by (auto simp: json_decode_def)
qed

section \<open>Flat objects do not\<close>

lemma scalar_hd:
  assumes "scalar v" "wf_json v"
  shows "\<not> deep_value limit n (dump sep col v @ r)"
proof -
  have "\<exists>c cs. dump sep col v = c # cs \<and> c \<noteq> 91 \<and> c \<noteq> 123"
  proof (cases v)
    case (JInt i)
    then show ?thesis using dec_int_hd [of i] by (auto simp: is_digit_def)
  next
    case (JFloat l)
    then show ?thesis using wf_float_hd [of l] assms(2) by auto
  qed (use assms(1) in \<open>auto simp: dump_str_def lit_def\<close>)
  then show ?thesis by (cases n) (auto simp: deep_unfold)
qed

lemma flat_members_not_deep:
  assumes sep: "sep_ok 44 sep" and col: "sep_ok 58 col"
    and "wf_members kvs" "\<forall>(k, v) \<in> set kvs. scalar v" "kvs \<noteq> []"
  shows "\<not> deep_members limit n (join_with sep (dump_members sep col kvs) @ 125 # r)"
  using assms(3-5)
proof (induction kvs arbitrary: n)
  case (Cons kv kvs)
  obtain k v where kv: "kv = (k, v)" by fastforce
  with Cons.prems have wfk: "wf_str k" and wfv: "wf_json v" and flat: "scalar v"
    and rest: "wf_members kvs" "\<forall>(k, v) \<in> set kvs. scalar v" by auto
  obtain y where y: "col = 58 # y" "\<forall>x \<in> set y. is_ws x" using col by (auto simp: sep_ok_def)
  obtain w where w: "sep = 44 # w" "\<forall>x \<in> set w. is_ws x" using sep by (auto simp: sep_ok_def)
  obtain c cs where c: "dump sep col v = c # cs" "\<not> is_ws c" using dump_hd [OF wfv] by blast
  have skip: "skip_ws (y @ dump sep col v @ t) = dump sep col v @ t" for t
    using y(2) c by (simp add: skip_ws_sep)
  let ?k = "concat (map esc_char k)"
  have key: "scan_str (?k @ 34 # t) = Some (k, t)" for t using wfk by (rule scan_str_dump)
  have parsed: "x = (v, t)" if stop: "num_stop t" and x: "parse_value m (dump sep col v @ t) = Some x" for m t x
  proof -
    obtain m' where "parse_value m' (dump sep col v @ t) = Some (v, t)"
      using parse_value_dump [OF sep col wfv stop] by blast
    then show ?thesis
      using parse_value_mono [OF x, of "max m m'"] parse_value_mono [of m' _ _ "max m m'"] by fastforce
  qed
  have entry: "dump_str k @ col @ dump sep col v @ t = 34 # ?k @ 34 # 58 # y @ dump sep col v @ t" for t
    by (simp add: dump_str_def y(1))
  have step: "deep_members limit n (dump_str k @ col @ dump sep col v @ d # t) \<longrightarrow> d = 44 \<and> deep_members limit (n - 1) (skip_ws t)"
    if "d = 44 \<or> d = 125" for d t
    unfolding entry using that parsed [of "d # t" "n - 1"] scalar_hd [OF flat wfv, of limit "n - 1" sep col "d # t"]
    by (cases n) (auto simp: deep_unfold key skip is_ws_def split: option.splits)
  show ?case
  proof (cases "kvs = []")
    case True
    then show ?thesis using step [of 125 r] by (simp add: kv)
  next
    case False
    let ?t = "join_with sep (dump_members sep col kvs) @ 125 # r"
    obtain j u us where u: "kvs = (j, u) # us" using False by (cases kvs) auto
    have "\<exists>cs'. ?t = 34 # cs'" by (cases us) (auto simp: u dump_str_def)
    then have "skip_ws (w @ ?t) = ?t" using w(2) by (auto simp: skip_ws_sep is_ws_def)
    then show ?thesis
      using step [of 44 "w @ ?t"] Cons.IH [OF rest False, of "n - 1"] False w(1) by (auto simp: join_with_Cons kv)
  qed
qed simp

lemma json_decode_flat:
  assumes "wf_json (JObj kvs)" "\<forall>(k, v) \<in> set kvs. scalar v" "0 < limit"
  shows "json_decode limit (json_dumps (JObj kvs)) = Decoded (JObj kvs)"
proof -
  have "\<not> deep_value limit n (json_dumps (JObj kvs))" for n
  proof (cases "kvs = []")
    case True
    then show ?thesis using assms(3) by (cases n) (simp_all add: json_dumps_def deep_unfold is_ws_def lit_def)
  next
    case False
    let ?t = "join_with (lit '', '') (dump_members (lit '', '') (lit '': '') kvs) @ [125]"
    obtain j u us where u: "kvs = (j, u) # us" using False by (cases kvs) auto
    have "\<exists>cs'. ?t = 34 # cs'" by (cases us) (auto simp: u dump_str_def)
    then show ?thesis
      using flat_members_not_deep [of "lit '', ''" "lit '': ''" kvs "limit - 1" "n - 1" "[]"] assms False
      by (cases n) (auto simp: json_dumps_def deep_unfold is_ws_def)
  qed
  moreover have "skip_ws (json_dumps (JObj kvs)) = json_dumps (JObj kvs)" "hd (json_dumps (JObj kvs)) \<noteq> 0xFEFF"
    by (simp_all add: json_dumps_def is_ws_def)
  ultimately show ?thesis using json_loads_dumps [OF assms(1)] by (simp add: json_decode_def)
qed

lemma json_decode_Decoded: "json_decode limit s = Decoded v \<Longrightarrow> json_loads s = Some v"
  by (auto simp: json_decode_def split: if_splits option.splits)

end
