(* ===== verification/Discovery.thy ===== *)
theory Discovery
  imports Identity_File Json_Depth Sha256_Vector
begin

text \<open>
  Peer discovery, \<^verbatim>\<open>discovery.py\<close>: the registry of peers seen on the network, the announcement
  packets and their handling, the mDNS form of an announcement, the addresses that are
  announced to, and the display name in the identity file. Datagrams, the outputs of the \<^verbatim>\<open>ip\<close>
  command, the records that \<^verbatim>\<open>zeroconf\<close> resolves and the time are arguments. The identifier, the
  name and the port of a peer are values of JSON, because not every caller of \<^verbatim>\<open>upsert\<close> checks
  their types. The callbacks of the registry return; what they are told is recorded.
\<close>

section \<open>The registry\<close>

definition BROADCAST_PORT :: nat where "BROADCAST_PORT = 9999"
definition PEER_TIMEOUT :: time where "PEER_TIMEOUT = 10"
definition DISCOVERY_VERSION :: nat where "DISCOVERY_VERSION = 2"

record Peer =
  pr_peer_id :: json
  pr_name :: json
  pr_ip :: pystr
  pr_tcp_port :: json
  pr_public_key :: bytes
  pr_last_seen :: time

record PeerRegistry =
  rg_peers :: "(json, Peer) dict"
  rg_new :: "Peer list"
  rg_lost :: "Peer list"

definition new_registry :: PeerRegistry where
  "new_registry = \<lparr>rg_peers = [], rg_new = [], rg_lost = []\<rparr>"

text \<open>\<open>None\<close> is the \<^verbatim>\<open>TypeError\<close> of an identifier that no dictionary takes.\<close>

definition upsert :: "time \<Rightarrow> PeerRegistry \<Rightarrow> json \<Rightarrow> json \<Rightarrow> pystr \<Rightarrow> json \<Rightarrow> bytes \<Rightarrow> PeerRegistry option" where
  "upsert now r peer_id name ip tcp_port public_key =
     (case dict_key peer_id of
        None \<Rightarrow> None
      | Some k \<Rightarrow>
          (case map_of (rg_peers r) k of
             None \<Rightarrow>
               let p = \<lparr>pr_peer_id = peer_id, pr_name = name, pr_ip = ip, pr_tcp_port = tcp_port,
                        pr_public_key = public_key, pr_last_seen = now\<rparr> in
               Some (r\<lparr>rg_peers := dict_set (rg_peers r) k p, rg_new := rg_new r @ [p]\<rparr>)
           | Some existing \<Rightarrow>
               Some (r\<lparr>rg_peers := dict_set (rg_peers r) k
                 (existing\<lparr>pr_name := name, pr_ip := ip, pr_tcp_port := tcp_port,
                           pr_public_key := (if public_key \<noteq> [] then public_key else pr_public_key existing),
                           pr_last_seen := now\<rparr>)\<rparr>)))"

definition stale :: "time \<Rightarrow> Peer \<Rightarrow> bool" where
  "stale now p \<longleftrightarrow> now - pr_last_seen p > PEER_TIMEOUT"

definition pop_lost :: "PeerRegistry \<Rightarrow> json \<Rightarrow> PeerRegistry" where
  "pop_lost r pid =
     (case map_of (rg_peers r) pid of
        None \<Rightarrow> r
      | Some p \<Rightarrow> r\<lparr>rg_peers := dict_pop (rg_peers r) pid, rg_lost := rg_lost r @ [p]\<rparr>)"

definition prune_stale :: "time \<Rightarrow> PeerRegistry \<Rightarrow> PeerRegistry" where
  "prune_stale now r = foldl pop_lost r (map fst (filter (\<lambda>(pid, p). stale now p) (rg_peers r)))"

definition list_peers :: "PeerRegistry \<Rightarrow> Peer list" where
  "list_peers r = map snd (rg_peers r)"

definition get_peer :: "PeerRegistry \<Rightarrow> json \<Rightarrow> Peer option" where
  "get_peer r peer_id = (case dict_key peer_id of None \<Rightarrow> None | Some k \<Rightarrow> map_of (rg_peers r) k)"

section \<open>The display name\<close>

datatype rename_error = RenameFile file_error | RenameNotObject | RenameOther

definition save_identity :: "filesystem \<Rightarrow> pystr \<Rightarrow> pystr \<Rightarrow> pystr \<Rightarrow> (rename_error + unit) \<times> filesystem" where
  "save_identity fs peer_id name config_path =
     (if \<not> path_exists fs config_path then (Inr (), fs)
      else case load_json fs config_path of
        Inl e \<Rightarrow> (Inl (RenameFile e), fs)
      | Inr meta \<Rightarrow>
          (case meta of
             JObj kvs \<Rightarrow>
               if map_of kvs (lit ''device_id'') \<noteq> Some (JStr peer_id) then (Inl RenameOther, fs)
               else (case write_text fs config_path (json_dump_indent (JObj (dict_set kvs (lit ''name'') (JStr name)))) of
                       (Inl e, fs') \<Rightarrow> (Inl (RenameFile e), fs')
                     | (Inr _, fs') \<Rightarrow> (Inr (), fs'))
           | _ \<Rightarrow> (Inl RenameNotObject, fs)))"

section \<open>Where announcements go\<close>

function split_ws :: "pystr \<Rightarrow> pystr list" where
  "split_ws s =
     (let t = dropWhile is_py_space s in
      if t = [] then []
      else takeWhile (\<lambda>c. \<not> is_py_space c) t # split_ws (dropWhile (\<lambda>c. \<not> is_py_space c) t))"
  by pat_completeness auto
termination
proof (relation "measure length")
  fix s t :: pystr
  assume t: "t = dropWhile is_py_space s" "t \<noteq> []"
  then have "\<not> is_py_space (hd t)" by (simp add: hd_dropWhile)
  then have "length (dropWhile (\<lambda>c. \<not> is_py_space c) t) < length t"
    using t(2) by (cases t) (simp_all add: le_imp_less_Suc length_dropWhile_le)
  also have "\<dots> \<le> length s" by (simp add: t(1) length_dropWhile_le)
  finally show "(dropWhile (\<lambda>c. \<not> is_py_space c) t, s) \<in> measure length" by simp
qed simp

declare split_ws.simps [simp del]

text \<open>The lines of a text, cut after the characters \<open>stop\<close> holds of; \<open>splitlines\<close> takes a carriage return with its newline.\<close>

fun cut_lines :: "(nat \<Rightarrow> bool) \<Rightarrow> pystr \<Rightarrow> pystr \<Rightarrow> pystr list" where
  "cut_lines stop acc [] = (if acc = [] then [] else [rev acc])"
| "cut_lines stop acc (c # s) = (if stop c then rev acc # cut_lines stop [] s else cut_lines stop (c # acc) s)"

definition readlines :: "pystr \<Rightarrow> pystr list" where
  "readlines s = cut_lines (\<lambda>c. c = 10) [] s"

fun join_crlf :: "pystr \<Rightarrow> pystr" where
  "join_crlf (c # d # s) = (if c = 13 \<and> d = 10 then 10 # join_crlf s else c # join_crlf (d # s))"
| "join_crlf s = s"

definition splitlines :: "pystr \<Rightarrow> pystr list" where
  "splitlines s = cut_lines (\<lambda>c. c \<in> {10, 11, 12, 13, 0x1c, 0x1d, 0x1e, 0x85, 0x2028, 0x2029}) [] (join_crlf s)"

definition inet_ntoa :: "bytes \<Rightarrow> pystr" where
  "inet_ntoa bs = join_with (lit ''.'') (map (\<lambda>b. dec_nat (unat b)) bs)"

text \<open>The routing table of the kernel. A gateway that is not a 32-bit number ends the reading.\<close>

fun route_targets :: "pystr list \<Rightarrow> pystr list" where
  "route_targets [] = []"
| "route_targets (line # ls) =
     (let fields = split_ws (py_strip is_py_space line) in
      if 3 \<le> length fields \<and> fields ! 1 = lit ''00000000'' \<and> fields ! 2 \<noteq> lit ''00000000'' then
        (case py_int 16 (fields ! 2) of
           None \<Rightarrow> []
         | Some n \<Rightarrow>
             if 0 \<le> n \<and> n < 2 ^ 32 then inet_ntoa (rev (be_bytes 4 (nat n))) # route_targets ls else [])
      else route_targets ls)"

text \<open>The word after the first occurrence of \<open>w\<close> in each line of an output.\<close>

definition word_after :: "pystr \<Rightarrow> pystr \<Rightarrow> pystr option" where
  "word_after w line =
     (case dropWhile (\<lambda>x. x \<noteq> w) (split_ws line) of _ # y # _ \<Rightarrow> Some y | _ \<Rightarrow> None)"

definition words_after :: "pystr \<Rightarrow> pystr option \<Rightarrow> pystr list" where
  "words_after w out =
     (case out of None \<Rightarrow> [] | Some text \<Rightarrow> List.map_filter (word_after w) (splitlines text))"

definition get_broadcast_targets :: "pystr option \<Rightarrow> pystr option \<Rightarrow> pystr option \<Rightarrow> pystr list" where
  "get_broadcast_targets proc_route ip_addr ip_route =
     sort (remdups
       ([lit ''255.255.255.255''] @
        (case proc_route of None \<Rightarrow> [] | Some text \<Rightarrow> route_targets (drop 1 (readlines text))) @
        words_after (lit ''brd'') ip_addr @ words_after (lit ''via'') ip_route))"

record network_info =
  ni_local_ips :: "pystr list"
  ni_targets :: "pystr list"
  ni_mdns_available :: bool

definition local_addresses :: "pystr list option \<Rightarrow> pystr list" where
  "local_addresses hosts =
     (case hosts of None \<Rightarrow> [] | Some ips \<Rightarrow> filter (\<lambda>ip. take 4 ip \<noteq> lit ''127.'') ips)"

definition get_network_info :: "pystr list option \<Rightarrow> pystr list \<Rightarrow> bool \<Rightarrow> network_info" where
  "get_network_info hosts targets mdns =
     \<lparr>ni_local_ips = local_addresses hosts, ni_targets = targets, ni_mdns_available = mdns\<rparr>"

section \<open>mDNS records\<close>

definition build_mdns_txt :: "int \<Rightarrow> pystr \<Rightarrow> bytes \<Rightarrow> pystr \<Rightarrow> int \<Rightarrow> (pystr, pystr) dict" where
  "build_mdns_txt ver device_id public_key name tcp_port =
     [(lit ''version'', dec_int ver),
      (lit ''device_id'', device_id),
      (lit ''public_key'', b64encode public_key),
      (lit ''name'', take 64 name),
      (lit ''tcp_port'', dec_int tcp_port)]"

definition safe_int :: "pystr \<Rightarrow> int" where
  "safe_int v = (case py_int 10 v of None \<Rightarrow> 0 | Some n \<Rightarrow> n)"

definition txt_get :: "(pystr, pystr) dict \<Rightarrow> string \<Rightarrow> pystr \<Rightarrow> pystr" where
  "txt_get txt k d = (case map_of txt (lit k) of None \<Rightarrow> d | Some v \<Rightarrow> v)"

definition mdns_message :: "(pystr, pystr) dict \<Rightarrow> pystr \<Rightarrow> json" where
  "mdns_message txt src_ip = JObj
     [(lit ''type'', JStr (lit ''announce'')),
      (lit ''version'', JInt (case map_of txt (lit ''version'') of None \<Rightarrow> 0 | Some v \<Rightarrow> safe_int v)),
      (lit ''device_id'', JStr (txt_get txt ''device_id'' [])),
      (lit ''public_key'', JStr (txt_get txt ''public_key'' [])),
      (lit ''name'', JStr (txt_get txt ''name'' src_ip)),
      (lit ''tcp_port'', JInt (safe_int (txt_get txt ''tcp_port'' (lit ''0'')))),
      (lit ''reply'', JBool False)]"

definition mdns_txt_to_packet :: "(pystr, pystr) dict \<Rightarrow> pystr \<Rightarrow> bytes" where
  "mdns_txt_to_packet txt src_ip = ascii_bytes (json_dumps (mdns_message txt src_ip))"

text \<open>
  A resolved record: its properties as \<^verbatim>\<open>zeroconf\<close> gives them, bytes with an optional value, and
  its addresses. \<open>None\<close> is the \<^verbatim>\<open>UnicodeDecodeError\<close> of a property that is not UTF-8.
\<close>

fun decode_properties :: "(bytes \<times> bytes option) list \<Rightarrow> (pystr, pystr) dict \<Rightarrow> (pystr, pystr) dict option" where
  "decode_properties [] txt = Some txt"
| "decode_properties ((k, v) # props) txt =
     (case (utf8_decode k, case v of None \<Rightarrow> Some [] | Some b \<Rightarrow> utf8_decode b) of
        (Some key, Some val) \<Rightarrow> decode_properties props (dict_set txt key val)
      | _ \<Rightarrow> None)"

definition handle_info :: "(bytes \<times> bytes option) list \<Rightarrow> bytes list \<Rightarrow> (bytes \<times> pystr) option" where
  "handle_info props addresses =
     (case decode_properties props [] of
        None \<Rightarrow> None
      | Some txt \<Rightarrow>
          let src_ip = (case addresses of a # _ \<Rightarrow> if length a = 4 then inet_ntoa a else lit ''0.0.0.0'' | [] \<Rightarrow> lit ''0.0.0.0'') in
          Some (mdns_txt_to_packet txt src_ip, src_ip))"

section \<open>Announcing and listening\<close>

record Discovery =
  dc_peer_id :: pystr
  dc_name :: pystr
  dc_tcp_port :: int
  dc_public_key :: bytes
  dc_registry :: PeerRegistry

definition announce_message :: "Discovery \<Rightarrow> bool \<Rightarrow> json" where
  "announce_message d reply = JObj
     [(lit ''type'', JStr (lit ''announce'')),
      (lit ''version'', JInt (int DISCOVERY_VERSION)),
      (lit ''device_id'', JStr (dc_peer_id d)),
      (lit ''public_key'', JStr (b64encode (dc_public_key d))),
      (lit ''name'', JStr (dc_name d)),
      (lit ''tcp_port'', JInt (dc_tcp_port d)),
      (lit ''reply'', JBool reply)]"

definition announce_payload :: "Discovery \<Rightarrow> bool \<Rightarrow> bytes" where
  "announce_payload d reply = ascii_bytes (json_dumps (announce_message d reply))"

text \<open>Datagrams handed to the socket. A send that fails is caught and nothing depends on it.\<close>

type_synonym datagram = "bytes \<times> pystr \<times> nat"

definition probe_peer :: "Discovery \<Rightarrow> pystr \<Rightarrow> datagram list" where
  "probe_peer d ip = [(announce_payload d True, ip, BROADCAST_PORT)]"

definition broadcast_now :: "Discovery \<Rightarrow> pystr list \<Rightarrow> datagram list" where
  "broadcast_now d targets = map (\<lambda>t. (announce_payload d True, t, BROADCAST_PORT)) targets"

text \<open>What a packet is found to be, in the order of the checks.\<close>

datatype verdict =
    Ignored
  | Inconsistent pystr
  | Announced pystr pystr json bytes bool

definition check_message :: "pystr \<Rightarrow> json \<Rightarrow> pystr \<Rightarrow> verdict" where
  "check_message self msg ip =
     (if \<not> is_obj msg then Ignored
      else if jget msg (lit ''type'') \<noteq> Some (JStr (lit ''announce'')) then Ignored
      else if \<not> (case jget msg (lit ''version'') of None \<Rightarrow> False | Some v \<Rightarrow> equals_nat v DISCOVERY_VERSION) then Ignored
      else case (jget msg (lit ''device_id''), jget msg (lit ''public_key'')) of
        (Some (JStr device_id), Some (JStr public_key_b64)) \<Rightarrow>
          if device_id = [] \<or> public_key_b64 = [] then Ignored
          else (case b64decode True public_key_b64 of
             None \<Rightarrow> Ignored
           | Some key \<Rightarrow>
               if length key \<noteq> 32 then Ignored
               else if sha256_hex key \<noteq> device_id then Inconsistent device_id
               else if device_id = self then Ignored
               else
                 let name = (case jget msg (lit ''name'') of
                     Some (JStr s) \<Rightarrow> if py_strip is_py_space s = [] then ip else s
                   | _ \<Rightarrow> ip);
                   tcp_port = (case jget msg (lit ''tcp_port'') of None \<Rightarrow> JInt 0 | Some v \<Rightarrow> v);
                   reply = (case jget msg (lit ''reply'') of None \<Rightarrow> True | Some v \<Rightarrow> truthy v) in
                 if \<not> port_int tcp_port then Ignored
                 else Announced device_id (take 64 name) tcp_port key reply)
      | _ \<Rightarrow> Ignored)"

text \<open>\<open>None\<close> is the \<^verbatim>\<open>RecursionError\<close> of the decoder, which nothing in the listener catches.\<close>

definition handle_packet ::
    "nat \<Rightarrow> time \<Rightarrow> Discovery \<Rightarrow> bytes \<Rightarrow> pystr \<Rightarrow> (Discovery \<times> datagram list \<times> notice list) option" where
  "handle_packet limit now d data ip =
     (case utf8_decode data of
        None \<Rightarrow> Some (d, [], [])
      | Some s \<Rightarrow>
          (case json_decode limit s of
             RecursionLimit \<Rightarrow> None
           | DecodeError \<Rightarrow> Some (d, [], [])
           | Decoded msg \<Rightarrow>
               (case check_message (dc_peer_id d) msg ip of
                  Ignored \<Rightarrow> Some (d, [], [])
                | Inconsistent device_id \<Rightarrow> Some (d, [], [(AUTH_FAILED, WARNING, Some device_id)])
                | Announced device_id name tcp_port key reply \<Rightarrow>
                    (case upsert now (dc_registry d) (JStr device_id) (JStr name) ip tcp_port key of
                       None \<Rightarrow> Some (d, [], [])
                     | Some r \<Rightarrow>
                         Some (d\<lparr>dc_registry := r\<rparr>,
                               if reply then [(announce_payload d False, ip, BROADCAST_PORT)] else [], [])))))"

section \<open>The loops\<close>

text \<open>
  One event of the loops that run side by side: a datagram for the listener, which reads at
  most 4096 bytes and is gone for good once a packet has made it raise; a record resolved by
  mDNS; the announcer's turn; the pruner's turn.
\<close>

datatype net_event =
    Datagram bytes pystr
  | MdnsRecord "(bytes \<times> bytes option) list" "bytes list"
  | AnnounceTurn "pystr list"
  | PruneTurn

record discovery_state =
  ds_discovery :: Discovery
  ds_listening :: bool
  ds_sent :: "datagram list"
  ds_notices :: "notice list"

definition new_discovery_state :: "Discovery \<Rightarrow> discovery_state" where
  "new_discovery_state d = \<lparr>ds_discovery = d, ds_listening = True, ds_sent = [], ds_notices = []\<rparr>"

definition apply_packet :: "discovery_state \<Rightarrow> Discovery \<times> datagram list \<times> notice list \<Rightarrow> discovery_state" where
  "apply_packet s r =
     (case r of (d, sends, notices) \<Rightarrow>
        s\<lparr>ds_discovery := d, ds_sent := ds_sent s @ sends, ds_notices := ds_notices s @ notices\<rparr>)"

definition listen_turn :: "nat \<Rightarrow> time \<Rightarrow> discovery_state \<Rightarrow> bytes \<Rightarrow> pystr \<Rightarrow> discovery_state" where
  [simp]: "listen_turn limit now s data ip =
     (if \<not> ds_listening s then s
      else case handle_packet limit now (ds_discovery s) (take 4096 data) ip of
        None \<Rightarrow> s\<lparr>ds_listening := False\<rparr>
      | Some r \<Rightarrow> apply_packet s r)"

text \<open>\<^verbatim>\<open>add_service\<close> and \<^verbatim>\<open>update_service\<close>; what they raise stays in the thread of \<^verbatim>\<open>zeroconf\<close>.\<close>

definition service_turn ::
    "nat \<Rightarrow> time \<Rightarrow> discovery_state \<Rightarrow> (bytes \<times> bytes option) list \<Rightarrow> bytes list \<Rightarrow> discovery_state" where
  [simp]: "service_turn limit now s props addresses =
     (case handle_info props addresses of
        None \<Rightarrow> s
      | Some (packet, src_ip) \<Rightarrow>
          (case handle_packet limit now (ds_discovery s) packet src_ip of
             None \<Rightarrow> s
           | Some r \<Rightarrow> apply_packet s r))"

definition announce_turn :: "discovery_state \<Rightarrow> pystr list \<Rightarrow> discovery_state" where
  [simp]: "announce_turn s targets = s\<lparr>ds_sent := ds_sent s @ broadcast_now (ds_discovery s) targets\<rparr>"

definition prune_turn :: "time \<Rightarrow> discovery_state \<Rightarrow> discovery_state" where
  [simp]: "prune_turn now s =
     s\<lparr>ds_discovery := (ds_discovery s)\<lparr>dc_registry := prune_stale now (dc_registry (ds_discovery s))\<rparr>\<rparr>"

fun discovery_step :: "nat \<Rightarrow> time \<Rightarrow> discovery_state \<Rightarrow> net_event \<Rightarrow> discovery_state" where
  "discovery_step limit now s (Datagram data ip) = listen_turn limit now s data ip"
| "discovery_step limit now s (MdnsRecord props addresses) = service_turn limit now s props addresses"
| "discovery_step limit now s (AnnounceTurn targets) = announce_turn s targets"
| "discovery_step limit now s PruneTurn = prune_turn now s"

section \<open>Facts about the registry\<close>

lemma dict_ok_pop_lost: "dict_ok (rg_peers r) \<Longrightarrow> dict_ok (rg_peers (pop_lost r k))"
  by (auto simp: pop_lost_def split: option.splits)

lemma foldl_pop_lost:
  assumes "dict_ok (rg_peers r)" "distinct ks" "set ks \<subseteq> fst ` set (rg_peers r)"
  shows "rg_peers (foldl pop_lost r ks) = filter (\<lambda>(k, p). k \<notin> set ks) (rg_peers r) \<and>
    rg_lost (foldl pop_lost r ks) = rg_lost r @ map (\<lambda>k. the (map_of (rg_peers r) k)) ks \<and>
    rg_new (foldl pop_lost r ks) = rg_new r"
  using assms
proof (induction ks arbitrary: r)
  case (Cons k ks)
  obtain p where p: "map_of (rg_peers r) k = Some p"
    using Cons.prems(3) by (cases "map_of (rg_peers r) k") (auto simp: map_of_eq_None_iff)
  let ?r = "pop_lost r k"
  have r: "rg_peers ?r = dict_pop (rg_peers r) k" "rg_lost ?r = rg_lost r @ [p]" "rg_new ?r = rg_new r"
    by (simp_all add: pop_lost_def p)
  have pop: "dict_pop (rg_peers r) k = filter (\<lambda>(j, q). j \<noteq> k) (rg_peers r)"
    by (simp add: dict_pop_def case_prod_unfold)
  have "set ks \<subseteq> fst ` set (rg_peers ?r)"
    using Cons.prems(2,3) by (force simp: r pop)
  then have IH: "rg_peers (foldl pop_lost ?r ks) = filter (\<lambda>(j, q). j \<notin> set ks) (rg_peers ?r) \<and>
      rg_lost (foldl pop_lost ?r ks) = rg_lost ?r @ map (\<lambda>j. the (map_of (rg_peers ?r) j)) ks \<and>
      rg_new (foldl pop_lost ?r ks) = rg_new ?r"
    using Cons.prems dict_ok_pop_lost by (intro Cons.IH) auto
  have "map (\<lambda>j. the (map_of (rg_peers ?r) j)) ks = map (\<lambda>j. the (map_of (rg_peers r) j)) ks"
    using Cons.prems(2) by (intro map_cong) (auto simp: r)
  moreover have "filter (\<lambda>(j, q). j \<notin> set ks) (rg_peers ?r) = filter (\<lambda>(j, q). j \<notin> set (k # ks)) (rg_peers r)"
    by (simp add: r pop case_prod_unfold)
  ultimately show ?case using IH by (simp add: p r)
qed simp

lemma prune_stale_filter:
  assumes "dict_ok (rg_peers r)"
  shows "rg_peers (prune_stale now r) = filter (\<lambda>(k, p). \<not> stale now p) (rg_peers r) \<and>
    rg_lost (prune_stale now r) = rg_lost r @ filter (stale now) (list_peers r) \<and>
    rg_new (prune_stale now r) = rg_new r"
proof -
  let ?gone = "filter (\<lambda>(k, p). stale now p) (rg_peers r)"
  have dist: "distinct (map fst (rg_peers r))" using assms by (simp add: dict_ok_def)
  have look: "map_of (rg_peers r) k = Some p" if "(k, p) \<in> set (rg_peers r)" for k p
    using map_of_is_SomeI [OF dist that] .
  have mem: "k \<in> set (map fst ?gone) \<longleftrightarrow> stale now p" if "(k, p) \<in> set (rg_peers r)" for k p
  proof
    assume "k \<in> set (map fst ?gone)"
    then obtain q where "(k, q) \<in> set (rg_peers r)" "stale now q" by auto
    with look [OF this(1)] look [OF that] show "stale now p" by simp
  qed (use that in force)
  have "filter (\<lambda>(k, p). k \<notin> set (map fst ?gone)) (rg_peers r) = filter (\<lambda>(k, p). \<not> stale now p) (rg_peers r)"
    by (rule filter_cong) (use mem in auto)
  moreover have "map (\<lambda>k. the (map_of (rg_peers r) k)) (map fst ?gone) = map snd ?gone"
    unfolding map_map by (rule map_cong) (use look in auto)
  moreover have "map snd ?gone = filter (stale now) (list_peers r)"
    by (simp add: list_peers_def filter_map comp_def case_prod_unfold)
  moreover have "distinct (map fst ?gone)" using dist by (simp add: distinct_map_filter)
  ultimately show ?thesis
    unfolding prune_stale_def using foldl_pop_lost [OF assms, of "map fst ?gone"] by auto
qed

lemma map_of_filter_value:
  "distinct (map fst xs) \<Longrightarrow> map_of (filter (\<lambda>(k, v). P v) xs) k = (case map_of xs k of Some v \<Rightarrow> if P v then Some v else None | None \<Rightarrow> None)"
proof (induction xs)
  case (Cons x xs)
  have "map_of xs (fst x) = None" using Cons.prems by (simp add: map_of_eq_None_iff)
  with Cons show ?case by (cases x) (auto split: option.splits)
qed simp

text \<open>
  Pruning forgets exactly the peers that have been silent for more than ten
  seconds: afterwards a peer is found just when it was found before and has been heard since,
  and each forgotten peer has been reported once, in order.
\<close>

theorem prune_exact:
  assumes "dict_ok (rg_peers r)"
  shows "get_peer (prune_stale now r) pid =
      (case get_peer r pid of Some p \<Rightarrow> if now - pr_last_seen p \<le> PEER_TIMEOUT then Some p else None | None \<Rightarrow> None) \<and>
    rg_lost (prune_stale now r) = rg_lost r @ filter (\<lambda>p. PEER_TIMEOUT < now - pr_last_seen p) (list_peers r) \<and>
    rg_new (prune_stale now r) = rg_new r"
proof -
  have dist: "distinct (map fst (rg_peers r))" using assms by (simp add: dict_ok_def)
  have "get_peer (prune_stale now r) pid =
      (case get_peer r pid of Some p \<Rightarrow> if \<not> stale now p then Some p else None | None \<Rightarrow> None)"
    using prune_stale_filter [OF assms, of now] map_of_filter_value [OF dist, of "\<lambda>p. \<not> stale now p"]
    by (simp add: get_peer_def split: option.splits)
  then show ?thesis
    using prune_stale_filter [OF assms, of now] by (simp add: stale_def [abs_def] not_less cong: if_cong option.case_cong)
qed

section \<open>What the network can put in the registry\<close>

definition peer_typed :: "pystr \<Rightarrow> json \<Rightarrow> Peer \<Rightarrow> bool" where
  "peer_typed self k p \<longleftrightarrow>
     (\<exists>device_id name. k = JStr device_id \<and> pr_peer_id p = k \<and> device_id \<noteq> self \<and>
        length (pr_public_key p) = 32 \<and> device_id = sha256_hex (pr_public_key p) \<and>
        pr_name p = JStr name \<and> length name \<le> 64 \<and> port_int (pr_tcp_port p))"

definition registry_typed :: "pystr \<Rightarrow> PeerRegistry \<Rightarrow> bool" where
  "registry_typed self r \<longleftrightarrow> dict_ok (rg_peers r) \<and> (\<forall>(k, p) \<in> set (rg_peers r). peer_typed self k p)"

definition discovery_typed :: "pystr \<Rightarrow> discovery_state \<Rightarrow> bool" where
  "discovery_typed self s \<longleftrightarrow> dc_peer_id (ds_discovery s) = self \<and> registry_typed self (dc_registry (ds_discovery s))"

lemma set_dict_set: "set (dict_set d k v) \<subseteq> insert (k, v) (set d)"
  by (induction d k v rule: dict_set.induct) auto

lemma check_message_announced:
  assumes "check_message self msg ip = Announced device_id name port key reply"
  shows "length key = 32 \<and> sha256_hex key = device_id \<and> device_id \<noteq> self \<and> length name \<le> 64 \<and> port_int port"
proof -
  obtain i k where ik: "jget msg (lit ''device_id'') = Some (JStr i)" "jget msg (lit ''public_key'') = Some (JStr k)"
    using assms by (fastforce simp: check_message_def split: if_splits option.splits json.splits)
  show ?thesis
    using assms unfolding check_message_def ik Let_def by (simp split: if_splits option.splits) auto
qed

lemma typed_upsert:
  assumes "registry_typed self r" "length key = 32" "device_id = sha256_hex key" "device_id \<noteq> self" "length name \<le> 64"
    and "port_int port"
    and up: "upsert now r (JStr device_id) (JStr name) ip port key = Some r'"
  shows "registry_typed self r'"
proof -
  have "key \<noteq> []" using assms(2) by auto
  have old: "peer_typed self k p" if "(k, p) \<in> set (rg_peers r)" for k p
    using assms(1) that by (auto simp: registry_typed_def)
  obtain p where p: "rg_peers r' = dict_set (rg_peers r) (JStr device_id) p" "peer_typed self (JStr device_id) p"
  proof (cases "map_of (rg_peers r) (JStr device_id)")
    case None
    with up assms(2-6) show ?thesis by (intro that) (auto simp: upsert_def peer_typed_def Let_def)
  next
    case (Some q)
    then have "pr_peer_id q = JStr device_id" using old [OF map_of_SomeD [OF Some]] by (auto simp: peer_typed_def)
    with Some up assms(2-6) \<open>key \<noteq> []\<close> show ?thesis by (intro that) (auto simp: upsert_def peer_typed_def)
  qed
  then show ?thesis
    using assms(1) old set_dict_set [of "rg_peers r" "JStr device_id" p] by (auto simp: registry_typed_def)
qed

lemma typed_announced:
  assumes "registry_typed self r" "check_message self msg ip = Announced device_id name port key reply"
    and "upsert now r (JStr device_id) (JStr name) ip port key = Some r'"
  shows "registry_typed self r'"
  using typed_upsert [OF assms(1) _ _ _ _ _ assms(3)] check_message_announced [OF assms(2)] by simp

lemma typed_handle_packet:
  assumes "registry_typed (dc_peer_id d) (dc_registry d)" "handle_packet limit now d data ip = Some (d', sends, notices)"
  shows "registry_typed (dc_peer_id d) (dc_registry d') \<and> dc_peer_id d' = dc_peer_id d"
  using assms by (auto simp: handle_packet_def dest: typed_announced split: option.splits decoding.splits verdict.splits)

lemma typed_apply_packet:
  assumes "discovery_typed self s" "handle_packet limit now (ds_discovery s) data ip = Some r"
  shows "discovery_typed self (apply_packet s r)"
proof -
  obtain d' sends notices where r: "r = (d', sends, notices)" by (cases r)
  then show ?thesis
    using assms(1) typed_handle_packet [OF _ assms(2) [unfolded r]] by (auto simp: discovery_typed_def apply_packet_def)
qed

lemma typed_prune: "registry_typed self r \<Longrightarrow> registry_typed self (prune_stale now r)"
proof -
  assume typed: "registry_typed self r"
  then have "rg_peers (prune_stale now r) = filter (\<lambda>(k, p). \<not> stale now p) (rg_peers r)"
    using prune_stale_filter [of r now] by (simp add: registry_typed_def)
  with typed show ?thesis by (auto simp: registry_typed_def dict_ok_def distinct_map_filter)
qed

lemma typed_discovery_step: "discovery_typed self s \<Longrightarrow> discovery_typed self (discovery_step limit now s e)"
  using typed_apply_packet typed_prune
  by (cases e) (auto simp: discovery_typed_def split: option.splits prod.splits)

interpretation discovery_inv: step_system "\<lambda>s (now, e). discovery_step limit now s e" "discovery_typed self" for limit self
  by unfold_locales (simp add: typed_discovery_step split: prod.split)

text \<open>
  Claim C14. Whatever datagrams and mDNS records arrive, in whatever order, mixed with
  announcing and pruning, the registry of a device that only listens to the network stays well
  formed: each entry is stored under its own identifier, which is the hash of the 32-byte key
  stored with it and not the device's own, its name has at most 64 characters, and its port is
  a port.
\<close>

theorem registry_well_typed:
  assumes "registry_typed (dc_peer_id d) (dc_registry d)"
  shows "registry_typed (dc_peer_id d)
    (dc_registry (ds_discovery (foldl (\<lambda>s (now, e). discovery_step limit now s e) (new_discovery_state d) events)))"
  using discovery_inv.run_stays [of "dc_peer_id d" "new_discovery_state d" limit events] assms
  by (simp add: discovery_typed_def new_discovery_state_def)

definition toy_discovery :: Discovery where
  "toy_discovery =
     \<lparr>dc_peer_id = lit ''me'', dc_name = lit ''me'', dc_tcp_port = 5656, dc_public_key = [], dc_registry = new_registry\<rparr>"

theorem registry_well_typed_witness:
  "registry_typed (lit ''me'')
    (dc_registry (ds_discovery (foldl (\<lambda>s (now, e). discovery_step 900 now s e) (new_discovery_state toy_discovery)
       [(0, Datagram (blit ''{}'') (lit ''10.0.0.1'')), (1, PruneTurn)])))"
proof -
  have "registry_typed (dc_peer_id toy_discovery) (dc_registry toy_discovery)"
    by (simp add: toy_discovery_def registry_typed_def new_registry_def dict_ok_def)
  note run = registry_well_typed [OF this]
  have "dc_peer_id toy_discovery = lit ''me''" by (simp add: toy_discovery_def)
  with run show ?thesis by (simp only:)
qed

theorem prune_exact_witness:
  "get_peer (prune_stale 20 new_registry) JNull = None"
  using prune_exact [of new_registry 20 JNull] by (simp add: new_registry_def dict_ok_def get_peer_def)

section \<open>Two devices find each other\<close>

text \<open>A device whose announcement is acceptable: the identifier is that of the key, and the texts are well formed.\<close>

definition announceable :: "Discovery \<Rightarrow> bool" where
  "announceable d \<longleftrightarrow>
     length (dc_public_key d) = 32 \<and> dc_peer_id d = sha256_hex (dc_public_key d) \<and> wf_str (dc_name d) \<and>
     0 < dc_tcp_port d \<and> dc_tcp_port d < 65536"

text \<open>The name an announcement is registered under: its first 64 characters, or the address if it is blank.\<close>

definition shown_name :: "pystr \<Rightarrow> pystr \<Rightarrow> pystr" where
  "shown_name name ip = take 64 (if py_strip is_py_space name = [] then ip else name)"

lemma utf8_decode_ascii: "list_all is_ascii s \<Longrightarrow> utf8_decode (ascii_bytes s) = Some s"
  using utf8_decode_encode [OF utf8_encode_ascii] .

lemma wf_sha256_hex: "wf_str (sha256_hex key)"
  by (simp add: sha256_hex_def wf_str_ascii bytes_hex_ascii)

lemma received:
  assumes "wf_json (JObj kvs)" "\<forall>(k, v) \<in> set kvs. scalar v" "0 < limit"
  shows "handle_packet limit now d (ascii_bytes (json_dumps (JObj kvs))) ip =
     (case check_message (dc_peer_id d) (JObj kvs) ip of
        Ignored \<Rightarrow> Some (d, [], [])
      | Inconsistent device_id \<Rightarrow> Some (d, [], [(AUTH_FAILED, WARNING, Some device_id)])
      | Announced device_id name tcp_port key reply \<Rightarrow>
          (case upsert now (dc_registry d) (JStr device_id) (JStr name) ip tcp_port key of
             None \<Rightarrow> Some (d, [], [])
           | Some r \<Rightarrow>
               Some (d\<lparr>dc_registry := r\<rparr>, if reply then [(announce_payload d False, ip, BROADCAST_PORT)] else [], [])))"
  using utf8_decode_ascii [OF json_dumps_ascii [OF assms(1)]] json_decode_flat [OF assms] by (simp add: handle_packet_def)

lemma wf_announce:
  assumes "wf_str (dc_peer_id d)" "wf_str (dc_name d)"
  shows "wf_json (announce_message d reply)"
  using assms
  by (simp add: announce_message_def dict_ok_def wf_str_ascii b64encode_ascii lit_def is_ascii_def is_high_surrogate_def)

lemma check_announce_message:
  "check_message self (announce_message a reply) ip =
     (if dc_peer_id a = [] \<or> length (dc_public_key a) \<noteq> 32 then Ignored
      else if sha256_hex (dc_public_key a) \<noteq> dc_peer_id a then Inconsistent (dc_peer_id a)
      else if dc_peer_id a = self \<or> \<not> port_int (JInt (dc_tcp_port a)) then Ignored
      else Announced (dc_peer_id a) (shown_name (dc_name a) ip) (JInt (dc_tcp_port a)) (dc_public_key a) reply)"
proof -
  have "length (dc_public_key a) = 32 \<Longrightarrow> b64encode (dc_public_key a) \<noteq> []"
    using length_b64encode [of "dc_public_key a"] by auto
  moreover have "jget (announce_message a reply) (lit ''type'') = Some (JStr (lit ''announce''))"
    "jget (announce_message a reply) (lit ''version'') = Some (JInt 2)"
    "jget (announce_message a reply) (lit ''device_id'') = Some (JStr (dc_peer_id a))"
    "jget (announce_message a reply) (lit ''public_key'') = Some (JStr (b64encode (dc_public_key a)))"
    "jget (announce_message a reply) (lit ''name'') = Some (JStr (dc_name a))"
    "jget (announce_message a reply) (lit ''tcp_port'') = Some (JInt (dc_tcp_port a))"
    "jget (announce_message a reply) (lit ''reply'') = Some (JBool reply)" "is_obj (announce_message a reply)"
    by (simp_all add: announce_message_def DISCOVERY_VERSION_def lit_def)
  ultimately show ?thesis
    by (auto simp: check_message_def shown_name_def Let_def equals_nat_def DISCOVERY_VERSION_def truthy_def)
qed

lemma check_announce:
  assumes "announceable a"
  shows "check_message self (announce_message a reply) ip =
     (if dc_peer_id a = self then Ignored
      else Announced (dc_peer_id a) (shown_name (dc_name a) ip) (JInt (dc_tcp_port a)) (dc_public_key a) reply)"
proof -
  have "length (dc_peer_id a) = 64" using assms by (simp add: announceable_def sha256_hex_def)
  then have "dc_peer_id a \<noteq> []" by auto
  then show ?thesis using assms by (simp add: check_announce_message announceable_def port_int_def)
qed

lemma upsert_str: "\<exists>r'. upsert now r (JStr s) name ip port key = Some r' \<and>
    (\<exists>p. get_peer r' (JStr s) = Some p \<and> pr_name p = name \<and> pr_ip p = ip \<and> pr_tcp_port p = port \<and>
       pr_last_seen p = now \<and> (key \<noteq> [] \<longrightarrow> pr_public_key p = key))"
  by (auto simp: upsert_def get_peer_def Let_def split: option.splits)

lemma handle_announce:
  assumes "announceable a" "0 < limit" "dc_peer_id a \<noteq> dc_peer_id d"
  obtains r where "handle_packet limit now d (announce_payload a reply) ip =
      Some (d\<lparr>dc_registry := r\<rparr>, if reply then [(announce_payload d False, ip, BROADCAST_PORT)] else [], [])"
    "\<exists>p. get_peer r (JStr (dc_peer_id a)) = Some p \<and> pr_name p = JStr (shown_name (dc_name a) ip) \<and> pr_ip p = ip \<and>
       pr_tcp_port p = JInt (dc_tcp_port a) \<and> pr_last_seen p = now \<and> pr_public_key p = dc_public_key a"
proof -
  have wf: "wf_json (announce_message a reply)"
    using assms(1) wf_sha256_hex by (intro wf_announce) (simp_all add: announceable_def)
  obtain kvs where kvs: "announce_message a reply = JObj kvs" "\<forall>(k, v) \<in> set kvs. scalar v"
    by (simp add: announce_message_def)
  have key: "dc_public_key a \<noteq> []" using assms(1) by (auto simp: announceable_def)
  obtain r where r: "upsert now (dc_registry d) (JStr (dc_peer_id a)) (JStr (shown_name (dc_name a) ip)) ip
      (JInt (dc_tcp_port a)) (dc_public_key a) = Some r"
    "\<exists>p. get_peer r (JStr (dc_peer_id a)) = Some p \<and> pr_name p = JStr (shown_name (dc_name a) ip) \<and> pr_ip p = ip \<and>
       pr_tcp_port p = JInt (dc_tcp_port a) \<and> pr_last_seen p = now \<and> pr_public_key p = dc_public_key a"
    using upsert_str [of now "dc_registry d" "dc_peer_id a"] key by metis
  moreover have "handle_packet limit now d (announce_payload a reply) ip =
      Some (d\<lparr>dc_registry := r\<rparr>, if reply then [(announce_payload d False, ip, BROADCAST_PORT)] else [], [])"
    using received [OF wf [unfolded kvs(1)] kvs(2) assms(2), of now d ip] assms(3) r(1)
    unfolding announce_payload_def [of a] kvs(1) [symmetric] check_announce [OF assms(1)] by simp
  ultimately show ?thesis using that by blast
qed

lemma own_announce:
  assumes "announceable a" "0 < limit" "dc_peer_id a = dc_peer_id d"
  shows "handle_packet limit now d (announce_payload a reply) ip = Some (d, [], [])"
proof -
  have wf: "wf_json (announce_message a reply)"
    using assms(1) wf_sha256_hex by (intro wf_announce) (simp_all add: announceable_def)
  obtain kvs where kvs: "announce_message a reply = JObj kvs" "\<forall>(k, v) \<in> set kvs. scalar v"
    by (simp add: announce_message_def)
  show ?thesis
    using received [OF wf [unfolded kvs(1)] kvs(2) assms(2), of now d ip] assms(3)
    unfolding announce_payload_def [of a] kvs(1) [symmetric] check_announce [OF assms(1)] by simp
qed

text \<open>
  Claim C13. One announcement makes two devices know each other and then the exchange
  stops: the receiver registers the sender with its name, address, port and key as just seen
  and answers once, straight to the sender; the sender registers the receiver from that answer
  and sends nothing more. A device's own announcement is ignored.
\<close>

theorem discovery_is_mutual:
  assumes "announceable a" "announceable b" "0 < limit"
  shows "if dc_peer_id a = dc_peer_id b then handle_packet limit now b (announce_payload a True) ip_a = Some (b, [], [])
    else \<exists>b' a'. handle_packet limit now b (announce_payload a True) ip_a =
      Some (b', [(announce_payload b False, ip_a, BROADCAST_PORT)], []) \<and>
    handle_packet limit later a (announce_payload b False) ip_b = Some (a', [], []) \<and>
    (\<exists>p. get_peer (dc_registry b') (JStr (dc_peer_id a)) = Some p \<and> pr_name p = JStr (shown_name (dc_name a) ip_a) \<and>
       pr_ip p = ip_a \<and> pr_tcp_port p = JInt (dc_tcp_port a) \<and> pr_public_key p = dc_public_key a \<and> pr_last_seen p = now) \<and>
    (\<exists>p. get_peer (dc_registry a') (JStr (dc_peer_id b)) = Some p \<and> pr_name p = JStr (shown_name (dc_name b) ip_b) \<and>
       pr_ip p = ip_b \<and> pr_tcp_port p = JInt (dc_tcp_port b) \<and> pr_public_key p = dc_public_key b \<and> pr_last_seen p = later)"
proof (cases "dc_peer_id a = dc_peer_id b")
  case True
  then show ?thesis using own_announce [OF assms(1,3) True] by simp
next
  case False
  obtain r where r: "handle_packet limit now b (announce_payload a True) ip_a =
      Some (b\<lparr>dc_registry := r\<rparr>, [(announce_payload b False, ip_a, BROADCAST_PORT)], [])"
    "\<exists>p. get_peer r (JStr (dc_peer_id a)) = Some p \<and> pr_name p = JStr (shown_name (dc_name a) ip_a) \<and> pr_ip p = ip_a \<and>
       pr_tcp_port p = JInt (dc_tcp_port a) \<and> pr_last_seen p = now \<and> pr_public_key p = dc_public_key a"
    using handle_announce [OF assms(1,3) False, of now True ip_a] by auto
  obtain q where q: "handle_packet limit later a (announce_payload b False) ip_b = Some (a\<lparr>dc_registry := q\<rparr>, [], [])"
    "\<exists>p. get_peer q (JStr (dc_peer_id b)) = Some p \<and> pr_name p = JStr (shown_name (dc_name b) ip_b) \<and> pr_ip p = ip_b \<and>
       pr_tcp_port p = JInt (dc_tcp_port b) \<and> pr_last_seen p = later \<and> pr_public_key p = dc_public_key b"
    using handle_announce [OF assms(2,3) False [symmetric], of later False ip_b] by auto
  have "\<exists>b' a'. handle_packet limit now b (announce_payload a True) ip_a =
      Some (b', [(announce_payload b False, ip_a, BROADCAST_PORT)], []) \<and>
    handle_packet limit later a (announce_payload b False) ip_b = Some (a', [], []) \<and>
    (\<exists>p. get_peer (dc_registry b') (JStr (dc_peer_id a)) = Some p \<and> pr_name p = JStr (shown_name (dc_name a) ip_a) \<and>
       pr_ip p = ip_a \<and> pr_tcp_port p = JInt (dc_tcp_port a) \<and> pr_public_key p = dc_public_key a \<and> pr_last_seen p = now) \<and>
    (\<exists>p. get_peer (dc_registry a') (JStr (dc_peer_id b)) = Some p \<and> pr_name p = JStr (shown_name (dc_name b) ip_b) \<and>
       pr_ip p = ip_b \<and> pr_tcp_port p = JInt (dc_tcp_port b) \<and> pr_public_key p = dc_public_key b \<and> pr_last_seen p = later)"
    by (intro exI [of _ "b\<lparr>dc_registry := r\<rparr>"] exI [of _ "a\<lparr>dc_registry := q\<rparr>"]) (use r q in auto)
  with False show ?thesis by simp
qed

definition toy_announcer :: "byte \<Rightarrow> Discovery" where
  "toy_announcer x =
     \<lparr>dc_peer_id = sha256_hex (replicate 32 x), dc_name = lit ''node'', dc_tcp_port = 5656, dc_public_key = replicate 32 x,
      dc_registry = new_registry\<rparr>"

lemma toy_announceable: "announceable (toy_announcer x)"
  by (simp add: announceable_def toy_announcer_def) (simp add: lit_def is_high_surrogate_def)

lemma toy_announcers_differ: "dc_peer_id (toy_announcer 1) \<noteq> dc_peer_id (toy_announcer 2)"
  by (simp add: toy_announcer_def sha256_key_ones sha256_key_twos)

theorem discovery_is_mutual_witness:
  "\<exists>b'. handle_packet 900 0 (toy_announcer 2) (announce_payload (toy_announcer 1) True) (lit ''10.0.0.1'') =
     Some (b', [(announce_payload (toy_announcer 2) False, lit ''10.0.0.1'', BROADCAST_PORT)], [])"
  using discovery_is_mutual [OF toy_announceable [of 1] toy_announceable [of 2], of 900 0 "lit ''10.0.0.1''" 0 "[]"]
    toy_announcers_differ
  by auto

section \<open>mDNS and broadcast agree\<close>

lemma digit_val_digit: "is_digit c \<Longrightarrow> digit_val 10 c = Some (c - 48) \<and> c \<noteq> 95 \<and> \<not> is_ascii_space c"
  by (auto simp: digit_val_def unhex_def is_digit_def is_ascii_space_def)

lemma int_digits_dec:
  "\<forall>c \<in> set ds. is_digit c \<Longrightarrow> int_digits 10 acc ds = Some (foldl (\<lambda>a c. a * 10 + (c - 48)) acc ds, [])"
proof (induction ds arbitrary: acc)
  case (Cons c ds)
  then show ?case using digit_val_digit [of c] by simp
qed simp

lemma py_int_dec_int:
  assumes "0 \<le> i"
  shows "py_int 10 (dec_int i) = Some i"
proof -
  let ?ds = "dec_nat (nat i)"
  have dec: "dec_int i = ?ds" using assms by (simp add: dec_int_def)
  obtain c r where c: "?ds = c # r" by (cases ?ds) simp_all
  have digits: "\<forall>x \<in> set ?ds. is_digit x" by (rule dec_nat_digits)
  then have hd: "is_digit c" by (simp add: c)
  have ascii: "to_ascii_digits ?ds = ?ds"
    using digits by (auto simp: to_ascii_digits_def list_all_iff is_ascii_def is_digit_def)
  have "int_digits 10 (c - 48) r = int_digits 10 0 ?ds"
    using digit_val_digit [OF hd] by (simp add: c)
  also have "\<dots> = Some (nat i, [])"
    using int_digits_dec [OF digits, of 0] nat_of_digits_dec_nat [of "nat i"] by (simp add: nat_of_digits_def mult.commute)
  finally show ?thesis
    using digit_val_digit [OF hd] hd assms
    by (simp add: py_int_def dec ascii [unfolded c] Let_def c strip_sign_def is_digit_def del: int_digits.simps)
qed

lemma wf_str_take: "wf_str s \<Longrightarrow> wf_str (take n s)"
proof (induction s arbitrary: n rule: wf_str.induct)
  case (3 c d s)
  show ?case
  proof (cases n)
    case (Suc m)
    have "wf_str (take m (d # s))" using 3 by simp
    with Suc 3 show ?thesis by (cases m) auto
  qed simp
qed (auto simp: take_Cons' split: if_splits)

lemma py_strip_Nil_iff: "py_strip sp s = [] \<longleftrightarrow> (\<forall>c \<in> set s. sp c)"
  by (auto simp: py_strip_def dropWhile_eq_Nil_conv dest: set_dropWhileD) (metis dropWhile_eq_Nil_conv hd_dropWhile list.set_sel(1))

text \<open>
  The two ways of announcing are the same to a receiver: the packet made from
  a device's mDNS record has the effect its broadcast announcement (one that asks for no reply)
  would have from the same address, on every receiver and whether or not the announcement is
  consistent. The one condition is on names that are blank up to the 64th character, where the
  record cuts them, and not after.
\<close>

theorem mdns_equals_broadcast:
  assumes "wf_str (dc_peer_id a)" "wf_str (dc_name a)" "0 \<le> dc_tcp_port a" "0 < limit"
    and "py_strip is_py_space (take 64 (dc_name a)) = [] \<longrightarrow> py_strip is_py_space (dc_name a) = []"
  shows "handle_packet limit now b
      (mdns_txt_to_packet (build_mdns_txt (int DISCOVERY_VERSION) (dc_peer_id a) (dc_public_key a) (dc_name a) (dc_tcp_port a)) ip) ip
    = handle_packet limit now b (announce_payload a False) ip"
proof -
  define c where "c = a\<lparr>dc_name := take 64 (dc_name a)\<rparr>"
  have rec: "mdns_message (build_mdns_txt (int DISCOVERY_VERSION) (dc_peer_id a) (dc_public_key a) (dc_name a) (dc_tcp_port a)) ip
      = announce_message c False"
    using assms(3) by (simp add: mdns_message_def build_mdns_txt_def announce_message_def txt_get_def safe_int_def py_int_dec_int
        DISCOVERY_VERSION_def c_def lit_def)
  have "shown_name (dc_name c) ip = shown_name (dc_name a) ip"
    using assms(5) by (auto simp: shown_name_def c_def py_strip_Nil_iff dest: in_set_takeD)
  then have check: "check_message self (announce_message c False) ip = check_message self (announce_message a False) ip" for self
    by (simp add: check_announce_message c_def)
  have wf: "wf_json (announce_message a False)" "wf_json (announce_message c False)"
    using assms(1,2) wf_str_take by (auto intro!: wf_announce simp: c_def)
  have flat: "\<exists>kvs. announce_message x False = JObj kvs \<and> (\<forall>(k, v) \<in> set kvs. scalar v)" for x
    by (simp add: announce_message_def)
  have "handle_packet limit now b (ascii_bytes (json_dumps (announce_message c False))) ip =
      handle_packet limit now b (ascii_bytes (json_dumps (announce_message a False))) ip"
    using flat [of a] flat [of c] wf received [OF _ _ assms(4), of _ now b ip] check [of "dc_peer_id b"] by (metis (no_types, lifting))
  then show ?thesis by (simp add: mdns_txt_to_packet_def rec announce_payload_def)
qed

theorem mdns_equals_broadcast_witness:
  "handle_packet 900 0 (toy_announcer 2)
      (mdns_txt_to_packet (build_mdns_txt (int DISCOVERY_VERSION) (dc_peer_id (toy_announcer 1)) (dc_public_key (toy_announcer 1))
         (dc_name (toy_announcer 1)) (dc_tcp_port (toy_announcer 1))) (lit ''10.0.0.1'')) (lit ''10.0.0.1'')
    = handle_packet 900 0 (toy_announcer 2) (announce_payload (toy_announcer 1) False) (lit ''10.0.0.1'')"
proof (rule mdns_equals_broadcast)
  show "wf_str (dc_peer_id (toy_announcer 1))" "wf_str (dc_name (toy_announcer 1))" "0 \<le> dc_tcp_port (toy_announcer 1)"
    using toy_announceable [of 1] wf_sha256_hex by (simp_all add: announceable_def)
  have "dc_name (toy_announcer 1) = lit ''node''" by (simp add: toy_announcer_def)
  then show "py_strip is_py_space (take 64 (dc_name (toy_announcer 1))) = [] \<longrightarrow> py_strip is_py_space (dc_name (toy_announcer 1)) = []"
    by (simp add: lit_def)
qed simp

section \<open>A packet the listener does not survive\<close>

lemma deaf_run:
  assumes "\<not> ds_listening s" "\<forall>(now, e) \<in> set events. \<exists>data ip. e = Datagram data ip"
  shows "foldl (\<lambda>s (now, e). discovery_step limit now s e) s events = s"
  using assms(2)
proof (induction events)
  case (Cons x events)
  then obtain now data ip where "x = (now, Datagram data ip)" by (cases x) auto
  with Cons assms(1) show ?case by simp
qed simp

text \<open>
  Claim C39. One datagram can end discovery: where the interpreter's recursion limit leaves
  the JSON decoder less than 4096 calls, a packet of 4096 opening brackets from anyone raises an
  exception that the listener does not catch. The listener is then gone, and no later datagram
  changes anything.
\<close>

theorem deep_packet_stops_listening:
  assumes "limit < 4096" "\<forall>(now, e) \<in> set events. \<exists>data ip. e = Datagram data ip"
  shows "foldl (\<lambda>s (now, e). discovery_step limit now s e) s ((t, Datagram (replicate 4096 91) ip) # events)
    = s\<lparr>ds_listening := False\<rparr>"
proof -
  have "utf8_decode (replicate 4096 91) = Some (replicate 4096 91)"
    using utf8_decode_ascii [of "replicate 4096 91"] by (simp add: ascii_bytes_def map_replicate list_all_iff is_ascii_def byte_of_def)
  then have "handle_packet limit t (ds_discovery s) (replicate 4096 91) ip = None"
    using json_decode_brackets [OF assms(1)] by (simp add: handle_packet_def)
  then have "discovery_step limit t s (Datagram (replicate 4096 91) ip) = s\<lparr>ds_listening := False\<rparr>"
    by (cases "ds_listening s") (simp_all)
  then show ?thesis using deaf_run [of "s\<lparr>ds_listening := False\<rparr>" events limit] assms(2) by (simp)
qed

theorem deep_packet_stops_listening_witness:
  "ds_listening (foldl (\<lambda>s (now, e). discovery_step 900 now s e) (new_discovery_state toy_discovery)
     [(0, Datagram (replicate 4096 91) (lit ''10.0.0.1'')), (1, Datagram [] (lit ''10.0.0.2''))]) = False"
proof -
  have "foldl (\<lambda>s (now, e). discovery_step 900 now s e) (new_discovery_state toy_discovery)
      ((0, Datagram (replicate 4096 91) (lit ''10.0.0.1'')) # [(1, Datagram [] (lit ''10.0.0.2''))])
    = (new_discovery_state toy_discovery)\<lparr>ds_listening := False\<rparr>"
    by (rule deep_packet_stops_listening) simp_all
  then show ?thesis by simp
qed

section \<open>Renaming\<close>

lemma load_private_key_cong:
  assumes "read_file fs' (ks_plaintext_fallback_path ks) = read_file (st_fs st) (ks_plaintext_fallback_path ks)"
    and "fs_dirs fs' = fs_dirs (st_fs st)"
  shows "load_private_key K (st\<lparr>st_fs := fs'\<rparr>) ks user = load_private_key K st ks user"
proof -
  have "load_plaintext (st\<lparr>st_fs := fs'\<rparr>) ks = load_plaintext st ks"
    using assms by (simp add: load_plaintext_def path_exists_def isfile_read_file read_text_def)
  then show ?thesis by (simp add: load_private_key_def cong: option.case_cong)
qed

lemma load_existing_parts:
  assumes "load_existing C K now st p ks = Inr ident"
  obtains kvs key kp where "load_json (st_fs st) p = Inr (JObj kvs)" "load_private_key K st ks KEYRING_USERNAME = Inr (Some key)"
    "keypair_from_private_pem C key = Inr kp" "map_of kvs (lit ''device_id'') = Some (JStr (kp_device_id kp))"
    "ident = \<lparr>di_keypair = kp, di_name = or_peer (case map_of kvs (lit ''name'') of None \<Rightarrow> JNull | Some v \<Rightarrow> v),
       di_created_at = (case map_of kvs (lit ''created_at'') of None \<Rightarrow> JFloat now | Some v \<Rightarrow> v),
       di_storage_backend = ks_backend_name ks\<rparr>"
proof -
  obtain meta key kp where parts: "load_json (st_fs st) p = Inr meta" "load_private_key K st ks KEYRING_USERNAME = Inr (Some key)"
    "keypair_from_private_pem C key = Inr kp" "is_obj meta" "jget meta (lit ''device_id'') = Some (JStr (kp_device_id kp))"
    "ident = \<lparr>di_keypair = kp, di_name = or_peer (case jget meta (lit ''name'') of None \<Rightarrow> JNull | Some v \<Rightarrow> v),
       di_created_at = (case jget meta (lit ''created_at'') of None \<Rightarrow> JFloat now | Some v \<Rightarrow> v),
       di_storage_backend = ks_backend_name ks\<rparr>"
    using assms by (auto simp: load_existing_def file_res_def res_simps split: sum.splits option.splits if_splits)
  from parts(4) obtain kvs where "meta = JObj kvs" by (cases meta) auto
  with parts show thesis by (intro that [of kvs key kp]) simp_all
qed

lemma wf_renamed: "wf_json (JObj kvs) \<Longrightarrow> wf_str name \<Longrightarrow> wf_json (JObj (dict_set kvs (lit ''name'') (JStr name)))"
proof -
  have "wf_str (lit ''name'')" by (simp add: lit_def is_high_surrogate_def)
  then show "wf_json (JObj kvs) \<Longrightarrow> wf_str name \<Longrightarrow> wf_json (JObj (dict_set kvs (lit ''name'') (JStr name)))"
    using set_dict_set [of kvs "lit ''name''" "JStr name"] by (auto simp: wf_members_iff)
qed

text \<open>
  Claim C31. Renaming changes the name and nothing else: after it, a start that loaded an
  identity loads the same keypair and creation time with the new name. It refuses to rename a
  file that names another device, and then writes nothing.
\<close>

theorem rename_keeps_identity:
  assumes fs: "fs_ok (st_fs st)" "ks_plaintext_fallback_path ks \<noteq> p"
    and before: "load_or_create_identity C K fresh now st name p ks = (Inr ident, st)" "path_exists (st_fs st) p"
    and wf: "\<And>meta. load_json (st_fs st) p = Inr meta \<Longrightarrow> wf_json meta" "wf_str new_name" "new_name \<noteq> []"
    and rename: "save_identity (st_fs st) peer_id new_name p = (res, fs')"
  shows "(res = Inr () \<longrightarrow> load_or_create_identity C K fresh now (st\<lparr>st_fs := fs'\<rparr>) name p ks =
      (Inr (ident\<lparr>di_name := JStr new_name\<rparr>), st\<lparr>st_fs := fs'\<rparr>)) \<and>
    (peer_id \<noteq> kp_device_id (di_keypair ident) \<longrightarrow> res = Inl RenameOther \<and> fs' = st_fs st)"
proof -
  have "load_existing C K now st p ks = Inr ident" using before by (simp add: load_or_create_identity_def)
  then obtain kvs key kp where parts: "load_json (st_fs st) p = Inr (JObj kvs)"
    "load_private_key K st ks KEYRING_USERNAME = Inr (Some key)"
    "keypair_from_private_pem C key = Inr kp" "map_of kvs (lit ''device_id'') = Some (JStr (kp_device_id kp))"
    "ident = \<lparr>di_keypair = kp, di_name = or_peer (case map_of kvs (lit ''name'') of None \<Rightarrow> JNull | Some v \<Rightarrow> v),
       di_created_at = (case map_of kvs (lit ''created_at'') of None \<Rightarrow> JFloat now | Some v \<Rightarrow> v),
       di_storage_backend = ks_backend_name ks\<rparr>"
    by (rule load_existing_parts)
  let ?meta = "JObj (dict_set kvs (lit ''name'') (JStr new_name))"
  have "load_or_create_identity C K fresh now (st\<lparr>st_fs := fs'\<rparr>) name p ks =
      (Inr (ident\<lparr>di_name := JStr new_name\<rparr>), st\<lparr>st_fs := fs'\<rparr>)" if "res = Inr ()"
  proof -
    have w: "write_text (st_fs st) p (json_dump_indent ?meta) = (Inr (), fs')"
      using rename that before(2) parts(1,4) by (auto simp: save_identity_def split: prod.splits sum.splits if_splits)
    obtain data where data: "\<And>q. read_file fs' q = (if q = p then Some data else read_file (st_fs st) q)"
      "fs_dirs fs' = fs_dirs (st_fs st)"
      using write_text_Inr [OF w fs(1)] by metis
    have "load_private_key K (st\<lparr>st_fs := fs'\<rparr>) ks KEYRING_USERNAME = Inr (Some key)"
      using load_private_key_cong [of fs' ks st K] data fs(2) parts(2) by simp
    moreover have "load_json fs' p = Inr ?meta"
      using load_written_json [OF w fs(1) wf_renamed [OF wf(1) [OF parts(1)] wf(2)]] by simp
    moreover have "path_exists fs' p" using data(1) [of p] by (simp add: path_exists_def isfile_read_file)
    moreover have "lit ''device_id'' \<noteq> lit ''name''" "lit ''created_at'' \<noteq> lit ''name''" by (simp_all add: lit_def)
    ultimately show ?thesis
      using parts(3,4,5) wf(3) by (simp add: load_or_create_identity_def load_existing_def file_res_def or_peer_def truthy_def)
  qed
  moreover have "res = Inl RenameOther" "fs' = st_fs st" if "peer_id \<noteq> kp_device_id (di_keypair ident)"
    using rename before(2) parts(1,4,5) that by (simp_all add: save_identity_def)
  ultimately show ?thesis by simp
qed

definition toy_meta :: json where
  "toy_meta = JObj [(lit ''device_id'', JStr (kp_device_id (generate_keypair toy_ed25519 [1])))]"

definition toy_named :: "pystr option storage" where
  "toy_named =
     \<lparr>st_fs = home_fs\<lparr>fs_names := [(lit ''/h/i'', 0)], fs_data := (\<lambda>_. ascii_bytes (json_dump_indent toy_meta)), fs_next := 1\<rparr>,
      st_keyring = Some (private_key_pem toy_ed25519 (generate_keypair toy_ed25519 [1]))\<rparr>"

lemma toy_meta_wf: "wf_json toy_meta"
  by (simp add: toy_meta_def generated_id compute_device_id_def wf_sha256_hex dict_ok_def lit_def is_high_surrogate_def)

lemma toy_named_loads: "load_json (st_fs toy_named) (lit ''/h/i'') = Inr toy_meta" "path_exists (st_fs toy_named) (lit ''/h/i'')"
proof -
  have "read_file (st_fs toy_named) (lit ''/h/i'') = Some (ascii_bytes (json_dump_indent toy_meta))"
    by (simp add: toy_named_def read_file_def)
  then show "load_json (st_fs toy_named) (lit ''/h/i'') = Inr toy_meta"
    by (rule load_json_bytes) (simp_all add: utf8_encode_ascii json_dump_indent_ascii toy_meta_wf)
  then show "path_exists (st_fs toy_named) (lit ''/h/i'')" by (rule load_json_exists)
qed

theorem rename_keeps_identity_witness:
  "\<exists>ident. save_identity (st_fs toy_named) (lit ''other'') (lit ''new'') (lit ''/h/i'') = (Inl RenameOther, st_fs toy_named) \<and>
     load_or_create_identity toy_ed25519 toy_keyring [] [] toy_named None (lit ''/h/i'') toy_store = (Inr ident, toy_named)"
proof -
  have key: "load_private_key toy_keyring toy_named toy_store user = Inr (Some (private_key_pem toy_ed25519 (generate_keypair toy_ed25519 [1])))" for user
    by (simp add: load_private_key_def toy_store_def toy_keyring_def toy_named_def)
  have "keypair_from_private_pem toy_ed25519 (private_key_pem toy_ed25519 (generate_keypair toy_ed25519 [1])) = Inr (generate_keypair toy_ed25519 [1])"
    using toy_pem_ok wf_generated [of toy_ed25519 "[1]"]
    by (simp add: pem_ok_def keypair_from_private_pem_def private_key_pem_def keypair_eqI)
  then obtain ident where ident: "load_or_create_identity toy_ed25519 toy_keyring [] [] toy_named None (lit ''/h/i'') toy_store = (Inr ident, toy_named)"
    "di_keypair ident = generate_keypair toy_ed25519 [1]"
    using key toy_named_loads by (simp add: load_or_create_identity_def load_existing_def file_res_def toy_meta_def)
  have "lit ''other'' \<noteq> kp_device_id (di_keypair ident)"
  proof
    assume "lit ''other'' = kp_device_id (di_keypair ident)"
    then have "length (lit ''other'') = 64" by (simp only: ident(2) generated_id compute_device_id_def sha256_hex_def length_bytes_hex length_sha256)
    then show False by (simp add: lit_def)
  qed
  moreover have "fs_ok (st_fs toy_named)" by (simp add: toy_named_def home_fs_def fs_ok_def dict_ok_def)
  moreover have "wf_str (lit ''new'')" "lit ''new'' \<noteq> []" by (simp_all add: lit_def is_high_surrogate_def)
  ultimately show ?thesis
    using rename_keeps_identity [OF _ toy_paths ident(1) toy_named_loads(2), of "lit ''new''" "lit ''other''"] toy_named_loads(1) toy_meta_wf ident(1)
    by (metis old.sum.inject(2) surj_pair)
qed

end
