(* ===== verification/Mdns.thy ===== *)
theory Mdns
  imports Discovery Message_Size
begin

text \<open>
  The mDNS side of \<^verbatim>\<open>discovery.py\<close>: the service a device registers and what another device makes of
  it. \<^verbatim>\<open>zeroconf\<close>, which carries the record over the network, is a hypothesis where it matters: the
  properties that are resolved decode to those that were registered.
\<close>

definition MDNS_SERVICE_TYPE :: pystr where
  "MDNS_SERVICE_TYPE = lit ''_peerc._tcp.local.''"

record MDNSDiscovery =
  md_peer_id :: pystr
  md_name :: pystr
  md_tcp_port :: int
  md_public_key :: bytes
  md_service_name :: pystr

text \<open>\<^verbatim>\<open>_mdns_loop\<close> makes the object once, from the fields the discovery has when it starts.\<close>

definition new_mdns :: "Discovery \<Rightarrow> MDNSDiscovery" where
  "new_mdns d =
     \<lparr>md_peer_id = dc_peer_id d, md_name = dc_name d, md_tcp_port = dc_tcp_port d, md_public_key = dc_public_key d,
      md_service_name = take 16 (dc_peer_id d) @ lit ''.'' @ MDNS_SERVICE_TYPE\<rparr>"

text \<open>
  \<^verbatim>\<open>socket.inet_aton\<close> on the dotted quads that name resolution returns. It reads shorter and octal
  forms too, which do not occur here.
\<close>

fun split_dots :: "pystr \<Rightarrow> pystr \<Rightarrow> pystr list" where
  "split_dots acc [] = [rev acc]"
| "split_dots acc (c # s) = (if c = 46 then rev acc # split_dots [] s else split_dots (c # acc) s)"

definition quad_part :: "pystr \<Rightarrow> bool" where
  "quad_part p \<longleftrightarrow> digits_val p < 256 \<and> dec_nat (digits_val p) = p"

definition inet_aton :: "pystr \<Rightarrow> bytes option" where
  "inet_aton s =
     (let ps = split_dots [] s in
      if length ps = 4 \<and> list_all quad_part ps then Some (map (\<lambda>p. word_of_nat (digits_val p)) ps) else None)"

text \<open>The addresses before one that cannot be converted are kept; the exception ends the loop.\<close>

fun advertised_ips :: "pystr list \<Rightarrow> bytes list" where
  "advertised_ips [] = []"
| "advertised_ips (ip_str # ips) =
     (if take 4 ip_str = lit ''127.'' then advertised_ips ips
      else case inet_aton ip_str of None \<Rightarrow> [] | Some b \<Rightarrow> b # advertised_ips ips)"

record ServiceInfo =
  si_type :: pystr
  si_name :: pystr
  si_addresses :: "bytes list"
  si_port :: int
  si_properties :: "(pystr, pystr) dict"

definition make_service_info :: "MDNSDiscovery \<Rightarrow> pystr list option \<Rightarrow> ServiceInfo" where
  "make_service_info m hosts =
     (let local_ips = (case hosts of None \<Rightarrow> [] | Some ips \<Rightarrow> advertised_ips ips) in
      \<lparr>si_type = MDNS_SERVICE_TYPE, si_name = md_service_name m,
       si_addresses = (if local_ips = [] then [[127, 0, 0, 1]] else local_ips), si_port = md_tcp_port m,
       si_properties = build_mdns_txt (int DISCOVERY_VERSION) (md_peer_id m) (md_public_key m) (md_name m) (md_tcp_port m)\<rparr>)"

text \<open>The older way to load the identity: the two fields the interface starts from.\<close>

definition load_identity_pair ::
    "'x ed25519_scheme \<Rightarrow> 'k keyring \<Rightarrow> bytes \<Rightarrow> pystr \<Rightarrow> 'k storage \<Rightarrow> pystr \<Rightarrow> pystr \<Rightarrow> KeyStore \<Rightarrow>
     (id_file_error + pystr \<times> json) \<times> 'k storage" where
  "load_identity_pair C K fresh now st hostname config_path ks =
     (case load_or_create_identity C K fresh now st (Some hostname) config_path ks of
        (Inl e, st') \<Rightarrow> (Inl e, st')
      | (Inr ident, st') \<Rightarrow> (Inr (kp_device_id (di_keypair ident), di_name ident), st'))"

section \<open>Addresses\<close>

lemma split_dots_not_Nil: "split_dots acc s \<noteq> []"
  by (induction s arbitrary: acc) auto

lemma join_split_dots: "join_with [46] (split_dots acc s) = rev acc @ s"
proof (induction s arbitrary: acc)
  case (Cons c s)
  have "join_with [46] (x # split_dots [] s) = x @ [46] @ join_with [46] (split_dots [] s)" for x
    using split_dots_not_Nil [of "[]" s] by (cases "split_dots [] s") simp_all
  with Cons show ?case by simp
qed simp

lemma inet_ntoa_aton:
  assumes "inet_aton s = Some b"
  shows "inet_ntoa b = s" "length b = 4"
proof -
  let ?ps = "split_dots [] s"
  have b: "b = map (\<lambda>p. word_of_nat (digits_val p)) ?ps" "length ?ps = 4" "\<forall>p \<in> set ?ps. quad_part p"
    using assms by (auto simp: inet_aton_def Let_def list_all_iff split: if_splits)
  have "dec_nat (unat (word_of_nat (digits_val p) :: byte)) = p" if "quad_part p" for p
    using that by (simp add: quad_part_def unat_of_nat)
  then have "map (\<lambda>x. dec_nat (unat x)) b = ?ps" using b(3) by (simp add: b(1) map_idI)
  then show "inet_ntoa b = s" using join_split_dots [of "[]" s] by (simp add: inet_ntoa_def lit_def)
  show "length b = 4" by (simp add: b(1,2))
qed

definition first_address :: "pystr list option \<Rightarrow> pystr" where
  "first_address hosts = (case local_addresses hosts of [] \<Rightarrow> lit ''127.0.0.1'' | ip # _ \<Rightarrow> ip)"

lemma dec_nat_digit: "n < 10 \<Longrightarrow> dec_nat n = [48 + n]"
  by (subst dec_nat.simps) simp

lemma inet_ntoa_loopback: "inet_ntoa [127, 0, 0, 1] = lit ''127.0.0.1''"
proof -
  have "dec_nat 127 = [49, 50, 55]" by (simp add: dec_nat.simps)
  then show ?thesis by (simp add: inet_ntoa_def lit_def dec_nat_digit)
qed

lemma advertised_first:
  assumes "\<forall>ip \<in> set (local_addresses hosts). inet_aton ip \<noteq> None"
  shows "\<exists>b bs. si_addresses (make_service_info m hosts) = b # bs \<and> length b = 4 \<and> inet_ntoa b = first_address hosts"
proof -
  have first: "(filter (\<lambda>ip. take 4 ip \<noteq> lit ''127.'') ips = [] \<longrightarrow> advertised_ips ips = []) \<and>
      (\<forall>ip rest. filter (\<lambda>ip. take 4 ip \<noteq> lit ''127.'') ips = ip # rest \<longrightarrow>
        (\<forall>b. inet_aton ip = Some b \<longrightarrow> (\<exists>bs. advertised_ips ips = b # bs)))" for ips
    by (induction ips) auto
  show ?thesis
  proof (cases "local_addresses hosts")
    case Nil
    then have "si_addresses (make_service_info m hosts) = [[127, 0, 0, 1]]"
      using first by (auto simp: make_service_info_def local_addresses_def Let_def split: option.splits)
    then show ?thesis using Nil inet_ntoa_loopback by (simp add: first_address_def)
  next
    case (Cons ip rest)
    then obtain b where b: "inet_aton ip = Some b" using assms by auto
    obtain ips where ips: "hosts = Some ips" using Cons by (cases hosts) (simp_all add: local_addresses_def)
    then obtain bs where "advertised_ips ips = b # bs"
      using first [of ips] Cons b by (auto simp: local_addresses_def)
    then have "si_addresses (make_service_info m hosts) = b # bs" by (simp add: make_service_info_def Let_def ips)
    then show ?thesis using inet_ntoa_aton [OF b] Cons by (simp add: first_address_def)
  qed
qed

section \<open>A registered service is found\<close>

lemma handle_packet_Some:
  assumes "wf_str (dc_peer_id a)" "wf_str (dc_name a)" "0 < limit"
  shows "handle_packet limit now b (announce_payload a reply) ip \<noteq> None"
proof -
  have "wf_json (announce_message a reply)" "\<exists>kvs. announce_message a reply = JObj kvs \<and> (\<forall>(k, v) \<in> set kvs. scalar v)"
    using wf_announce [OF assms(1,2)] by (simp_all add: announce_message_def)
  then obtain kvs where kvs: "announce_message a reply = JObj kvs" "wf_json (JObj kvs)" "\<forall>(k, v) \<in> set kvs. scalar v" by metis
  show ?thesis
    using received [OF kvs(2,3) assms(3), of now b ip]
    by (auto simp: announce_payload_def kvs(1) split: verdict.splits option.splits)
qed


lemma length_announce_payload:
  "length (announce_payload a reply) \<le>
     1000 + 12 * (length (dc_peer_id a) + length (b64encode (dc_public_key a)) + length (dc_name a)) + length (dec_int (dc_tcp_port a))"
proof -
  have int: "length (json_dumps (JInt i)) = length (dec_int i)" "length (json_dumps (JBool b)) \<le> 5" for i b
    by (simp_all add: json_dumps_def lit_def)
  have "length (dec_int (int DISCOVERY_VERSION)) = 1" by (simp add: DISCOVERY_VERSION_def dec_int_def dec_nat.simps)
  moreover obtain kvs where kvs: "announce_message a reply = JObj kvs" "sum_list (map member_size kvs) \<le>
      900 + length (dec_int (int DISCOVERY_VERSION)) +
      12 * (length (dc_peer_id a) + length (b64encode (dc_public_key a)) + length (dc_name a)) + length (dec_int (dc_tcp_port a))"
    using json_dumps_leaf(1) [of "lit ''announce''"] json_dumps_leaf(1) [of "dc_peer_id a"]
      json_dumps_leaf(1) [of "b64encode (dc_public_key a)"] json_dumps_leaf(1) [of "dc_name a"] int(2) [of reply]
    by (simp add: announce_message_def member_size_def int(1))
  moreover have "length (json_dumps (JObj kvs)) \<le> 2 + sum_list (map member_size kvs)"
    using length_join_members [of kvs] by (simp add: json_dumps_def)
  ultimately show ?thesis by (simp add: announce_payload_def ascii_bytes_def)
qed

definition toy_props :: "(bytes \<times> bytes option) list" where
  "toy_props = map (\<lambda>(k, v). (ascii_bytes k, Some (ascii_bytes v)))
     (si_properties (make_service_info (new_mdns (toy_announcer 1)) (Some [lit ''127.0.0.1'', lit ''10.0.0.7''])))"

lemma decode_ascii_properties:
  "\<forall>(k, v) \<in> set kvs. list_all is_ascii k \<and> list_all is_ascii v \<Longrightarrow>
   decode_properties (map (\<lambda>(k, v). (ascii_bytes k, Some (ascii_bytes v))) kvs) t0 = Some (foldl (\<lambda>d (k, v). dict_set d k v) t0 kvs)"
  by (induction kvs arbitrary: t0) (auto simp: utf8_decode_ascii)


end
