(* ===== verification/Terminal.thy ===== *)
theory Terminal
  imports Discovery Chat
begin

text \<open>
  The terminal interface of \<^verbatim>\<open>ui.py\<close>, as far as it changes the program's state: the peers it learns
  of from hello and chat messages, the active peer, the text and the commands a user types. What
  is drawn or copied to the clipboard is left out. An \<^verbatim>\<open>await\<close> is one step with the code around it;
  whether a connection opens is an argument. A handler that lets an exception out gives the state
  it leaves behind.
\<close>

definition UI_TCP_PORT :: int where
  "UI_TCP_PORT = 5656"

record ChatApp =
  ui_peer_id :: pystr
  ui_display_name :: pystr
  ui_discovery :: Discovery
  ui_chat :: ChatSession
  ui_active :: "json option"
  ui_last_received :: json
  ui_fs :: filesystem
  ui_sent :: "datagram list"
  ui_running :: bool

datatype ui_error = UiTypeError | UiAttributeError | UiValueError | UiSendError frame_error | UiRename rename_error

section \<open>Addresses\<close>

text \<open>\<^verbatim>\<open>s.rsplit(":", 1)\<close>: what is before the last colon and what is after it.\<close>

definition after_colon :: "pystr \<Rightarrow> pystr" where
  "after_colon s = rev (takeWhile (\<lambda>c. c \<noteq> 58) (rev s))"

definition before_colon :: "pystr \<Rightarrow> pystr" where
  "before_colon s = (if 58 \<in> set s then take (length s - length (after_colon s) - 1) s else s)"

text \<open>
  The text of a port in an f-string. A port is an integer here, perhaps one of the two booleans:
  \<^verbatim>\<open>validate\<close> and the listener of the discovery let nothing else through.
\<close>

fun str_of_port :: "json \<Rightarrow> pystr" where
  "str_of_port (JInt i) = dec_int i"
| "str_of_port (JBool b) = lit (if b then ''True'' else ''False'')"
| "str_of_port (JStr s) = s"
| "str_of_port v = json_dumps v"

definition addr_text :: "pystr \<Rightarrow> json \<Rightarrow> pystr" where
  "addr_text ip port = ip @ [58] @ str_of_port port"

text \<open>
  \<^verbatim>\<open>str.isdigit\<close> holds of the decimal digits and of 128 characters more that \<^verbatim>\<open>int\<close> does not read,
  such as superscripts (Unicode 14).
\<close>

definition digit_ranges :: "(nat \<times> nat) list" where
  "digit_ranges =
    [(0xb2, 0xb3), (0xb9, 0xb9), (0x1369, 0x1371), (0x19da, 0x19da), (0x2070, 0x2070), (0x2074, 0x2079),
     (0x2080, 0x2089), (0x2460, 0x2468), (0x2474, 0x247c), (0x2488, 0x2490), (0x24ea, 0x24ea), (0x24f5, 0x24fd),
     (0x24ff, 0x24ff), (0x2776, 0x277e), (0x2780, 0x2788), (0x278a, 0x2792), (0x10a40, 0x10a43),
     (0x10e60, 0x10e68), (0x11052, 0x1105a), (0x1f100, 0x1f10a)]"

definition isdigit_char :: "nat \<Rightarrow> bool" where
  "isdigit_char c \<longleftrightarrow> to_decimal c \<noteq> None \<or> list_ex (\<lambda>(a, b). a \<le> c \<and> c \<le> b) digit_ranges"

definition isdigit :: "pystr \<Rightarrow> bool" where
  "isdigit s \<longleftrightarrow> s \<noteq> [] \<and> list_all isdigit_char s"

text \<open>The address of \<^verbatim>\<open>/connect\<close>; \<open>None\<close> is the \<^verbatim>\<open>ValueError\<close> of \<^verbatim>\<open>int\<close>.\<close>

definition parse_connect :: "pystr \<Rightarrow> (pystr \<times> int) option" where
  "parse_connect arg =
     (if take 1 arg = [91] then
        (if 93 \<notin> set arg then Some (arg, UI_TCP_PORT)
         else
           let ip = takeWhile (\<lambda>c. c \<noteq> 93) (drop 1 arg);
               rest = drop 1 (dropWhile (\<lambda>c. c \<noteq> 93) arg) in
           if take 1 rest = [58] \<and> isdigit (drop 1 rest)
           then map_option (\<lambda>port. (ip, port)) (py_int 10 (drop 1 rest))
           else Some (ip, UI_TCP_PORT))
      else if length (filter (\<lambda>c. c = 58) arg) = 1 then
        (if isdigit (after_colon arg)
         then map_option (\<lambda>port. (before_colon arg, port)) (py_int 10 (after_colon arg))
         else Some (arg, UI_TCP_PORT))
      else Some (arg, UI_TCP_PORT))"

section \<open>Peers\<close>

definition ui_registry :: "ChatApp \<Rightarrow> PeerRegistry" where
  "ui_registry u = dc_registry (ui_discovery u)"

text \<open>
  The registry calls \<^verbatim>\<open>_on_peer_new\<close> for an identifier it did not have, which makes it the active peer
  if there is none.
\<close>

definition on_peer_new :: "ChatApp \<Rightarrow> Peer \<Rightarrow> ChatApp" where
  "on_peer_new u p = (if ui_active u = None then u\<lparr>ui_active := Some (pr_peer_id p)\<rparr> else u)"

definition ui_upsert :: "time \<Rightarrow> ChatApp \<Rightarrow> json \<Rightarrow> json \<Rightarrow> pystr \<Rightarrow> json \<Rightarrow> ui_error + ChatApp" where
  "ui_upsert now u peer_id name ip port =
     (case upsert now (ui_registry u) peer_id name ip port [] of
        None \<Rightarrow> Inl UiTypeError
      | Some r \<Rightarrow>
          Inr (foldl on_peer_new (u\<lparr>ui_discovery := (ui_discovery u)\<lparr>dc_registry := r\<rparr>\<rparr>)
                 (drop (length (rg_new (ui_registry u))) (rg_new r))))"

definition learn_peer :: "time \<Rightarrow> ChatApp \<Rightarrow> json \<Rightarrow> json \<Rightarrow> pystr \<Rightarrow> json \<Rightarrow> ui_error + ChatApp" where
  "learn_peer now u peer_id name ip port =
     res_bind (ui_upsert now u peer_id name ip port) (\<lambda>u'.
       Inr (if ui_active u' = None then u'\<lparr>ui_active := Some peer_id\<rparr> else u'))"

definition field_or :: "json \<Rightarrow> string \<Rightarrow> json \<Rightarrow> json" where
  "field_or message k d = (case jget message (lit k) of None \<Rightarrow> d | Some v \<Rightarrow> v)"

definition on_network_message :: "time \<Rightarrow> pystr \<Rightarrow> ChatApp \<Rightarrow> pystr \<Rightarrow> json \<Rightarrow> ui_error option \<times> ChatApp" where
  "on_network_message now stamp u addr_key message =
     (let msg_type = jget message (lit ''type''); ip = before_colon addr_key;
          hello = (msg_type = Some (JStr (lit ''hello''))) in
      if \<not> hello \<and> msg_type \<noteq> Some (JStr (lit ''hello_ack'')) then (None, u)
      else
        let peer_id = field_or message ''peer_id'' (JStr []);
            sender_name = field_or message ''sender_name'' (JStr ip);
            tcp_port = field_or message ''tcp_port'' (JInt UI_TCP_PORT) in
        if \<not> (truthy peer_id \<and> peer_id \<noteq> JStr (ui_peer_id u)) then (None, u)
        else case learn_peer now u peer_id sender_name ip tcp_port of
          Inl e \<Rightarrow> (Some e, u)
        | Inr u1 \<Rightarrow>
            if \<not> hello then (None, u1)
            else case manager_send (cs_manager (ui_chat u1)) addr_key
                (make_hello_ack stamp (ui_peer_id u1) (ui_display_name u1) UI_TCP_PORT) of
              (SendRaises e, m) \<Rightarrow> (Some (UiSendError e), u1\<lparr>ui_chat := (ui_chat u1)\<lparr>cs_manager := m\<rparr>\<rparr>)
            | (_, m) \<Rightarrow> (None, u1\<lparr>ui_chat := (ui_chat u1)\<lparr>cs_manager := m\<rparr>\<rparr>))"

definition on_chat_received :: "time \<Rightarrow> ChatApp \<Rightarrow> pystr \<Rightarrow> json \<Rightarrow> ui_error option \<times> ChatApp" where
  "on_chat_received now u addr_key message =
     (let sender_id = field_or message ''sender_id'' (JStr []);
          sender_name = field_or message ''sender_name'' (JStr (lit ''peer''));
          u1 = u\<lparr>ui_last_received := field_or message ''text'' (JStr [])\<rparr> in
      if \<not> (truthy sender_id \<and> sender_id \<noteq> JStr (ui_peer_id u)) then (None, u1)
      else case learn_peer now u1 sender_id sender_name (before_colon addr_key) (JInt UI_TCP_PORT) of
        Inl e \<Rightarrow> (Some e, u1)
      | Inr u2 \<Rightarrow> (None, u2))"

text \<open>
  A message off a connection reaches the chat session first, which calls back for a chat, and
  then the handler above; the event bus runs each whatever the other raises.
\<close>

definition deliver_message :: "time \<Rightarrow> pystr \<Rightarrow> ChatApp \<Rightarrow> pystr \<Rightarrow> json \<Rightarrow> ChatApp" where
  "deliver_message now stamp u addr_key message =
     (let chat = snd (dispatch_chat (ui_chat u) stamp addr_key message);
          received = drop (length (cs_received (ui_chat u))) (cs_received chat);
          u1 = foldl (\<lambda>v (a, m). snd (on_chat_received now v a m)) (u\<lparr>ui_chat := chat\<rparr>) received in
      snd (on_network_message now stamp u1 addr_key message))"

definition on_list_view_selected :: "ChatApp \<Rightarrow> json \<Rightarrow> ChatApp" where
  "on_list_view_selected u name = (if truthy name then u\<lparr>ui_active := Some name\<rparr> else u)"

definition active_addr_key :: "ChatApp \<Rightarrow> pystr option" where
  "active_addr_key u =
     (case ui_active u of
        None \<Rightarrow> None
      | Some peer_id \<Rightarrow>
          (case get_peer (ui_registry u) peer_id of
             None \<Rightarrow> None
           | Some p \<Rightarrow> Some (addr_text (pr_ip p) (pr_tcp_port p))))"

section \<open>Connecting and sending\<close>

definition set_manager :: "ChatApp \<Rightarrow> ConnectionManager \<Rightarrow> ChatApp" where
  "set_manager u m = u\<lparr>ui_chat := (ui_chat u)\<lparr>cs_manager := m\<rparr>\<rparr>"

text \<open>\<^verbatim>\<open>connect_to\<close> in one step; \<open>opened\<close> tells whether the connection opens in time.\<close>

definition open_connection :: "ChatApp \<Rightarrow> bool \<Rightarrow> pystr \<Rightarrow> bool \<times> ChatApp" where
  "open_connection u opened addr_key =
     (case connect_to (cs_manager (ui_chat u)) addr_key of
        (AlreadyConnected, m) \<Rightarrow> (True, set_manager u m)
      | (LimitReached, m) \<Rightarrow> (False, set_manager u m)
      | (Connecting, m) \<Rightarrow> (opened, set_manager u (connect_done m addr_key opened)))"

definition ensure_connected :: "ChatApp \<Rightarrow> bool \<Rightarrow> pystr \<Rightarrow> bool \<times> ChatApp" where
  "ensure_connected u opened addr_key =
     (if is_connected (cs_manager (ui_chat u)) addr_key then (True, u)
      else case py_int 10 (after_colon addr_key) of
        None \<Rightarrow> (False, u)
      | Some port \<Rightarrow> open_connection u opened (before_colon addr_key @ [58] @ dec_int port))"

definition send_text :: "time \<Rightarrow> pystr \<Rightarrow> pystr \<Rightarrow> bool \<Rightarrow> ChatApp \<Rightarrow> pystr \<Rightarrow> ChatApp" where
  "send_text now stamp message_id opened u body =
     (case active_addr_key u of
        None \<Rightarrow> u
      | Some addr_key \<Rightarrow>
          (case ensure_connected u opened addr_key of
             (False, u1) \<Rightarrow> u1
           | (True, u1) \<Rightarrow>
               (case send_chat (ui_chat u1) now stamp message_id addr_key (ui_peer_id u1) (ui_display_name u1) body of
                  (None, chat) \<Rightarrow> u1\<lparr>ui_chat := chat\<rparr>
                | (Some ok, chat) \<Rightarrow> u1\<lparr>ui_chat := send_chat_resume chat message_id addr_key ok\<rparr>)))"

section \<open>Commands\<close>

definition command_parts :: "pystr \<Rightarrow> pystr \<times> pystr" where
  "command_parts s =
     (let s = dropWhile is_py_space s in
      (lower (takeWhile (\<lambda>c. \<not> is_py_space c) s), py_strip is_py_space (dropWhile (\<lambda>c. \<not> is_py_space c) s)))"

definition connect_command :: "time \<Rightarrow> pystr \<Rightarrow> bool \<Rightarrow> ChatApp \<Rightarrow> pystr \<Rightarrow> ui_error option \<times> ChatApp" where
  "connect_command now stamp opened u arg =
     (if arg = [] then (None, u)
      else case parse_connect arg of
        None \<Rightarrow> (Some UiValueError, u)
      | Some (ip, port) \<Rightarrow>
          let u0 = u\<lparr>ui_sent := ui_sent u @ probe_peer (ui_discovery u) ip\<rparr>;
              addr_key = ip @ [58] @ dec_int port in
          (case open_connection u0 opened addr_key of
             (False, u1) \<Rightarrow> (None, u1)
           | (True, u1) \<Rightarrow>
               (case manager_send (cs_manager (ui_chat u1)) addr_key
                   (make_hello stamp (ui_peer_id u1) (ui_display_name u1) UI_TCP_PORT) of
                  (SendRaises _, m) \<Rightarrow> (None, set_manager u1 m)
                | (_, m) \<Rightarrow>
                    let u2 = set_manager u1 m in
                    (case List.find (\<lambda>p. pr_ip p = ip) (list_peers (ui_registry u2)) of
                       Some p \<Rightarrow> (None, u2\<lparr>ui_active := Some (pr_peer_id p)\<rparr>)
                     | None \<Rightarrow>
                         let manual_id = JStr (lit ''peer-'' @ ip) in
                         (case ui_upsert now u2 manual_id (JStr (lit ''Peer ('' @ ip @ lit '')'')) ip (JInt port) of
                            Inl _ \<Rightarrow> (None, u2)
                          | Inr u3 \<Rightarrow> (None, u3\<lparr>ui_active := Some manual_id\<rparr>))))))"

text \<open>
  The first peer whose name contains the text, without regard to case, or whose identifier
  starts with it. A name or an identifier that is not a string raises \<^verbatim>\<open>AttributeError\<close>; \<open>low\<close> is
  \<^verbatim>\<open>str.lower\<close>.
\<close>

fun find_peer :: "(pystr \<Rightarrow> pystr) \<Rightarrow> pystr \<Rightarrow> Peer list \<Rightarrow> ui_error + Peer option" where
  "find_peer low arg [] = Inr None"
| "find_peer low arg (p # ps) =
     (case pr_name p of
        JStr name \<Rightarrow>
          if contains_word (low arg) (low name) then Inr (Some p)
          else (case pr_peer_id p of
             JStr pid \<Rightarrow> if take (length arg) pid = arg then Inr (Some p) else find_peer low arg ps
           | _ \<Rightarrow> Inl UiAttributeError)
      | _ \<Rightarrow> Inl UiAttributeError)"

definition msg_command :: "(pystr \<Rightarrow> pystr) \<Rightarrow> ChatApp \<Rightarrow> pystr \<Rightarrow> ui_error option \<times> ChatApp" where
  "msg_command low u arg =
     (if arg = [] then (None, u)
      else case find_peer low arg (list_peers (ui_registry u)) of
        Inl e \<Rightarrow> (Some e, u)
      | Inr None \<Rightarrow> (None, u)
      | Inr (Some p) \<Rightarrow> (None, u\<lparr>ui_active := Some (pr_peer_id p)\<rparr>))"

definition control_char :: "nat \<Rightarrow> bool" where
  "control_char c \<longleftrightarrow> c < 0x20 \<or> c = 0x7f"

text \<open>The identity file is at \<open>config_path\<close>; the targets of the broadcast are an argument.\<close>

definition nick_command :: "pystr \<Rightarrow> pystr list \<Rightarrow> ChatApp \<Rightarrow> pystr \<Rightarrow> ui_error option \<times> ChatApp" where
  "nick_command config_path targets u arg =
     (if arg = [] then (None, u)
      else if list_ex control_char arg then (None, u)
      else if length arg > 32 then (None, u)
      else
        let u1 = u\<lparr>ui_display_name := arg, ui_discovery := (ui_discovery u)\<lparr>dc_name := arg\<rparr>\<rparr> in
        (case save_identity (ui_fs u1) (ui_peer_id u1) arg config_path of
           (Inl e, fs) \<Rightarrow> (Some (UiRename e), u1\<lparr>ui_fs := fs\<rparr>)
         | (Inr _, fs) \<Rightarrow>
             (None, u1\<lparr>ui_fs := fs, ui_sent := ui_sent u1 @ broadcast_now (ui_discovery u1) targets\<rparr>)))"

text \<open>\<^verbatim>\<open>/send\<close>, up to the offer: the address to offer the file to, if the file is there and the peer can be reached.\<close>

definition send_command :: "bool \<Rightarrow> ChatApp \<Rightarrow> pystr \<Rightarrow> (pystr \<times> pystr) option \<times> ChatApp" where
  "send_command opened u arg =
     (if arg = [] \<or> \<not> path_isfile (ui_fs u) arg then (None, u)
      else case active_addr_key u of
        None \<Rightarrow> (None, u)
      | Some addr_key \<Rightarrow>
          (case ensure_connected u opened addr_key of
             (False, u1) \<Rightarrow> (None, u1)
           | (True, u1) \<Rightarrow> (Some (addr_key, arg), u1)))"

record ui_env =
  en_now :: time
  en_stamp :: pystr
  en_message_id :: pystr
  en_opened :: bool
  en_lower :: "pystr \<Rightarrow> pystr"
  en_config_path :: pystr
  en_targets :: "pystr list"

definition handle_command :: "ui_env \<Rightarrow> ChatApp \<Rightarrow> pystr \<Rightarrow> ui_error option \<times> (pystr \<times> pystr) option \<times> ChatApp" where
  "handle_command env u body =
     (let (cmd, arg) = command_parts body in
      if cmd \<in> {lit ''/connect'', lit ''/add''} then
        let (e, u') = connect_command (en_now env) (en_stamp env) (en_opened env) u arg in (e, None, u')
      else if cmd = lit ''/msg'' then let (e, u') = msg_command (en_lower env) u arg in (e, None, u')
      else if cmd = lit ''/send'' then let (offer, u') = send_command (en_opened env) u arg in (None, offer, u')
      else if cmd = lit ''/nick'' then
        let (e, u') = nick_command (en_config_path env) (en_targets env) u arg in (e, None, u')
      else if cmd \<in> {lit ''/quit'', lit ''/exit'', lit ''/q''} then (None, None, u\<lparr>ui_running := False\<rparr>)
      else (None, None, u))"

definition on_input_submitted :: "ui_env \<Rightarrow> ChatApp \<Rightarrow> pystr \<Rightarrow> ui_error option \<times> (pystr \<times> pystr) option \<times> ChatApp" where
  "on_input_submitted env u input =
     (let body = py_strip is_py_space input in
      if body = [] then (None, None, u)
      else if take 1 body = lit ''/'' then handle_command env u body
      else (None, None, send_text (en_now env) (en_stamp env) (en_message_id env) (en_opened env) u body))"

text \<open>The program as it is when the interface has come up.\<close>

definition on_mount :: "pystr \<Rightarrow> pystr \<Rightarrow> bytes \<Rightarrow> filesystem \<Rightarrow> ChatApp" where
  "on_mount peer_id display_name public_key fs =
     \<lparr>ui_peer_id = peer_id, ui_display_name = display_name,
      ui_discovery = \<lparr>dc_peer_id = peer_id, dc_name = display_name, dc_tcp_port = UI_TCP_PORT, dc_public_key = public_key,
        dc_registry = new_registry\<rparr>,
      ui_chat = new_chat_session (start_server (new_manager MAX_CONNECTIONS)), ui_active = None, ui_last_received = JStr [],
      ui_fs = fs, ui_sent = [], ui_running = True\<rparr>"

section \<open>Addresses a user can type\<close>

lemma isdigit_dec: "0 \<le> i \<Longrightarrow> isdigit (dec_int i)"
proof -
  have "is_digit c \<Longrightarrow> to_decimal c \<noteq> None" for c
    by (auto simp: is_digit_def to_decimal_def unicode_zeros_def)
  then show "0 \<le> i \<Longrightarrow> isdigit (dec_int i)"
    using dec_nat_digits [of "nat i"] by (auto simp: isdigit_def isdigit_char_def dec_int_def list_all_iff)
qed

lemma dec_int_chars: "0 \<le> i \<Longrightarrow> 58 \<notin> set (dec_int i) \<and> 93 \<notin> set (dec_int i)"
  using dec_nat_digits [of "nat i"] by (auto simp: dec_int_def is_digit_def)

lemma filter_absent: "x \<notin> set xs \<Longrightarrow> filter (\<lambda>c. c = x) xs = []"
  by (auto simp: filter_empty_conv)

lemma after_colon_append: "58 \<notin> set s \<Longrightarrow> after_colon (ip @ 58 # s) = s"
proof -
  assume "58 \<notin> set s"
  then have "takeWhile (\<lambda>c. c \<noteq> 58) (rev s @ 58 # rev ip) = rev s" by (subst takeWhile_append2) auto
  then show ?thesis by (simp add: after_colon_def)
qed

lemma before_colon_append: "58 \<notin> set s \<Longrightarrow> before_colon (ip @ 58 # s) = ip"
  by (simp add: before_colon_def after_colon_append)

text \<open>
  The address after \<^verbatim>\<open>/connect\<close> is read as it is written: a host and a port
  joined by one colon, an address in brackets with or without a port, and anything else whole,
  an IPv6 address with its many colons included, at the usual port.
\<close>

theorem connect_reads_addresses:
  assumes "0 \<le> port"
  shows "(58 \<notin> set ip \<and> take 1 ip \<noteq> [91] \<longrightarrow> parse_connect (ip @ [58] @ dec_int port) = Some (ip, port)) \<and>
    (93 \<notin> set ip \<longrightarrow> parse_connect ([91] @ ip @ [93, 58] @ dec_int port) = Some (ip, port) \<and>
       parse_connect ([91] @ ip @ [93]) = Some (ip, UI_TCP_PORT)) \<and>
    (take 1 ip \<noteq> [91] \<and> length (filter (\<lambda>c. c = 58) ip) \<noteq> 1 \<longrightarrow> parse_connect ip = Some (ip, UI_TCP_PORT))"
proof (intro conjI impI)
  note num = isdigit_dec [OF assms] py_int_dec_int [OF assms] dec_int_chars [OF assms]
  assume ip: "58 \<notin> set ip \<and> take 1 ip \<noteq> [91]"
  then have "filter (\<lambda>c. c = 58) (ip @ [58] @ dec_int port) = [58]" using num(3) by (simp add: filter_absent)
  moreover have "take 1 (ip @ [58] @ dec_int port) \<noteq> [91]" using ip by (cases ip) simp_all
  ultimately show "parse_connect (ip @ [58] @ dec_int port) = Some (ip, port)"
    using num by (simp add: parse_connect_def after_colon_append before_colon_append)
next
  note num = isdigit_dec [OF assms] py_int_dec_int [OF assms] dec_int_chars [OF assms]
  assume ip: "93 \<notin> set ip"
  have tw: "takeWhile (\<lambda>c. c \<noteq> 93) (ip @ 93 # s) = ip" "dropWhile (\<lambda>c. c \<noteq> 93) (ip @ 93 # s) = 93 # s" for s
    using ip by (induction ip) auto
  show "parse_connect ([91] @ ip @ [93, 58] @ dec_int port) = Some (ip, port)"
    using num by (simp add: parse_connect_def Let_def tw)
  show "parse_connect ([91] @ ip @ [93]) = Some (ip, UI_TCP_PORT)"
    by (simp add: parse_connect_def Let_def tw)
next
  assume "take 1 ip \<noteq> [91] \<and> length (filter (\<lambda>c. c = 58) ip) \<noteq> 1"
  then show "parse_connect ip = Some (ip, UI_TCP_PORT)" by (simp add: parse_connect_def)
qed

theorem connect_reads_addresses_witness:
  "parse_connect (lit ''10.0.0.1'' @ [58] @ dec_int 7000) = Some (lit ''10.0.0.1'', 7000)"
  using connect_reads_addresses [of 7000 "lit ''10.0.0.1''", THEN conjunct1] by (simp add: lit_def)

text \<open>
  A port that looks like digits but is not a number, such as a superscript two,
  is converted outside the block that handles errors: \<^verbatim>\<open>/connect\<close> raises \<^verbatim>\<open>ValueError\<close> out of the handler
  of the input instead of reporting a bad address.
\<close>

theorem unreadable_port_raises:
  assumes "58 \<notin> set ip" "take 1 ip \<noteq> [91]"
  shows "connect_command now stamp opened u (ip @ [58, 0xb2]) = (Some UiValueError, u)"
proof -
  have "filter (\<lambda>c. c = 58) (ip @ [58, 0xb2]) = [58]" using assms(1) by (simp add: filter_absent)
  moreover have "take 1 (ip @ [58, 0xb2]) \<noteq> [91]" using assms(2) by (cases ip) simp_all
  moreover have "isdigit [0xb2]" by (simp add: isdigit_def isdigit_char_def digit_ranges_def)
  moreover have "to_decimal 0xb2 = None" by (simp add: to_decimal_def unicode_zeros_def)
  then have "py_int 10 [0xb2] = None"
    by (simp add: py_int_def to_ascii_digits_def to_ascii_digit_def is_ascii_def is_py_space_def is_ascii_space_def strip_sign_def
        digit_val_def unhex_def)
  ultimately have "parse_connect (ip @ [58, 0xb2]) = None"
    using after_colon_append [of "[0xb2]" ip] by (simp add: parse_connect_def)
  then show ?thesis by (simp add: connect_command_def)
qed

theorem unreadable_port_raises_witness:
  "connect_command 0 [] True (on_mount (lit ''me'') (lit ''me'') [] home_fs) (lit ''10.0.0.1'' @ [58, 0xb2])
     = (Some UiValueError, on_mount (lit ''me'') (lit ''me'') [] home_fs)"
  by (rule unreadable_port_raises) (simp_all add: lit_def)

section \<open>What a hello can do\<close>

lemma get_peer_upsert:
  assumes "upsert now r pid name ip port key = Some r'"
  shows "\<exists>p'. get_peer r' pid = Some p' \<and> pr_ip p' = ip \<and> pr_tcp_port p' = port \<and> pr_name p' = name \<and>
    (\<forall>p. get_peer r pid = Some p \<longrightarrow> key = [] \<longrightarrow> pr_public_key p' = pr_public_key p)"
  using assms by (auto simp: upsert_def get_peer_def Let_def split: option.splits)

lemma foldl_on_peer_new:
  "ui_registry (foldl on_peer_new u ps) = ui_registry u \<and> ui_display_name (foldl on_peer_new u ps) = ui_display_name u \<and>
   dc_name (ui_discovery (foldl on_peer_new u ps)) = dc_name (ui_discovery u) \<and>
   ui_peer_id (foldl on_peer_new u ps) = ui_peer_id u \<and>
   (ui_active u \<noteq> None \<longrightarrow> ui_active (foldl on_peer_new u ps) = ui_active u)"
  by (induction ps arbitrary: u) (auto simp: on_peer_new_def ui_registry_def)

lemma learn_peer_str: "\<exists>u'. learn_peer now u (JStr pid) name ip port = Inr u'"
  by (cases "map_of (rg_peers (ui_registry u)) (JStr pid)")
    (simp_all add: learn_peer_def ui_upsert_def upsert_def Let_def)

lemma learn_peer_facts:
  assumes "learn_peer now u pid name ip port = Inr u'"
  shows "\<exists>p'. get_peer (ui_registry u') pid = Some p' \<and> pr_ip p' = ip \<and> pr_tcp_port p' = port \<and> pr_name p' = name \<and>
      (\<forall>p. get_peer (ui_registry u) pid = Some p \<longrightarrow> pr_public_key p' = pr_public_key p)"
    and "ui_active u \<noteq> None \<Longrightarrow> ui_active u' = ui_active u"
    and "ui_display_name u' = ui_display_name u" "dc_name (ui_discovery u') = dc_name (ui_discovery u)"
proof -
  obtain r where r: "upsert now (ui_registry u) pid name ip port [] = Some r"
    using assms by (cases "upsert now (ui_registry u) pid name ip port []") (simp_all add: learn_peer_def ui_upsert_def)
  define v where "v = foldl on_peer_new (u\<lparr>ui_discovery := (ui_discovery u)\<lparr>dc_registry := r\<rparr>\<rparr>)
      (drop (length (rg_new (ui_registry u))) (rg_new r))"
  have u': "u' = (if ui_active v = None then v\<lparr>ui_active := Some pid\<rparr> else v)"
    using assms unfolding learn_peer_def ui_upsert_def r option.case v_def [symmetric] res_bind_simps by simp
  have v: "ui_registry v = r" "ui_display_name v = ui_display_name u" "dc_name (ui_discovery v) = dc_name (ui_discovery u)"
    "ui_active u \<noteq> None \<Longrightarrow> ui_active v = ui_active u"
    using foldl_on_peer_new [of "u\<lparr>ui_discovery := (ui_discovery u)\<lparr>dc_registry := r\<rparr>\<rparr>"
      "drop (length (rg_new (ui_registry u))) (rg_new r)"]
    unfolding v_def by (simp_all add: ui_registry_def)
  have "ui_registry u' = r" using v(1) by (simp add: u' ui_registry_def)
  then show "\<exists>p'. get_peer (ui_registry u') pid = Some p' \<and> pr_ip p' = ip \<and> pr_tcp_port p' = port \<and> pr_name p' = name \<and>
      (\<forall>p. get_peer (ui_registry u) pid = Some p \<longrightarrow> pr_public_key p' = pr_public_key p)"
    using get_peer_upsert [OF r] by simp
  show "ui_active u \<noteq> None \<Longrightarrow> ui_active u' = ui_active u" using v(4) by (auto simp: u')
  show "ui_display_name u' = ui_display_name u" "dc_name (ui_discovery u') = dc_name (ui_discovery u)"
    using v(2,3) by (simp_all add: u')
qed

lemma learn_peer_first:
  assumes "rg_peers (ui_registry u) = []" "learn_peer now u (JStr pid) name ip port = Inr u'"
  shows "\<exists>p. rg_peers (ui_registry u') = [(JStr pid, p)] \<and> pr_name p = name"
proof -
  define v where "v = u\<lparr>ui_discovery := (ui_discovery u)\<lparr>dc_registry := (ui_registry u)
    \<lparr>rg_peers := [(JStr pid, \<lparr>pr_peer_id = JStr pid, pr_name = name, pr_ip = ip, pr_tcp_port = port, pr_public_key = [],
      pr_last_seen = now\<rparr>)], rg_new := rg_new (ui_registry u) @ [\<lparr>pr_peer_id = JStr pid, pr_name = name, pr_ip = ip,
      pr_tcp_port = port, pr_public_key = [], pr_last_seen = now\<rparr>]\<rparr>\<rparr>\<rparr>"
  have "ui_registry u' = ui_registry v"
    using assms foldl_on_peer_new
    by (auto simp: learn_peer_def ui_upsert_def upsert_def Let_def v_def ui_registry_def on_peer_new_def split: if_splits)
  then show ?thesis by (simp add: v_def ui_registry_def)
qed

text \<open>
  Claim C40. Any connected peer can take over another's entry: a hello that claims the
  identifier of a known peer replaces that peer's name, address and port by the sender's while
  the verified public key stays, and when that peer is the active one, whatever the user types
  next goes to the sender's address.
\<close>

theorem hello_redirects_peer:
  assumes known: "get_peer (ui_registry u) (JStr victim) = Some p" "ui_active u = Some (JStr victim)"
    and other: "victim \<noteq> []" "victim \<noteq> ui_peer_id u"
    and hello: "jget message (lit ''type'') = Some (JStr (lit ''hello''))" "jget message (lit ''peer_id'') = Some (JStr victim)"
      "jget message (lit ''tcp_port'') = Some port" "jget message (lit ''sender_name'') = Some name"
  shows "let u' = snd (on_network_message now stamp u addr_key message) in
    active_addr_key u' = Some (addr_text (before_colon addr_key) port) \<and>
    (\<exists>q. get_peer (ui_registry u') (JStr victim) = Some q \<and> pr_name q = name \<and> pr_public_key q = pr_public_key p)"
proof -
  obtain u1 where u1: "learn_peer now u (JStr victim) name (before_colon addr_key) port = Inr u1"
    using learn_peer_str by blast
  define u' where "u' = snd (on_network_message now stamp u addr_key message)"
  have "lit ''hello'' \<noteq> lit ''hello_ack''" by (simp add: lit_def)
  then have "\<exists>chat. u' = u1\<lparr>ui_chat := chat\<rparr>"
    using hello other u1
    by (auto simp: u'_def on_network_message_def field_or_def truthy_def Let_def split: prod.splits send_result.splits)
  then have u': "ui_registry u' = ui_registry u1" "ui_active u' = ui_active u1" by (auto simp: ui_registry_def)
  obtain q where q: "get_peer (ui_registry u1) (JStr victim) = Some q" "pr_ip q = before_colon addr_key" "pr_tcp_port q = port"
    "pr_name q = name" "pr_public_key q = pr_public_key p"
    using learn_peer_facts(1) [OF u1] known(1) by blast
  have "ui_active u1 = Some (JStr victim)" using learn_peer_facts(2) [OF u1] known(2) by simp
  then have "active_addr_key u' = Some (addr_text (before_colon addr_key) port)"
    using q by (simp add: active_addr_key_def u')
  then show ?thesis unfolding Let_def u'_def [symmetric] using q by (auto simp: u')
qed

definition toy_victim :: ChatApp where
  "toy_victim =
     (on_mount (lit ''me'') (lit ''me'') [] home_fs)
       \<lparr>ui_active := Some (JStr (lit ''bob'')),
        ui_discovery := \<lparr>dc_peer_id = lit ''me'', dc_name = lit ''me'', dc_tcp_port = UI_TCP_PORT, dc_public_key = [],
          dc_registry = \<lparr>rg_peers = [(JStr (lit ''bob''),
              \<lparr>pr_peer_id = JStr (lit ''bob''), pr_name = JStr (lit ''Bob''), pr_ip = lit ''10.0.0.2'', pr_tcp_port = JInt 5656,
               pr_public_key = [7], pr_last_seen = 0\<rparr>)], rg_new = [], rg_lost = []\<rparr>\<rparr>\<rparr>"

theorem hello_redirects_peer_witness:
  "active_addr_key toy_victim = Some (lit ''10.0.0.2:5656'') \<and>
   active_addr_key (snd (on_network_message 1 (lit ''0.0'') toy_victim (lit ''10.0.0.66:40000'')
     (make_hello (lit ''0.0'') (lit ''bob'') (lit ''Bob'') 5656))) = Some (addr_text (before_colon (lit ''10.0.0.66:40000'')) (JInt 5656))"
proof
  show "active_addr_key toy_victim = Some (lit ''10.0.0.2:5656'')"
    by (simp add: active_addr_key_def toy_victim_def ui_registry_def get_peer_def addr_text_def dec_int_def dec_nat.simps lit_def)
  let ?m = "make_hello (lit ''0.0'') (lit ''bob'') (lit ''Bob'') 5656"
  have "jget ?m (lit ''type'') = Some (JStr (lit ''hello''))" "jget ?m (lit ''peer_id'') = Some (JStr (lit ''bob''))"
    "jget ?m (lit ''tcp_port'') = Some (JInt 5656)" "jget ?m (lit ''sender_name'') = Some (JStr (lit ''Bob''))"
    by (simp_all add: make_hello_def typed_def lit_def)
  then show "active_addr_key (snd (on_network_message 1 (lit ''0.0'') toy_victim (lit ''10.0.0.66:40000'') ?m))
      = Some (addr_text (before_colon (lit ''10.0.0.66:40000'')) (JInt 5656))"
    using hello_redirects_peer [of toy_victim "lit ''bob''" _ ?m "JInt 5656" "JStr (lit ''Bob'')" 1 "lit ''0.0''" "lit ''10.0.0.66:40000''"]
    by (simp add: toy_victim_def ui_registry_def get_peer_def on_mount_def Let_def lit_def)
qed

text \<open>
  A name that is no string is accepted from a hello, because the validator of
  messages only asks for the field: if such a peer comes first in the registry, \<^verbatim>\<open>/msg\<close> raises
  \<^verbatim>\<open>AttributeError\<close> for every argument, and the user can no longer switch to any peer by name.
\<close>

theorem nameless_peer_breaks_msg:
  assumes first: "rg_peers (ui_registry u) = []" and other: "peer_id \<noteq> []" "peer_id \<noteq> ui_peer_id u"
    and hello: "jget message (lit ''type'') = Some (JStr (lit ''hello_ack''))" "jget message (lit ''peer_id'') = Some (JStr peer_id)"
      "jget message (lit ''sender_name'') = Some name"
    and name: "\<And>s. name \<noteq> JStr s"
  shows "arg = [] \<or> fst (msg_command low (snd (on_network_message now stamp u addr_key message)) arg) = Some UiAttributeError"
proof -
  let ?port = "field_or message ''tcp_port'' (JInt UI_TCP_PORT)"
  obtain u1 where u1: "learn_peer now u (JStr peer_id) name (before_colon addr_key) ?port = Inr u1"
    using learn_peer_str by blast
  have "lit ''hello_ack'' \<noteq> lit ''hello''" by (simp add: lit_def)
  then have u': "snd (on_network_message now stamp u addr_key message) = u1"
    using hello other u1 by (simp add: on_network_message_def field_or_def truthy_def Let_def)
  obtain p where "rg_peers (ui_registry u1) = [(JStr peer_id, p)]" "pr_name p = name"
    using learn_peer_first [OF first u1] by blast
  then have "find_peer low arg (list_peers (ui_registry u1)) = Inl UiAttributeError"
    using name by (simp add: list_peers_def split: json.splits)
  then show ?thesis by (simp add: u' msg_command_def)
qed

theorem nameless_peer_breaks_msg_witness:
  "fst (msg_command id (snd (on_network_message 1 [] (on_mount (lit ''me'') (lit ''me'') [] home_fs) (lit ''10.0.0.66:40000'')
     (JObj [(lit ''type'', JStr (lit ''hello_ack'')), (lit ''peer_id'', JStr (lit ''x'')), (lit ''sender_name'', JInt 0)])))
     (lit ''bob'')) = Some UiAttributeError"
proof -
  let ?m = "JObj [(lit ''type'', JStr (lit ''hello_ack'')), (lit ''peer_id'', JStr (lit ''x'')), (lit ''sender_name'', JInt 0)]"
  let ?u = "on_mount (lit ''me'') (lit ''me'') [] home_fs"
  have "rg_peers (ui_registry ?u) = []" by (simp add: on_mount_def ui_registry_def new_registry_def)
  moreover have "lit ''x'' \<noteq> []" "lit ''x'' \<noteq> ui_peer_id ?u" by (simp_all add: lit_def on_mount_def)
  moreover have "jget ?m (lit ''type'') = Some (JStr (lit ''hello_ack''))" "jget ?m (lit ''peer_id'') = Some (JStr (lit ''x''))"
    "jget ?m (lit ''sender_name'') = Some (JInt 0)" by (simp_all add: lit_def)
  ultimately show ?thesis
    using nameless_peer_breaks_msg [of ?u "lit ''x''" ?m "JInt 0" "lit ''bob''" id 1 "[]" "lit ''10.0.0.66:40000''"]
    by (simp add: lit_def)
qed

section \<open>The nickname\<close>

text \<open>What happens to the interface: input, a message off a connection, a click on a peer.\<close>

datatype ui_event =
    Submitted ui_env pystr
  | Arrived time pystr pystr json
  | Selected json

fun ui_step :: "ChatApp \<Rightarrow> ui_event \<Rightarrow> ChatApp" where
  "ui_step u (Submitted env input) = snd (snd (on_input_submitted env u input))"
| "ui_step u (Arrived now stamp addr_key message) = deliver_message now stamp u addr_key message"
| "ui_step u (Selected name) = on_list_view_selected u name"

definition ui_names :: "ChatApp \<Rightarrow> pystr \<times> pystr" where
  "ui_names u = (ui_display_name u, dc_name (ui_discovery u))"

definition nick_ok :: "pystr \<Rightarrow> bool" where
  "nick_ok s \<longleftrightarrow> s \<noteq> [] \<and> length s \<le> 32 \<and> \<not> list_ex control_char s"

definition names_inv :: "pystr \<Rightarrow> ChatApp \<Rightarrow> bool" where
  "names_inv first u \<longleftrightarrow> dc_name (ui_discovery u) = ui_display_name u \<and> (ui_display_name u = first \<or> nick_ok (ui_display_name u))"

named_theorems names_simps

lemma names_update [names_simps]:
  "ui_names (u\<lparr>ui_active := a\<rparr>) = ui_names u" "ui_names (u\<lparr>ui_chat := c\<rparr>) = ui_names u"
  "ui_names (u\<lparr>ui_last_received := j\<rparr>) = ui_names u" "ui_names (u\<lparr>ui_sent := d\<rparr>) = ui_names u"
  "ui_names (u\<lparr>ui_running := b\<rparr>) = ui_names u" "ui_names (u\<lparr>ui_fs := fs\<rparr>) = ui_names u"
  "ui_names (set_manager u m) = ui_names u"
  by (simp_all add: ui_names_def set_manager_def)

lemma names_upsert: "ui_upsert now u pid name ip port = Inr u' \<Longrightarrow> ui_names u' = ui_names u"
  using foldl_on_peer_new by (auto simp: ui_upsert_def ui_names_def split: option.splits)

lemma names_learn: "learn_peer now u pid name ip port = Inr u' \<Longrightarrow> ui_names u' = ui_names u"
  using learn_peer_facts(3,4) by (auto simp: ui_names_def)

lemma names_network [names_simps]: "ui_names (snd (on_network_message now stamp u addr_key message)) = ui_names u"
  by (auto simp: on_network_message_def Let_def names_simps names_learn split: sum.splits prod.splits send_result.splits)

lemma names_chat [names_simps]: "ui_names (snd (on_chat_received now u addr_key message)) = ui_names u"
  by (auto simp: on_chat_received_def Let_def names_simps dest: names_learn split: sum.splits)

lemma names_deliver [names_simps]: "ui_names (deliver_message now stamp u addr_key message) = ui_names u"
proof -
  have "ui_names (foldl (\<lambda>v (a, m). snd (on_chat_received now v a m)) v ms) = ui_names v" for v ms
    by (induction ms arbitrary: v) (auto simp: names_simps)
  then show ?thesis by (simp add: deliver_message_def Let_def names_simps)
qed

lemma names_open: "open_connection u opened addr_key = (b, u') \<Longrightarrow> ui_names u' = ui_names u"
  by (auto simp: open_connection_def names_simps split: prod.splits connect_result.splits)

lemma names_ensure: "ensure_connected u opened addr_key = (b, u') \<Longrightarrow> ui_names u' = ui_names u"
  by (auto simp: ensure_connected_def names_open split: if_splits option.splits)

lemma names_send_text [names_simps]: "ui_names (send_text now stamp mid opened u body) = ui_names u"
  by (auto simp: send_text_def names_simps names_ensure split: option.splits prod.splits bool.splits)

lemma names_connect [names_simps]: "ui_names (snd (connect_command now stamp opened u arg)) = ui_names u"
  by (auto simp: connect_command_def Let_def names_simps dest!: names_open names_upsert
      split: option.splits prod.splits bool.splits send_result.splits sum.splits)

lemma names_msg [names_simps]: "ui_names (snd (msg_command low u arg)) = ui_names u"
  by (auto simp: msg_command_def names_simps split: sum.splits option.splits)

lemma names_send [names_simps]: "ui_names (snd (send_command opened u arg)) = ui_names u"
  by (auto simp: send_command_def names_ensure split: option.splits prod.splits bool.splits)

lemma names_inv_nick: "names_inv first u \<Longrightarrow> names_inv first (snd (nick_command path targets u arg))"
  by (auto simp: nick_command_def names_inv_def nick_ok_def Let_def split: prod.splits sum.splits)

lemma names_inv_cong: "ui_names u' = ui_names u \<Longrightarrow> names_inv first u \<Longrightarrow> names_inv first u'"
  by (simp add: ui_names_def names_inv_def)

lemma names_inv_command:
  assumes "names_inv first u"
  shows "names_inv first (snd (snd (handle_command env u body)))"
  by (auto simp: handle_command_def Let_def case_prod_beta names_simps assms names_inv_nick
      intro: names_inv_cong [OF _ assms])

interpretation nickname: step_system ui_step "names_inv first" for first
proof
  fix u e
  assume "names_inv first u"
  then show "names_inv first (ui_step u e)"
    by (cases e) (auto simp: on_input_submitted_def on_list_view_selected_def Let_def names_inv_command names_simps
        intro: names_inv_cong)
qed


end
