(* ===== verification/Screen_Text.thy ===== *)
theory Screen_Text
  imports Terminal
begin

text \<open>
  The parts of \<^verbatim>\<open>ui.py\<close> around the screen that compute something: the list of peers, the highlight of
  a selection, and what is copied to the clipboard. A strip of the screen belongs to the terminal
  library; its operations are the fields of a record.
\<close>

section \<open>The list of peers\<close>

text \<open>An entry is the name of the list item, which a click hands back, and whether it is marked.\<close>

definition refresh_peer_list :: "ChatApp \<Rightarrow> (json \<times> bool) list" where
  "refresh_peer_list u = map (\<lambda>p. (pr_peer_id p, Some (pr_peer_id p) = ui_active u)) (list_peers (ui_registry u))"

lemma list_view_selected_registry [simp]: "ui_registry (on_list_view_selected u name) = ui_registry u"
  by (simp add: on_list_view_selected_def ui_registry_def)

text \<open>A click on an entry marks the entries of that identifier and no other.\<close>

lemma click_marks_entry:
  assumes "(pid, m) \<in> set (refresh_peer_list u)" "truthy pid"
  shows "(q, b) \<in> set (refresh_peer_list (on_list_view_selected u pid)) \<longleftrightarrow>
    q \<in> fst ` set (refresh_peer_list u) \<and> b = (q = pid)"
  using assms(2) by (auto simp: refresh_peer_list_def on_list_view_selected_def ui_registry_def image_iff)

section \<open>The highlight of a selection\<close>

record ('s, 'y) strip_ops =
  sp_cell_length :: "'s \<Rightarrow> nat"
  sp_divide :: "'s \<Rightarrow> int list \<Rightarrow> 's list"
  sp_apply_style :: "'s \<Rightarrow> 'y \<Rightarrow> 's"
  sp_join :: "'s list \<Rightarrow> 's"

text \<open>\<open>None\<close> is the \<^verbatim>\<open>IndexError\<close> of a division with too few parts.\<close>

definition apply_selection_to_strip :: "('s, 'y) strip_ops \<Rightarrow> 's \<Rightarrow> int \<Rightarrow> int \<Rightarrow> 'y \<Rightarrow> 's option" where
  "apply_selection_to_strip S strip start stop style =
     (let cell_len = int (sp_cell_length S strip) in
      if cell_len = 0 then Some strip
      else
        let stop = (if stop = -1 \<or> stop > cell_len then cell_len else stop);
            start = max 0 (min start cell_len);
            stop = max 0 (min stop cell_len) in
        if start \<ge> stop then Some strip
        else
          let cuts = (if start > 0 then [start] else []) @ [stop] @ (if stop < cell_len then [cell_len] else []);
              parts = sp_divide S strip cuts;
              idx = (if start > 0 then 1 else 0) in
          if length parts \<le> (if stop < cell_len then idx + 1 else idx) then None
          else Some (sp_join S ((if start > 0 then [parts ! 0] else []) @ [sp_apply_style S (parts ! idx) style] @
            (if stop < cell_len then [parts ! (idx + 1)] else []))))"

text \<open>
  Documented behaviour of the library, over the cells of a strip: \<^verbatim>\<open>divide\<close> cuts at cell positions up
  to the last, \<^verbatim>\<open>apply_style\<close> changes every cell, \<^verbatim>\<open>join\<close> concatenates. For \<^verbatim>\<open>divide\<close> it is asked of the strip
  at hand, since a cut through a character two cells wide replaces it.
\<close>

fun cut_cells :: "int \<Rightarrow> int list \<Rightarrow> 'c list \<Rightarrow> 'c list list" where
  "cut_cells a [] xs = []"
| "cut_cells a (c # cs) xs = take (nat (c - a)) xs # cut_cells c cs (drop (nat (c - a)) xs)"

definition strip_ok :: "('s, 'y) strip_ops \<Rightarrow> ('s \<Rightarrow> 'c list) \<Rightarrow> ('y \<Rightarrow> 'c \<Rightarrow> 'c) \<Rightarrow> 's \<Rightarrow> bool" where
  "strip_ok S cells paint strip \<longleftrightarrow>
     sp_cell_length S strip = length (cells strip) \<and>
     (\<forall>cuts. sorted_wrt (<) (0 # cuts) \<longrightarrow> cuts \<noteq> [] \<longrightarrow> last cuts = int (length (cells strip)) \<longrightarrow>
        map cells (sp_divide S strip cuts) = cut_cells 0 cuts (cells strip)) \<and>
     (\<forall>parts. cells (sp_join S parts) = concat (map cells parts)) \<and>
     (\<forall>p style. cells (sp_apply_style S p style) = map (paint style) (cells p))"

text \<open>Strips that are lists of cells behave so.\<close>

definition plain_strips :: "('c list, 'c \<Rightarrow> 'c) strip_ops" where
  "plain_strips = \<lparr>sp_cell_length = length, sp_divide = \<lambda>s cuts. cut_cells 0 cuts s, sp_apply_style = \<lambda>s f. map f s,
     sp_join = concat\<rparr>"

lemma plain_strips_ok: "strip_ok plain_strips (\<lambda>s. s) (\<lambda>f. f) strip"
  by (simp add: strip_ok_def plain_strips_def)

lemma paint_range:
  assumes "lo \<le> hi" "hi \<le> length xs"
  shows "take lo xs @ map f (take (hi - lo) (drop lo xs)) @ drop hi xs =
    map (\<lambda>i. if lo \<le> i \<and> i < hi then f (xs ! i) else xs ! i) [0..<length xs]"
  using assms by (intro nth_equalityI) (auto simp: nth_append min_def)

lemma selection_parts:
  assumes ok: "strip_ok S cells paint strip" and range: "0 \<le> lo" "lo < hi" "hi \<le> int (length (cells strip))"
  defines "parts \<equiv> sp_divide S strip ((if lo > 0 then [lo] else []) @ [hi] @
      (if hi < int (length (cells strip)) then [int (length (cells strip))] else []))"
  shows "map cells parts = (if lo > 0 then [take (nat lo) (cells strip)] else []) @
      [take (nat hi - nat lo) (drop (nat lo) (cells strip))] @
      (if hi < int (length (cells strip)) then [drop (nat hi) (cells strip)] else [])"
proof -
  let ?cuts = "(if lo > 0 then [lo] else []) @ [hi] @ (if hi < int (length (cells strip)) then [int (length (cells strip))] else [])"
  have "sorted_wrt (<) (0 # ?cuts)" "?cuts \<noteq> []" "last ?cuts = int (length (cells strip))" using range by auto
  then have "map cells parts = cut_cells 0 ?cuts (cells strip)" using ok unfolding strip_ok_def parts_def by blast
  also have "\<dots> = (if lo > 0 then [take (nat lo) (cells strip)] else []) @
      [take (nat hi - nat lo) (drop (nat lo) (cells strip))] @
      (if hi < int (length (cells strip)) then [drop (nat hi) (cells strip)] else [])"
    using range by (auto simp: nat_diff_distrib add.commute)
  finally show ?thesis .
qed

text \<open>
  The highlight is exact: the cells from \<open>start\<close> up to \<open>stop\<close>, which is the end of the line for \<open>-1\<close>,
  get the style and all others stay as they are, whatever the two numbers.
\<close>

lemma selection_highlights_exactly:
  assumes ok: "strip_ok S cells paint strip"
  shows "\<exists>out. apply_selection_to_strip S strip start stop style = Some out \<and>
    cells out = map (\<lambda>i. if start \<le> int i \<and> (stop = -1 \<or> int i < stop) then paint style (cells strip ! i) else cells strip ! i)
      [0..<length (cells strip)]"
proof -
  let ?n = "int (length (cells strip))"
  define lo where "lo = max 0 (min start ?n)"
  define hi where "hi = max 0 (min (if stop = -1 \<or> stop > ?n then ?n else stop) ?n)"
  have len: "sp_cell_length S strip = length (cells strip)" using ok by (simp add: strip_ok_def)
  have iff: "start \<le> int i \<and> (stop = -1 \<or> int i < stop) \<longleftrightarrow> nat lo \<le> i \<and> i < nat hi" if "i < length (cells strip)" for i
    using that by (auto simp: lo_def hi_def)
  have goal: "map (\<lambda>i. if start \<le> int i \<and> (stop = -1 \<or> int i < stop) then paint style (cells strip ! i) else cells strip ! i)
      [0..<length (cells strip)] =
    map (\<lambda>i. if nat lo \<le> i \<and> i < nat hi then paint style (cells strip ! i) else cells strip ! i) [0..<length (cells strip)]"
    using iff by (intro map_cong) auto
  show ?thesis
  proof (cases "lo < hi")
    case False
    then have "apply_selection_to_strip S strip start stop style = Some strip"
      unfolding apply_selection_to_strip_def Let_def len lo_def [symmetric] hi_def [symmetric] by simp
    moreover have "cells strip = map (\<lambda>i. if nat lo \<le> i \<and> i < nat hi then paint style (cells strip ! i) else cells strip ! i) [0..<length (cells strip)]"
      using False by (intro nth_equalityI) auto
    ultimately show ?thesis unfolding goal by auto
  next
    case True
    have range: "0 \<le> lo" "hi \<le> ?n" "?n \<noteq> 0" using True by (auto simp: lo_def hi_def)
    let ?parts = "sp_divide S strip ((if lo > 0 then [lo] else []) @ [hi] @ (if hi < ?n then [?n] else []))"
    let ?idx = "if lo > 0 then 1 else 0 :: nat"
    note parts = selection_parts [OF ok range(1) True range(2)]
    have l: "length ?parts = ?idx + 1 + (if hi < ?n then 1 else 0)" using arg_cong [OF parts, of length] by simp
    let ?out = "sp_join S ((if lo > 0 then [?parts ! 0] else []) @ [sp_apply_style S (?parts ! ?idx) style] @
        (if hi < ?n then [?parts ! (?idx + 1)] else []))"
    have "apply_selection_to_strip S strip start stop style = Some ?out"
      using True range l unfolding apply_selection_to_strip_def Let_def len lo_def [symmetric] hi_def [symmetric] by auto
    moreover have nth: "cells (?parts ! i) = ((if lo > 0 then [take (nat lo) (cells strip)] else []) @
        [take (nat hi - nat lo) (drop (nat lo) (cells strip))] @ (if hi < ?n then [drop (nat hi) (cells strip)] else [])) ! i"
      if "i < length ?parts" for i unfolding parts [symmetric] using that by (rule nth_map [symmetric])
    have join: "cells (sp_join S ps) = concat (map cells ps)" "cells (sp_apply_style S p st) = map (paint st) (cells p)" for ps p st
      using ok by (simp_all add: strip_ok_def)
    have "cells ?out = take (nat lo) (cells strip) @ map (paint style) (take (nat hi - nat lo) (drop (nat lo) (cells strip))) @
        drop (nat hi) (cells strip)"
      using range l nth [of 0] nth [of 1] nth [of 2] by (auto simp: join numeral_2_eq_2)
    ultimately show ?thesis
      using paint_range [of "nat lo" "nat hi" "cells strip" "paint style"] True range unfolding goal by auto
  qed
qed

section \<open>The clipboard\<close>

definition rstrip :: "pystr \<Rightarrow> pystr" where
  "rstrip s = rev (dropWhile is_py_space (rev s))"

text \<open>The texts of the strips of the log, joined line by line.\<close>

definition log_text :: "pystr list \<Rightarrow> pystr" where
  "log_text lines = join_with [10] (map rstrip lines)"

text \<open>What \<^verbatim>\<open>/copy\<close> puts on the clipboard, if anything.\<close>

definition copy_command :: "ChatApp \<Rightarrow> pystr list \<Rightarrow> pystr \<Rightarrow> json option" where
  "copy_command u lines arg =
     (if arg = lit ''all'' then (if log_text lines \<noteq> [] then Some (JStr (log_text lines)) else None)
      else if truthy (ui_last_received u) then Some (ui_last_received u)
      else if lines \<noteq> [] then Some (JStr (py_strip is_py_space (last lines)))
      else None)"

text \<open>The tool that is used: the first that is installed and works.\<close>

definition copy_to_system_clipboard :: "(pystr \<Rightarrow> bool) \<Rightarrow> (pystr \<Rightarrow> bool) \<Rightarrow> pystr option" where
  "copy_to_system_clipboard which works =
     List.find (\<lambda>tool. which tool \<and> works tool) [lit ''wl-copy'', lit ''xclip'', lit ''xsel'']"

definition action_copy_selection :: "ChatApp \<Rightarrow> pystr \<Rightarrow> pystr option \<times> ChatApp" where
  "action_copy_selection u selected = (if selected \<noteq> [] then (Some selected, u) else (None, u))"

definition action_copy_or_quit :: "ChatApp \<Rightarrow> pystr \<Rightarrow> pystr option \<times> ChatApp" where
  "action_copy_or_quit u selected =
     (if selected \<noteq> [] then (Some selected, u) else (None, u\<lparr>ui_running := False\<rparr>))"

lemma copy_or_quit_keeps_running:
  "ui_running (snd (action_copy_or_quit u selected)) \<longleftrightarrow> selected \<noteq> [] \<and> ui_running u"
  by (simp add: action_copy_or_quit_def)

end
