(* ===== verification/Spec2Isabelle.thy ===== *)
theory Spec2Isabelle
  imports Sha256_Vector Session Session_Delivery Vault Mdns Screen_Text
begin

text \<open>
  A verification of peerc, a peer-to-peer chat and file transfer program in Python. Paths below
  are relative to \<^verbatim>\<open>src/\<close>.

  \<^bold>\<open>The program.\<close> Peers exchange length-prefixed frames over TCP (\<^verbatim>\<open>core/protocol\<close>). A device has an
  Ed25519 identity (\<^verbatim>\<open>core/identity\<close>), a store of the devices it trusts (\<^verbatim>\<open>core/trust\<close>), an authenticated
  handshake, key derivation and an ordered encrypted channel (\<^verbatim>\<open>core/crypto\<close>), and sessions over them
  (\<^verbatim>\<open>core/transport\<close>). Files are cut, hashed, received into partial files and published
  (\<^verbatim>\<open>core/transfer\<close>). The running application connects with \<^verbatim>\<open>peer.py\<close> and puts \<^verbatim>\<open>chat.py\<close> and
  \<^verbatim>\<open>file_transfer.py\<close> on top of it, joined by the event bus \<^verbatim>\<open>core/events.py\<close>. That stack uses plain
  frames: it shares the frames and the transfer core with the secure sessions, and not the
  sessions themselves. Peers find each other by broadcast and mDNS (\<^verbatim>\<open>discovery.py\<close>), the terminal
  interface \<^verbatim>\<open>ui.py\<close> drives all of it, the identity is kept in files and the system's keyring, and a
  vault (\<^verbatim>\<open>core/vault\<close>) wraps a data key under a passphrase and a recovery code.

  \<^bold>\<open>Shared theories.\<close>
  \<^item> \<^verbatim>\<open>Prelude\<close>: results as sums, big-endian numbers, dictionaries as association lists in insertion
    order, the locales of keyed stores, step systems and stream codecs.
  \<^item> \<^verbatim>\<open>Utf8\<close>, \<^verbatim>\<open>Json\<close>, \<^verbatim>\<open>Json_Roundtrip\<close>, \<^verbatim>\<open>Encodings\<close>: the parts of the Python library that decide what is
    on the wire, with their round trips.
  \<^item> \<^verbatim>\<open>Json_Indent\<close>, \<^verbatim>\<open>Json_Depth\<close>, \<^verbatim>\<open>Text_Files\<close>, \<^verbatim>\<open>Py_Values\<close>: JSON as it is written to files and how deep
    the decoder recurses, text files and the states a crash leaves, truth and equality of JSON values.
  \<^item> \<^verbatim>\<open>Sha256\<close>, \<^verbatim>\<open>Sha256_Vector\<close>: SHA-256 on 32-bit words, its constants computed from the roots of
    primes that define them, and the standard test vector.

  \<^bold>\<open>Components.\<close>
  \<^item> \<^verbatim>\<open>Frame\<close> (\<^verbatim>\<open>core/protocol/frame.py\<close>, \<^verbatim>\<open>binary.py\<close>): frames and chunk payloads; what is written is
    read back, and exactly which streams are accepted.
  \<^item> \<^verbatim>\<open>Messages\<close>, \<^verbatim>\<open>Message_Size\<close> (\<^verbatim>\<open>core/protocol/messages.py\<close>): the factories and the validator, which is
    equivalent to a schema table; bounds on message sizes.
  \<^item> \<^verbatim>\<open>Security_Events\<close> (\<^verbatim>\<open>core/security/events.py\<close>): redaction at every depth, the audit payload.
  \<^item> \<^verbatim>\<open>Identity\<close>, \<^verbatim>\<open>Rotation\<close>, \<^verbatim>\<open>Trust\<close> (\<^verbatim>\<open>core/identity\<close>, \<^verbatim>\<open>core/trust\<close>): identities, rotation certificates
    and the two tables of the store. Revocation is final, keys are pinned, trust has a cause, the
    rotation chain is the connected component.
  \<^item> \<^verbatim>\<open>Channel\<close> (\<^verbatim>\<open>core/crypto/key_exchange.py\<close>, \<^verbatim>\<open>kdf.py\<close>, \<^verbatim>\<open>encryption.py\<close>): keys per direction, nonces
    never repeated, replayed frames refused.
  \<^item> \<^verbatim>\<open>Handshake\<close>, \<^verbatim>\<open>Handshake_Security\<close>, \<^verbatim>\<open>Handshake_Agreement\<close> (\<^verbatim>\<open>core/crypto/handshake.py\<close>): both roles;
    authentication and agreement against an attacker who controls the network; honest runs succeed.
  \<^item> \<^verbatim>\<open>Transport\<close>, \<^verbatim>\<open>Session\<close> (\<^verbatim>\<open>core/transport\<close>): the encrypted transport, session set-up and the session
    manager; two honest devices get sessions that deliver in order.
  \<^item> \<^verbatim>\<open>Files\<close>, \<^verbatim>\<open>File_Transfer\<close>, \<^verbatim>\<open>Transfer_Safety\<close> (\<^verbatim>\<open>core/transfer\<close>): names, inodes and handles; sender,
    receiver and manager; safe destinations, verified files, the file round trip.
  \<^item> \<^verbatim>\<open>Event_Bus\<close> (\<^verbatim>\<open>core/events.py\<close>), \<^verbatim>\<open>Peer\<close> (\<^verbatim>\<open>peer.py\<close>), \<^verbatim>\<open>Chat\<close> (\<^verbatim>\<open>chat.py\<close>): publishing, capturing, the
    bridge that posts each security warning once, the connection table and its limit, the read loop, and at most one final status per chat message.
  \<^item> \<^verbatim>\<open>Transfer_Session\<close>, \<^verbatim>\<open>Session_Safety\<close>, \<^verbatim>\<open>Session_Delivery\<close> (\<^verbatim>\<open>file_transfer.py\<close>): the handlers;
    a reported file is verified; what waiting offers of one name do to each other; and a file from
    the sender's disk over the wire and the read loop to the receiver's disk.
  \<^item> \<^verbatim>\<open>Recovery_Code\<close>, \<^verbatim>\<open>Vault\<close> (\<^verbatim>\<open>core/vault\<close>): a created vault is unlocked by its passphrase and by its
    recovery code, a save is atomic, a new passphrase keeps the data key, a mistyped character of a
    recovery code is always caught.
  \<^item> \<^verbatim>\<open>Identity_File\<close> (\<^verbatim>\<open>core/identity/identity_file.py\<close>, \<^verbatim>\<open>key_storage.py\<close>): the identity survives a restart
    and a rotation; what a crash inside a rotation or a stale keyring does.
  \<^item> \<^verbatim>\<open>Discovery\<close>, \<^verbatim>\<open>Mdns\<close> (\<^verbatim>\<open>discovery.py\<close>): the registry and its type invariant, packets and their checks,
    the loops as events; two devices find each other, an mDNS service counts as an announcement,
    renaming keeps the identity, a packet that ends the listener.
  \<^item> \<^verbatim>\<open>Terminal\<close> (\<^verbatim>\<open>ui.py\<close>): the state of the interface, its handlers and the commands that change
    state; the nickname invariant, the addresses of \<^verbatim>\<open>/connect\<close>, and what a hello can do to the peers.
    \<^verbatim>\<open>Screen_Text\<close>: the list of peers, the exact highlight of a selection, what is copied.

  \<^bold>\<open>State and interleaving.\<close> Every operation takes and returns its state. A coroutine is split where
  other calls can run in between and it matters: connecting, sending a chat message, offering a
  file, waiting for the user or an acknowledgement, the two halves of the responder. Elsewhere a
  send is one step with the code around it, and a handshake run reads the clock once (the
  time stamp is in no transcript). The terminal's handlers take the calls they wait for as one
  step. Callbacks record what they are given.

  \<^bold>\<open>Hypotheses.\<close> Ed25519, X25519, HKDF, ChaCha20-Poly1305 and the PEM format are third-party code and
  fields of a record; what is used of them is named (\<^verbatim>\<open>ed25519_ok\<close>, \<^verbatim>\<open>x25519_ok\<close>, \<^verbatim>\<open>hkdf_ok\<close>, \<^verbatim>\<open>aead_ok\<close>,
  \<^verbatim>\<open>pem_ok\<close>), and witnesses instantiate it. So are Scrypt and AES-GCM (\<^verbatim>\<open>scrypt_ok\<close>, \<^verbatim>\<open>gcm_ok\<close>,
  \<^verbatim>\<open>gcm_rejects\<close>) and the system's keyring (\<^verbatim>\<open>keyring_ok\<close>), and the strips of the terminal library (\<^verbatim>\<open>strip_ok\<close>). Of \<^verbatim>\<open>zeroconf\<close> it is assumed that a resolved
  record has the properties that were registered. Agreement also assumes that the peer's key signs only
  transcripts of its own runs.

  \<^bold>\<open>Loops.\<close> Loops over bytes and lists are total, by structure or a measure. The search for a free
  file name is a partial function whose value \<open>None\<close> is a search that does not end; it is proved
  to end for every name. JSON floats are kept as literals. The file transfer handlers compare
  one with a number below \<open>2 ^ 53\<close> exactly as the nearest double; as a transfer identifier a float
  is the same key only as the same literal.

  The recursion limit of the JSON decoder is an argument of the discovery.

  \<^bold>\<open>Not modelled.\<close> Of \<^verbatim>\<open>ui.py\<close>: the widgets, drawing and the texts that are logged, the dialogue for a
  file offer (its answer is an argument of \<^verbatim>\<open>Transfer_Session\<close>) and the commands that only print. They
  belong to the terminal library and leave the state modelled here as it is. The command
  \<^verbatim>\<open>/send\<close> is followed to the offer it makes. Of \<^verbatim>\<open>core/events.py\<close>: the percentage of a progress event, a
  floating-point number that is only shown. \<^verbatim>\<open>core/__init__.py\<close> and the other package files re-export
  names. Sockets, the registration with \<^verbatim>\<open>zeroconf\<close>, the output of system commands, opening
  database files, file permissions, the text of log lines and the demonstration programs at the
  end of \<^verbatim>\<open>peer.py\<close>, \<^verbatim>\<open>chat.py\<close> and \<^verbatim>\<open>discovery.py\<close> are input and output. Errors of the disk other than
  a missing or locked file, a name that is a directory and a crash while a file is written are
  not modelled.
\<close>

end
